(* ===== verification/Prelude.thy ===== *)
theory Prelude
  imports Main "HOL-Library.Word" "HOL-Library.List_Lexorder" "HOL-Library.Char_ord"
begin

text \<open>
  Shared vocabulary of the ServCat development: the names of the machine types, the
  result and effect types every effectful operation returns, the tables of the database as
  lists of rows, and the lemmas on them the component theories share.

  Effectful Rust code (\<^verbatim>\<open>async fn f(..) -> Result<T, E>\<close>) is a function from a state to
  an outcome and the next state. An outcome is \<open>Ok\<close> a value, \<open>Err\<close> an error (Rust's
  \<^verbatim>\<open>Result\<close>) or \<open>Panic\<close> (an unwinding panic, which skips the rest of the handler). Pure
  fallible code returns HOL's sum type, \<open>Inl\<close> for the error.

  Collections: \<open>keeps_intros\<close> are the rules that a state predicate survives an effectful
  operation (one per combinator, one per repository operation); \<open>io_simps\<close> evaluate the
  combinators on a state.
\<close>

named_theorems keeps_intros
named_theorems io_simps

type_synonym uuid = "128 word"
type_synonym timestamp = int
type_synonym i32 = "32 word"
type_synonym i64 = "64 word"

section \<open>Results and effects\<close>

datatype ('e, 'a) res = Ok 'a | Err 'e | Panic

type_synonym ('s, 'e, 'a) io = "'s \<Rightarrow> ('e, 'a) res \<times> 's"

definition return :: "'a \<Rightarrow> ('s, 'e, 'a) io" where
  "return x = (\<lambda>w. (Ok x, w))"

definition fail :: "'e \<Rightarrow> ('s, 'e, 'a) io" where
  "fail e = (\<lambda>w. (Err e, w))"

definition panic :: "('s, 'e, 'a) io" where
  "panic = (\<lambda>w. (Panic, w))"

definition bindM :: "('s, 'e, 'a) io \<Rightarrow> ('a \<Rightarrow> ('s, 'e, 'b) io) \<Rightarrow> ('s, 'e, 'b) io" where
  "bindM m f = (\<lambda>w. case m w of
     (Ok x, w') \<Rightarrow> f x w' | (Err e, w') \<Rightarrow> (Err e, w') | (Panic, w') \<Rightarrow> (Panic, w'))"

text \<open>The \<^verbatim>\<open>?\<close> operator converts the error with \<^verbatim>\<open>From\<close> before it returns early.\<close>

definition map_err :: "('e \<Rightarrow> 'f) \<Rightarrow> ('s, 'e, 'a) io \<Rightarrow> ('s, 'f, 'a) io" where
  "map_err g m = (\<lambda>w. case m w of
     (Ok x, w') \<Rightarrow> (Ok x, w') | (Err e, w') \<Rightarrow> (Err (g e), w') | (Panic, w') \<Rightarrow> (Panic, w'))"

definition ok_or :: "'e \<Rightarrow> 'a option \<Rightarrow> ('s, 'e, 'a) io" where
  "ok_or e x = (case x of None \<Rightarrow> fail e | Some y \<Rightarrow> return y)"

definition lift_sum :: "'e + 'a \<Rightarrow> ('s, 'e, 'a) io" where
  "lift_sum x = (case x of Inl e \<Rightarrow> fail e | Inr y \<Rightarrow> return y)"

text \<open>\<^verbatim>\<open>let _ = f().await;\<close> and \<^verbatim>\<open>match f().await { Ok(..) => .., Err(..) => .. }\<close>: the error
  is a value and the caller goes on; a panic still unwinds.\<close>

definition try_io :: "('s, 'e, 'a) io \<Rightarrow> ('s, 'f, 'e + 'a) io" where
  "try_io m = (\<lambda>w. case m w of
     (Ok x, w') \<Rightarrow> (Ok (Inr x), w') | (Err e, w') \<Rightarrow> (Ok (Inl e), w') | (Panic, w') \<Rightarrow> (Panic, w'))"

definition guardM :: "bool \<Rightarrow> 'e \<Rightarrow> ('s, 'e, unit) io" where
  "guardM b e = (if b then return () else fail e)"

fun forM :: "'a list \<Rightarrow> ('a \<Rightarrow> ('s, 'e, unit) io) \<Rightarrow> ('s, 'e, unit) io" where
  "forM [] f = return ()"
| "forM (x # xs) f = bindM (f x) (\<lambda>_. forM xs f)"

fun mapM :: "('a \<Rightarrow> ('s, 'e, 'b) io) \<Rightarrow> 'a list \<Rightarrow> ('s, 'e, 'b list) io" where
  "mapM f [] = return []"
| "mapM f (x # xs) = bindM (f x) (\<lambda>y. bindM (mapM f xs) (\<lambda>ys. return (y # ys)))"

lemma return_apply [io_simps, simp]: "return x w = (Ok x, w)"
  by (simp add: return_def)

lemma fail_apply [io_simps, simp]: "fail e w = (Err e, w)"
  by (simp add: fail_def)

lemma panic_apply [io_simps, simp]: "panic w = (Panic, w)"
  by (simp add: panic_def)

lemma bindM_apply [io_simps]:
  "bindM m f w = (case m w of
     (Ok x, w') \<Rightarrow> f x w' | (Err e, w') \<Rightarrow> (Err e, w') | (Panic, w') \<Rightarrow> (Panic, w'))"
  by (simp add: bindM_def)

lemma bindM_Ok: "m w = (Ok x, w') \<Longrightarrow> bindM m f w = f x w'"
  by (simp add: bindM_def)

lemma bindM_Err: "m w = (Err e, w') \<Longrightarrow> bindM m f w = (Err e, w')"
  by (simp add: bindM_def)

lemma bindM_Panic: "m w = (Panic, w') \<Longrightarrow> bindM m f w = (Panic, w')"
  by (simp add: bindM_def)

lemma bindM_return [simp]: "bindM (return x) f = f x"
  by (simp add: bindM_def return_def)

lemma bindM_fail [simp]: "bindM (fail e) f = fail e"
  by (simp add: bindM_def fail_def)

lemma bindM_assoc: "bindM (bindM m f) g = bindM m (\<lambda>x. bindM (f x) g)"
  by (rule ext) (simp add: bindM_def split: prod.split res.split)

lemma bindM_OkE:
  assumes "bindM m f w = (Ok y, w'')"
  obtains x w' where "m w = (Ok x, w')" "f x w' = (Ok y, w'')"
  using assms by (auto simp: bindM_def split: prod.splits res.splits)

lemma map_err_apply [io_simps]:
  "map_err g m w = (case m w of
     (Ok x, w') \<Rightarrow> (Ok x, w') | (Err e, w') \<Rightarrow> (Err (g e), w') | (Panic, w') \<Rightarrow> (Panic, w'))"
  by (simp add: map_err_def)

lemma map_err_Ok_iff [simp]: "map_err g m w = (Ok x, w') \<longleftrightarrow> m w = (Ok x, w')"
  by (auto simp: map_err_def split: prod.splits res.splits)

lemma snd_map_err [simp]: "snd (map_err g m w) = snd (m w)"
  by (simp add: map_err_def split: prod.split res.split)

lemma map_err_return [simp]: "map_err g (return x) = return x"
  by (rule ext) (simp add: map_err_def)

lemma ok_or_simps [simp]: "ok_or e None = fail e" "ok_or e (Some x) = return x"
  by (simp_all add: ok_or_def)

lemma lift_sum_simps [simp]: "lift_sum (Inl e) = fail e" "lift_sum (Inr x) = return x"
  by (simp_all add: lift_sum_def)

lemma guardM_simps [simp]: "guardM True e = return ()" "guardM False e = fail e"
  by (simp_all add: guardM_def)

lemma try_io_apply [io_simps]:
  "try_io m w = (case m w of
     (Ok x, w') \<Rightarrow> (Ok (Inr x), w') | (Err e, w') \<Rightarrow> (Ok (Inl e), w') | (Panic, w') \<Rightarrow> (Panic, w'))"
  by (simp add: try_io_def)

subsection \<open>Predicates an operation keeps\<close>

text \<open>\<open>keeps I m\<close>: whatever \<open>m\<close> returns, error and panic included, \<open>I\<close> still holds.\<close>

definition keeps :: "('s \<Rightarrow> bool) \<Rightarrow> ('s, 'e, 'a) io \<Rightarrow> bool" where
  "keeps I m \<longleftrightarrow> (\<forall>w. I w \<longrightarrow> I (snd (m w)))"

lemma keepsI: "(\<And>w. I w \<Longrightarrow> I (snd (m w))) \<Longrightarrow> keeps I m"
  by (simp add: keeps_def)

lemma keepsD: "keeps I m \<Longrightarrow> I w \<Longrightarrow> I (snd (m w))"
  by (simp add: keeps_def)

lemma keepsD': "keeps I m \<Longrightarrow> I w \<Longrightarrow> m w = (r, w') \<Longrightarrow> I w'"
  by (drule keepsD) auto

lemma keeps_return [keeps_intros]: "keeps I (return x)"
  by (rule keepsI) simp

lemma keeps_fail [keeps_intros]: "keeps I (fail e)"
  by (rule keepsI) simp

lemma keeps_panic [keeps_intros]: "keeps I panic"
  by (rule keepsI) simp

lemma keeps_bindM [keeps_intros]:
  assumes "keeps I m" "\<And>x. keeps I (f x)"
  shows "keeps I (bindM m f)"
proof (rule keepsI)
  fix w assume "I w"
  obtain r w' where m: "m w = (r, w')" by (cases "m w")
  with assms(1) \<open>I w\<close> have "I w'" by (auto dest: keepsD)
  with m show "I (snd (bindM m f w))"
    by (cases r) (auto simp: bindM_def intro: keepsD [OF assms(2)])
qed

lemma keeps_map_err [keeps_intros]: "keeps I m \<Longrightarrow> keeps I (map_err g m)"
  by (simp add: keeps_def)

lemma snd_try_io [simp]: "snd (try_io m w) = snd (m w)"
  by (simp add: try_io_def split: prod.split res.split)

lemma keeps_try_io [keeps_intros]: "keeps I m \<Longrightarrow> keeps I (try_io m)"
  by (simp add: keeps_def)

lemma keeps_ok_or [keeps_intros]: "keeps I (ok_or e x)"
  by (cases x) (auto intro: keeps_intros)

lemma keeps_lift_sum [keeps_intros]: "keeps I (lift_sum x)"
  by (cases x) (auto intro: keeps_intros)

lemma keeps_guardM [keeps_intros]: "keeps I (guardM b e)"
  by (cases b) (auto intro: keeps_intros)

lemma keeps_if [keeps_intros]: "(b \<Longrightarrow> keeps I m) \<Longrightarrow> (\<not> b \<Longrightarrow> keeps I n) \<Longrightarrow> keeps I (if b then m else n)"
  by simp

lemma keeps_case_option [keeps_intros]:
  "(x = None \<Longrightarrow> keeps I m) \<Longrightarrow> (\<And>y. x = Some y \<Longrightarrow> keeps I (f y)) \<Longrightarrow>
   keeps I (case x of None \<Rightarrow> m | Some y \<Rightarrow> f y)"
  by (cases x) auto

lemma keeps_case_sum [keeps_intros]:
  "(\<And>e. x = Inl e \<Longrightarrow> keeps I (f e)) \<Longrightarrow> (\<And>y. x = Inr y \<Longrightarrow> keeps I (g y)) \<Longrightarrow>
   keeps I (case x of Inl e \<Rightarrow> f e | Inr y \<Rightarrow> g y)"
  by (cases x) auto

lemma keeps_case_prod [keeps_intros]:
  "(\<And>a b. x = (a, b) \<Longrightarrow> keeps I (f a b)) \<Longrightarrow> keeps I (case x of (a, b) \<Rightarrow> f a b)"
  by (cases x) auto

lemma keeps_let [keeps_intros]: "keeps I (f x) \<Longrightarrow> keeps I (let y = x in f y)"
  by simp

lemma keeps_forM [keeps_intros]:
  "(\<And>x. x \<in> set xs \<Longrightarrow> keeps I (f x)) \<Longrightarrow> keeps I (forM xs f)"
  by (induction xs) (auto intro!: keeps_intros)

lemma keeps_mapM [keeps_intros]:
  "(\<And>x. x \<in> set xs \<Longrightarrow> keeps I (f x)) \<Longrightarrow> keeps I (mapM f xs)"
  by (induction xs) (auto intro!: keeps_intros)

subsection \<open>Triples\<close>

text \<open>\<open>hoare P m Q X\<close>: from a state with \<open>P\<close>, a normal return of \<open>x\<close> leaves \<open>Q x\<close>, an error or
  a panic leaves \<open>X\<close>.\<close>

fun post :: "('a \<Rightarrow> 's \<Rightarrow> bool) \<Rightarrow> ('s \<Rightarrow> bool) \<Rightarrow> ('e, 'a) res \<Rightarrow> 's \<Rightarrow> bool" where
  "post Q X (Ok x) w = Q x w"
| "post Q X (Err e) w = X w"
| "post Q X Panic w = X w"

definition hoare ::
    "('s \<Rightarrow> bool) \<Rightarrow> ('s, 'e, 'a) io \<Rightarrow> ('a \<Rightarrow> 's \<Rightarrow> bool) \<Rightarrow> ('s \<Rightarrow> bool) \<Rightarrow> bool" where
  "hoare P m Q X \<longleftrightarrow> (\<forall>w. P w \<longrightarrow> post Q X (fst (m w)) (snd (m w)))"

lemma hoareI: "(\<And>w. P w \<Longrightarrow> post Q X (fst (m w)) (snd (m w))) \<Longrightarrow> hoare P m Q X"
  by (simp add: hoare_def)

lemma hoare_bindM:
  assumes "hoare P m R X" "\<And>x. hoare (R x) (f x) Q X"
  shows "hoare P (bindM m f) Q X"
proof (rule hoareI)
  fix w assume "P w"
  with assms(1) have m: "post R X (fst (m w)) (snd (m w))" by (simp add: hoare_def)
  obtain r w' where mw: "m w = (r, w')" by (cases "m w")
  show "post Q X (fst (bindM m f w)) (snd (bindM m f w))"
    using m mw assms(2) by (cases r) (simp_all add: bindM_def hoare_def)
qed

lemma hoare_return: "(\<And>w. P w \<Longrightarrow> Q x w) \<Longrightarrow> hoare P (return x) Q X"
  by (simp add: hoare_def)

lemma hoare_fail: "(\<And>w. P w \<Longrightarrow> X w) \<Longrightarrow> hoare P (fail e) Q X"
  by (simp add: hoare_def)

lemma hoare_panic: "(\<And>w. P w \<Longrightarrow> X w) \<Longrightarrow> hoare P panic Q X"
  by (simp add: hoare_def)

lemma hoare_map_err:
  assumes "hoare P m Q X"
  shows "hoare P (map_err g m) Q X"
proof (rule hoareI)
  fix w assume "P w"
  then show "post Q X (fst (map_err g m w)) (snd (map_err g m w))"
    using assms by (cases "m w"; cases "fst (m w)") (auto simp: hoare_def map_err_def dest!: spec [of _ w])
qed

lemma hoare_ok_or:
  "(\<And>y w. x = Some y \<Longrightarrow> P w \<Longrightarrow> Q y w) \<Longrightarrow> (\<And>w. x = None \<Longrightarrow> P w \<Longrightarrow> X w) \<Longrightarrow>
   hoare P (ok_or e x) Q X"
  by (cases x) (auto intro: hoare_return hoare_fail)

lemma post_mono:
  "post Q X r w \<Longrightarrow> (\<And>x. Q x w \<Longrightarrow> Q' x w) \<Longrightarrow> (X w \<Longrightarrow> X' w) \<Longrightarrow> post Q' X' r w"
  by (cases r) auto

lemma hoare_keeps: "keeps I m \<Longrightarrow> hoare I m (\<lambda>_. I) I"
proof (rule hoareI)
  fix w assume "keeps I m" "I w"
  then have "I (snd (m w))" by (rule keepsD)
  then show "post (\<lambda>_. I) I (fst (m w)) (snd (m w))" by (cases "fst (m w)") auto
qed

lemma hoare_conseq:
  assumes "hoare P m Q X" "\<And>w. P' w \<Longrightarrow> P w" "\<And>x w. Q x w \<Longrightarrow> Q' x w" "\<And>w. X w \<Longrightarrow> X' w"
  shows "hoare P' m Q' X'"
proof (rule hoareI)
  fix w assume "P' w"
  then have "post Q X (fst (m w)) (snd (m w))" using assms(1,2) by (simp add: hoare_def)
  then show "post Q' X' (fst (m w)) (snd (m w))" by (rule post_mono) (simp_all add: assms)
qed

lemma hoareD:
  assumes "hoare P m Q X" "P w" "\<And>x w. Q x w \<Longrightarrow> R w" "\<And>w. X w \<Longrightarrow> R w"
  shows "R (snd (m w))"
proof -
  have "post Q X (fst (m w)) (snd (m w))" using assms by (simp add: hoare_def)
  then show ?thesis using assms by (cases "fst (m w)") auto
qed

subsection \<open>Effects that may not return\<close>

text \<open>A loop without a bound is a partial function to \<open>option\<close>: \<open>None\<close> is a run that never
  returns. \<open>then_run\<close> runs a returning action and goes on with one that may not.\<close>

type_synonym ('s, 'e, 'a) run = "'s \<Rightarrow> (('e, 'a) res \<times> 's) option"

definition then_run :: "('s, 'e, 'a) io \<Rightarrow> ('a \<Rightarrow> ('s, 'e, 'b) run) \<Rightarrow> ('s, 'e, 'b) run" where
  "then_run m f = (\<lambda>w. case m w of
     (Ok x, w') \<Rightarrow> f x w' | (Err e, w') \<Rightarrow> Some (Err e, w') | (Panic, w') \<Rightarrow> Some (Panic, w'))"

lemma then_run_apply [io_simps]:
  "then_run m f w = (case m w of
     (Ok x, w') \<Rightarrow> f x w' | (Err e, w') \<Rightarrow> Some (Err e, w') | (Panic, w') \<Rightarrow> Some (Panic, w'))"
  by (simp add: then_run_def)

lemma then_run_OkE:
  assumes "then_run m f w = Some (Ok r, w')"
  obtains x w1 where "m w = (Ok x, w1)" "f x w1 = Some (Ok r, w')"
  using assms by (auto simp: then_run_def split: prod.splits res.splits)

lemma ok_or_OkD: "ok_or e x w = (Ok y, w') \<Longrightarrow> x = Some y \<and> w' = w"
  by (cases x) auto

lemma lift_sum_OkD: "lift_sum x w = (Ok y, w') \<Longrightarrow> x = Inr y \<and> w' = w"
  by (cases x) auto

text \<open>What \<open>hoare\<close> is for actions: every run that returns ends in \<open>R\<close>.\<close>

definition ends_in :: "('s \<Rightarrow> bool) \<Rightarrow> ('s, 'e, 'a) run \<Rightarrow> ('s \<Rightarrow> bool) \<Rightarrow> bool" where
  "ends_in P f R \<longleftrightarrow> (\<forall>w r w'. P w \<longrightarrow> f w = Some (r, w') \<longrightarrow> R w')"

lemma ends_in_then_run:
  assumes "hoare P m Q X" "\<And>x. ends_in (Q x) (f x) R" "\<And>w. X w \<Longrightarrow> R w"
  shows "ends_in P (then_run m f) R"
  unfolding ends_in_def
proof (intro allI impI)
  fix w r w' assume "P w" and run: "then_run m f w = Some (r, w')"
  then have m: "post Q X (fst (m w)) (snd (m w))" using assms(1) by (simp add: hoare_def)
  obtain q w1 where mw: "m w = (q, w1)" by (cases "m w")
  show "R w'"
    using m mw run assms(2,3) by (cases q) (auto simp: then_run_def ends_in_def)
qed

lemma ends_inD: "ends_in P f R \<Longrightarrow> P w \<Longrightarrow> f w = Some (r, w') \<Longrightarrow> R w'"
  by (auto simp: ends_in_def)

lemma ends_in_weaken: "ends_in P f R \<Longrightarrow> (\<And>w. P' w \<Longrightarrow> P w) \<Longrightarrow> ends_in P' f R"
  by (auto simp: ends_in_def)

section \<open>Tables as lists of rows\<close>

text \<open>A table is the list of its rows. \<open>find_row\<close> is \<^verbatim>\<open>SELECT .. fetch_optional\<close> (the first
  row that matches), \<open>update_rows\<close> is \<^verbatim>\<open>UPDATE .. SET .. WHERE ..\<close>.\<close>

definition find_row :: "('r \<Rightarrow> bool) \<Rightarrow> 'r list \<Rightarrow> 'r option" where
  "find_row P t = List.find P t"

definition update_rows :: "('r \<Rightarrow> bool) \<Rightarrow> ('r \<Rightarrow> 'r) \<Rightarrow> 'r list \<Rightarrow> 'r list" where
  "update_rows P f t = map (\<lambda>r. if P r then f r else r) t"

lemma find_row_simps [simp]:
  "find_row P [] = None"
  "find_row P (r # t) = (if P r then Some r else find_row P t)"
  by (simp_all add: find_row_def)

lemma find_row_SomeD: "find_row P t = Some r \<Longrightarrow> r \<in> set t \<and> P r"
  by (induction t) (auto split: if_splits)

lemma find_row_None_iff: "find_row P t = None \<longleftrightarrow> (\<forall>r \<in> set t. \<not> P r)"
  by (induction t) auto

lemma find_row_append:
  "find_row P (t @ u) = (case find_row P t of None \<Rightarrow> find_row P u | Some r \<Rightarrow> Some r)"
  by (induction t) auto

lemma update_rows_simps [simp]:
  "update_rows P f [] = []"
  "update_rows P f (r # t) = (if P r then f r else r) # update_rows P f t"
  by (simp_all add: update_rows_def)

lemma set_update_rows: "set (update_rows P f t) = (\<lambda>r. if P r then f r else r) ` set t"
  by (simp add: update_rows_def)

lemma length_update_rows [simp]: "length (update_rows P f t) = length t"
  by (simp add: update_rows_def)

lemma map_update_rows:
  "(\<And>r. g (f r) = g r) \<Longrightarrow> map g (update_rows P f t) = map g t"
  by (induction t) auto

lemma update_rows_nop: "(\<And>r. r \<in> set t \<Longrightarrow> \<not> P r) \<Longrightarrow> update_rows P f t = t"
  by (induction t) auto

lemma find_row_update_same:
  "(\<And>r. P r \<Longrightarrow> P (f r)) \<Longrightarrow> find_row P (update_rows P f t) = map_option f (find_row P t)"
  by (induction t) auto

lemma filter_update_rows:
  "(\<And>r. P r \<Longrightarrow> P (f r)) \<Longrightarrow> filter (\<lambda>r. \<not> P r) (update_rows P f t) = filter (\<lambda>r. \<not> P r) t"
  by (induction t) auto

lemma find_row_fresh: "j \<notin> key ` set t \<Longrightarrow> find_row (\<lambda>r. key r = j) t = None"
  by (auto simp: find_row_None_iff)

end
