(* ===== verification/Rust_Strings.thy ===== *)
theory Rust_Strings
  imports Prelude
begin

text \<open>
  The string functions of the standard library the sources use. A string is the list of the
  bytes of its UTF-8 encoding, so \<open>length\<close> is \<^verbatim>\<open>str::len\<close>. Functions that look at characters
  (\<^verbatim>\<open>trim\<close>) match the encodings of those characters.
\<close>

section \<open>Numbers as text\<close>

text \<open>\<^verbatim>\<open>Display\<close> for integers: decimal digits, a minus sign in front when negative.\<close>

fun nat_to_string :: "nat \<Rightarrow> string" where
  "nat_to_string n =
     (if n < 10 then [char_of (48 + n)] else nat_to_string (n div 10) @ [char_of (48 + n mod 10)])"

declare nat_to_string.simps [simp del]

definition int_to_string :: "int \<Rightarrow> string" where
  "int_to_string i = (if i < 0 then ''-'' @ nat_to_string (nat (- i)) else nat_to_string (nat i))"

definition is_digit :: "char \<Rightarrow> bool" where
  "is_digit c \<longleftrightarrow> 48 \<le> (of_char c :: nat) \<and> (of_char c :: nat) \<le> 57"

definition digits_val :: "string \<Rightarrow> nat" where
  "digits_val s = foldl (\<lambda>n c. 10 * n + (of_char c - 48)) 0 s"

text \<open>\<^verbatim>\<open>str::parse\<close> for an unsigned type below the bound, and for \<^verbatim>\<open>i32\<close>: an optional sign, at
  least one digit, nothing else, in range.\<close>

definition parse_digits :: "string \<Rightarrow> nat option" where
  "parse_digits s = (if s \<noteq> [] \<and> list_all is_digit s then Some (digits_val s) else None)"

fun parse_unsigned :: "nat \<Rightarrow> string \<Rightarrow> nat option" where
  "parse_unsigned bound s =
     (case parse_digits (if take 1 s = ''+'' then drop 1 s else s) of
        None \<Rightarrow> None
      | Some n \<Rightarrow> if n < bound then Some n else None)"

definition parse_i32 :: "string \<Rightarrow> i32 option" where
  "parse_i32 s =
     (let v = (if take 1 s = ''-'' then map_option (\<lambda>n. - int n) (parse_digits (drop 1 s))
               else map_option int (parse_digits (if take 1 s = ''+'' then drop 1 s else s)))
      in case v of
           None \<Rightarrow> None
         | Some i \<Rightarrow> if - (2 ^ 31) \<le> i \<and> i < 2 ^ 31 then Some (of_int i) else None)"

section \<open>Prefixes and pieces\<close>

definition starts_with :: "string \<Rightarrow> string \<Rightarrow> bool" where
  "starts_with p s \<longleftrightarrow> take (length p) s = p"

definition strip_prefix :: "string \<Rightarrow> string \<Rightarrow> string option" where
  "strip_prefix p s = (if starts_with p s then Some (drop (length p) s) else None)"

text \<open>\<^verbatim>\<open>str::split\<close> on one character: always at least one piece.\<close>

fun split_on :: "char \<Rightarrow> string \<Rightarrow> string list" where
  "split_on c [] = [[]]"
| "split_on c (x # xs) =
     (if x = c then [] # split_on c xs
      else (x # hd (split_on c xs)) # tl (split_on c xs))"

text \<open>\<^verbatim>\<open>str::lines\<close>: a line ends with a line feed, with the carriage return before it if there is
  one; what follows the last line feed is a line unless it is empty.\<close>

definition strip_cr :: "string \<Rightarrow> string" where
  "strip_cr s = (if s \<noteq> [] \<and> last s = CHR 0x0D then butlast s else s)"

definition str_lines :: "string \<Rightarrow> string list" where
  "str_lines s =
     (let ps = split_on CHR 0x0A s
      in map strip_cr (butlast ps) @ (if last ps = [] then [] else [last ps]))"

fun join :: "string \<Rightarrow> string list \<Rightarrow> string" where
  "join sep [] = []"
| "join sep [s] = s"
| "join sep (s # t # ss) = s @ sep @ join sep (t # ss)"

definition trim_end_slashes :: "string \<Rightarrow> string" where
  "trim_end_slashes s = rev (dropWhile (\<lambda>c. c = CHR ''/'') (rev s))"

definition ascii_lower :: "char \<Rightarrow> char" where
  "ascii_lower c = (let n = of_char c :: nat in if 65 \<le> n \<and> n \<le> 90 then char_of (n + 32) else c)"

definition eq_ignore_ascii_case :: "string \<Rightarrow> string \<Rightarrow> bool" where
  "eq_ignore_ascii_case s t \<longleftrightarrow> map ascii_lower s = map ascii_lower t"

section \<open>Trimming\<close>

text \<open>The encodings of the characters with the Unicode property \<^verbatim>\<open>White_Space\<close>.\<close>

definition white_space :: "string list" where
  "white_space =
     [[CHR 0x09], [CHR 0x0A], [CHR 0x0B], [CHR 0x0C], [CHR 0x0D], [CHR 0x20],
      [CHR 0xC2, CHR 0x85], [CHR 0xC2, CHR 0xA0], [CHR 0xE1, CHR 0x9A, CHR 0x80]] @
     map (\<lambda>n. [CHR 0xE2, CHR 0x80, char_of n]) ([0x80..<0x8B] @ [0xA8, 0xA9, 0xAF :: nat]) @
     [[CHR 0xE2, CHR 0x81, CHR 0x9F], [CHR 0xE3, CHR 0x80, CHR 0x80]]"

fun strip_all :: "string list \<Rightarrow> string \<Rightarrow> string" where
  "strip_all ws s =
     (case List.find (\<lambda>w. w \<noteq> [] \<and> starts_with w s) ws of
        None \<Rightarrow> s
      | Some w \<Rightarrow> (if s = [] \<or> w = [] then s else strip_all ws (drop (length w) s)))"

declare strip_all.simps [simp del]

definition trim_start :: "string \<Rightarrow> string" where
  "trim_start s = strip_all white_space s"

definition trim_end :: "string \<Rightarrow> string" where
  "trim_end s = rev (strip_all (map rev white_space) (rev s))"

definition trim :: "string \<Rightarrow> string" where
  "trim s = trim_end (trim_start s)"

section \<open>Lemmas\<close>

lemma starts_with_iff: "starts_with p s \<longleftrightarrow> (\<exists>t. s = p @ t)"
  by (metis append_eq_conv_conj append_take_drop_id starts_with_def)

lemma strip_prefix_Some [simp]: "strip_prefix p s = Some t \<longleftrightarrow> s = p @ t"
  by (auto simp: strip_prefix_def starts_with_iff)

lemma split_on_not_Nil [simp]: "split_on c s \<noteq> []"
  by (cases "(c, s)" rule: split_on.cases) auto

lemma split_on_simple: "c \<notin> set s \<Longrightarrow> split_on c s = [s]"
  by (induction s) auto

lemma split_on_append: "c \<notin> set s \<Longrightarrow> split_on c (s @ c # t) = s # split_on c t"
  by (induction s) auto

lemma split_on_pieces: "p \<in> set (split_on c s) \<Longrightarrow> c \<notin> set p"
proof (induction s arbitrary: p)
  case (Cons x xs)
  then show ?case
    by (cases "split_on c xs") (auto split: if_splits)
qed simp

text \<open>\<^verbatim>\<open>join\<close> undoes \<^verbatim>\<open>split\<close>.\<close>

lemma join_split_on: "join [c] (split_on c s) = s"
proof (induction s)
  case (Cons x xs)
  obtain p ps where ps: "split_on c xs = p # ps" by (cases "split_on c xs") auto
  show ?case using Cons.IH ps by (cases ps) auto
qed simp

subsection \<open>Printing and parsing\<close>

lemma is_digit_digit: "n < 10 \<Longrightarrow> is_digit (char_of (48 + n :: nat))"
  by (simp add: is_digit_def)

lemma digits_val_append: "digits_val (s @ [c]) = 10 * digits_val s + (of_char c - 48)"
  by (simp add: digits_val_def)

lemma nat_to_string_digits:
  "nat_to_string n \<noteq> [] \<and> list_all is_digit (nat_to_string n) \<and> digits_val (nat_to_string n) = n"
proof (induction n rule: nat_to_string.induct)
  case (1 n)
  show ?case
  proof (cases "n < 10")
    case True
    then have "nat_to_string n = [char_of (48 + n)]" by (simp add: nat_to_string.simps [of n])
    then show ?thesis using True by (simp add: is_digit_digit digits_val_def)
  next
    case False
    then have "nat_to_string n = nat_to_string (n div 10) @ [char_of (48 + n mod 10)]"
      by (simp add: nat_to_string.simps [of n])
    then show ?thesis
      using "1.IH" [OF False] is_digit_digit [of "n mod 10"]
      by (simp add: digits_val_append)
  qed
qed

lemma parse_digits_nat [simp]: "parse_digits (nat_to_string n) = Some n"
  using nat_to_string_digits [of n] by (simp add: parse_digits_def)

lemma digit_not_sign: "is_digit c \<Longrightarrow> c \<noteq> CHR ''+'' \<and> c \<noteq> CHR ''-''"
  by (auto simp: is_digit_def)

lemma nat_to_string_no_sign: "take 1 (nat_to_string n) \<noteq> ''+'' \<and> take 1 (nat_to_string n) \<noteq> ''-''"
  using nat_to_string_digits [of n] digit_not_sign
  by (cases "nat_to_string n") auto

lemma parse_unsigned_nat: "n < bound \<Longrightarrow> parse_unsigned bound (nat_to_string n) = Some n"
  using nat_to_string_no_sign [of n] by simp

lemma parse_i32_sint: "parse_i32 (int_to_string (sint (x :: i32))) = Some x"
proof -
  have r: "- (2 ^ 31) \<le> sint x" "sint x < 2 ^ 31"
    using sint_range_size [of x] by (simp_all add: word_size)
  show ?thesis
  proof (cases "sint x < 0")
    case True
    then show ?thesis using r by (simp add: int_to_string_def parse_i32_def)
  next
    case False
    then show ?thesis using r nat_to_string_no_sign [of "nat (sint x)"]
      by (simp add: int_to_string_def parse_i32_def)
  qed
qed

subsection \<open>Trimming\<close>

lemma strip_all_suffix: "\<exists>p. s = p @ strip_all ws s"
proof (induction ws s rule: strip_all.induct)
  case (1 ws s)
  show ?case
  proof (cases "List.find (\<lambda>w. w \<noteq> [] \<and> starts_with w s) ws")
    case None
    then show ?thesis by (simp add: strip_all.simps [of ws s])
  next
    case (Some w)
    then have w: "w \<noteq> []" "starts_with w s" by (auto simp: find_Some_iff)
    show ?thesis
    proof (cases "s = []")
      case False
      then obtain p where "drop (length w) s = p @ strip_all ws (drop (length w) s)"
        using "1.IH" [OF Some] w by auto
      then have "s = (take (length w) s @ p) @ strip_all ws (drop (length w) s)"
        by (metis append.assoc append_take_drop_id)
      moreover have "strip_all ws s = strip_all ws (drop (length w) s)"
        using Some False w by (subst strip_all.simps) simp
      ultimately show ?thesis by metis
    qed (use w in \<open>simp add: starts_with_def\<close>)
  qed
qed

lemma strip_all_none: "List.find (\<lambda>w. w \<noteq> [] \<and> starts_with w (strip_all ws s)) ws = None"
proof (induction ws s rule: strip_all.induct)
  case (1 ws s)
  show ?case
  proof (cases "List.find (\<lambda>w. w \<noteq> [] \<and> starts_with w s) ws")
    case None
    then show ?thesis by (simp add: strip_all.simps [of ws s])
  next
    case (Some w)
    then have w: "w \<noteq> []" "starts_with w s" by (auto simp: find_Some_iff)
    then have "s \<noteq> []" by (auto simp: starts_with_def)
    then show ?thesis using "1.IH" [OF Some] Some w by (subst strip_all.simps) auto
  qed
qed

lemma strip_all_idem [simp]: "strip_all ws (strip_all ws s) = strip_all ws s"
  by (subst strip_all.simps) (simp add: strip_all_none)

lemma trim_end_prefix: "\<exists>t. s = trim_end s @ t"
  using strip_all_suffix [of "rev s" "map rev white_space"]
  by (auto simp: trim_end_def) (metis rev_append rev_rev_ident)

lemma trim_end_idem: "trim_end (trim_end s) = trim_end s"
  by (simp add: trim_end_def)

lemma find_None_prefix:
  assumes "List.find (\<lambda>w. w \<noteq> [] \<and> starts_with w (p @ t)) ws = None"
  shows "List.find (\<lambda>w. w \<noteq> [] \<and> starts_with w p) ws = None"
  using assms by (auto simp: find_None_iff starts_with_iff)

text \<open>Trimmed text stays as it is when trimmed again.\<close>

lemma trim_idem [simp]: "trim (trim s) = trim s"
proof -
  let ?u = "trim_start s"
  obtain t where t: "?u = trim_end ?u @ t" using trim_end_prefix by blast
  have "List.find (\<lambda>w. w \<noteq> [] \<and> starts_with w ?u) white_space = None"
    by (simp add: trim_start_def strip_all_none)
  then have "List.find (\<lambda>w. w \<noteq> [] \<and> starts_with w (trim_end ?u)) white_space = None"
    using find_None_prefix t by metis
  then have "trim_start (trim_end ?u) = trim_end ?u"
    by (subst trim_start_def, subst strip_all.simps) simp
  then show ?thesis by (simp add: trim_def trim_end_idem)
qed

end
