(* ===== verification/Model.thy ===== *)
theory Model
  imports Rust_Strings Complex_Main "HOL-Library.Signed_Division"
begin

text \<open>
  The \<^verbatim>\<open>servcat_model\<close> crate (\<^verbatim>\<open>src/crates/model/src\<close>): the domain types every other crate
  shares, as records and datatypes with the source's fields and variants, and the few
  functions the crate has (enum string forms, role and status labels, target times, the
  workflow graph's step lookup). Record fields carry a prefix for their type
  (\<open>u_\<close> user, \<open>wd_\<close> workflow definition, \<open>pa_\<close> pending approval, \<dots>).

  JSON values follow \<^verbatim>\<open>serde_json::Value\<close> as the workspace builds it (no
  \<^verbatim>\<open>preserve_order\<close>, no \<^verbatim>\<open>arbitrary_precision\<close>): an object is a B-tree map, here the
  association list of its entries in key order; a number is a non-negative 64-bit integer,
  a negative 64-bit integer or a finite float, and numbers of different classes are never
  equal. A finite float is represented by its rational value, which is what its equality
  compares.
\<close>

section \<open>JSON values\<close>

datatype jnumber = PosInt "64 word" | NegInt "64 word" | Float rat

datatype json =
    JNull
  | JBool bool
  | JNumber jnumber
  | JString string
  | JArray "json list"
  | JObject "(string \<times> json) list"

type_synonym json_map = "(string \<times> json) list"

text \<open>\<^verbatim>\<open>serde_json::Map\<close>: lookup, and insertion that replaces an existing key.\<close>

definition obj_get :: "json_map \<Rightarrow> string \<Rightarrow> json option" where
  "obj_get m k = map_of m k"

fun obj_insert :: "string \<Rightarrow> json \<Rightarrow> json_map \<Rightarrow> json_map" where
  "obj_insert k v [] = [(k, v)]"
| "obj_insert k v ((k', v') # m) =
     (if k < k' then (k, v) # (k', v') # m
      else if k = k' then (k, v) # m
      else (k', v') # obj_insert k v m)"

fun as_object :: "json \<Rightarrow> json_map option" where
  "as_object (JObject m) = Some m"
| "as_object _ = None"

fun as_str_json :: "json \<Rightarrow> string option" where
  "as_str_json (JString s) = Some s"
| "as_str_json _ = None"

text \<open>\<^verbatim>\<open>as_u64\<close>: only a number stored as a non-negative integer has one.\<close>

fun as_u64 :: "json \<Rightarrow> 64 word option" where
  "as_u64 (JNumber (PosInt n)) = Some n"
| "as_u64 _ = None"

text \<open>\<^verbatim>\<open>Value::get\<close> with a string index: \<open>None\<close> on anything but an object.\<close>

definition json_get :: "json \<Rightarrow> string \<Rightarrow> json option" where
  "json_get v k = (case as_object v of None \<Rightarrow> None | Some m \<Rightarrow> obj_get m k)"

lemma obj_get_insert: "obj_get (obj_insert k v m) = (obj_get m)(k \<mapsto> v)"
  by (induction k v m rule: obj_insert.induct) (auto simp: obj_get_def fun_eq_iff)

lemma obj_get_insert_apply [simp]:
  "obj_get (obj_insert k v m) k' = (if k' = k then Some v else obj_get m k')"
  by (simp add: obj_get_insert)

lemma obj_get_Nil [simp]: "obj_get [] k = None"
  by (simp add: obj_get_def)

definition obj_wf :: "json_map \<Rightarrow> bool" where
  "obj_wf m \<longleftrightarrow> sorted_wrt (<) (map fst m)"

lemma set_obj_insert_keys: "fst ` set (obj_insert k v m) = insert k (fst ` set m)"
  by (induction k v m rule: obj_insert.induct) auto

lemma obj_wf_Nil [simp]: "obj_wf []"
  by (simp add: obj_wf_def)

lemma obj_wf_insert: "obj_wf m \<Longrightarrow> obj_wf (obj_insert k v m)"
proof (induction k v m rule: obj_insert.induct)
  case (1 k v)
  then show ?case by (simp add: obj_wf_def)
next
  case (2 k v k' v' m)
  show ?case
  proof (cases "k < k' \<or> k = k'")
    case True
    with "2.prems" show ?thesis by (auto simp: obj_wf_def intro: less_trans)
  next
    case False
    then have less: "k' < k" and ne: "\<not> k < k'" "k \<noteq> k'" by auto
    from "2.prems" have m: "obj_wf m" and hd: "\<forall>x \<in> fst ` set m. k' < x"
      by (auto simp: obj_wf_def)
    from "2.IH" [OF ne m] have "obj_wf (obj_insert k v m)" .
    moreover from hd less have "\<forall>x \<in> fst ` set (obj_insert k v m). k' < x"
      by (simp add: set_obj_insert_keys)
    ultimately show ?thesis using ne by (auto simp: obj_wf_def)
  qed
qed

section \<open>Enums stored as strings\<close>

text \<open>The \<^verbatim>\<open>sql_string_enum!\<close> macro: \<^verbatim>\<open>as_str\<close> is a match over the variants, \<^verbatim>\<open>from_str\<close> a match
  over the literals whose last arm is the error \<^verbatim>\<open>invalid <Type> value: '<s>'\<close>.\<close>

definition sql_from_str :: "string \<Rightarrow> (string \<times> 'a) list \<Rightarrow> string \<Rightarrow> string + 'a" where
  "sql_from_str type_name arms s =
     (case map_of arms s of
        Some v \<Rightarrow> Inr v
      | None \<Rightarrow> Inl (''invalid '' @ type_name @ '' value: '' @ [CHR 0x27] @ s @ [CHR 0x27]))"

text \<open>The contract the macro's expansion gives each enum, and what its users (query binding,
  row decoding, form parsing) rely on.\<close>

locale sql_string_enum =
  fixes as_str :: "'a \<Rightarrow> string"
    and from_str :: "string \<Rightarrow> string + 'a"
    and type_name :: string
  assumes from_as: "from_str (as_str x) = Inr x"
    and as_from: "from_str s = Inr x \<Longrightarrow> as_str x = s"
    and from_err: "from_str s = Inl e \<Longrightarrow>
      e = ''invalid '' @ type_name @ '' value: '' @ [CHR 0x27] @ s @ [CHR 0x27]"
begin

lemma as_str_inj: "as_str x = as_str y \<longleftrightarrow> x = y"
  by (metis from_as sum.inject(2))

lemma from_str_iff: "from_str s = Inr x \<longleftrightarrow> s = as_str x"
  using from_as as_from by blast

lemma from_str_cases:
  "from_str s = (if \<exists>x. s = as_str x then Inr (THE x. s = as_str x)
     else Inl (''invalid '' @ type_name @ '' value: '' @ [CHR 0x27] @ s @ [CHR 0x27]))"
proof (cases "from_str s")
  case (Inl e)
  then have "\<not> (\<exists>x. s = as_str x)" using from_as by auto
  with Inl from_err show ?thesis by auto
next
  case (Inr x)
  then have "s = as_str x" by (simp add: as_from)
  then show ?thesis using Inr as_str_inj by auto
qed

end

section \<open>Users, departments and organisation settings\<close>

datatype Role = Requester | Approver | Agent | Admin

fun role_as_str :: "Role \<Rightarrow> string" where
  "role_as_str Requester = ''requester''"
| "role_as_str Approver = ''approver''"
| "role_as_str Agent = ''agent''"
| "role_as_str Admin = ''admin''"

definition role_from_str :: "string \<Rightarrow> string + Role" where
  "role_from_str = sql_from_str ''Role''
     [(''requester'', Requester), (''approver'', Approver), (''agent'', Agent), (''admin'', Admin)]"

fun role_label :: "Role \<Rightarrow> string" where
  "role_label Requester = ''Requester''"
| "role_label Approver = ''Approver''"
| "role_label Agent = ''Agent''"
| "role_label Admin = ''Admin''"

record User =
  u_id :: uuid
  u_email :: string
  u_display_name :: string
  u_password_hash :: "string option"
  u_external_idp_subject :: "string option"
  u_department_id :: "uuid option"
  u_manager_user_id :: "uuid option"
  u_role :: Role
  u_is_active :: bool
  u_created_at :: timestamp
  u_updated_at :: timestamp

record UserProfile =
  up_id :: uuid
  up_email :: string
  up_display_name :: string
  up_department_id :: "uuid option"
  up_manager_user_id :: "uuid option"
  up_role :: Role
  up_is_active :: bool

definition user_profile_from :: "User \<Rightarrow> UserProfile" where
  "user_profile_from u =
     \<lparr>up_id = u_id u, up_email = u_email u, up_display_name = u_display_name u,
      up_department_id = u_department_id u, up_manager_user_id = u_manager_user_id u,
      up_role = u_role u, up_is_active = u_is_active u\<rparr>"

record NewUser =
  nu_email :: string
  nu_display_name :: string
  nu_password :: "string option"
  nu_external_idp_subject :: "string option"
  nu_department_id :: "uuid option"
  nu_manager_user_id :: "uuid option"
  nu_role :: Role

record UpdateUser =
  uu_display_name :: "string option"
  uu_department_id :: "uuid option"
  uu_manager_user_id :: "uuid option"
  uu_role :: "Role option"
  uu_is_active :: "bool option"

record Department =
  d_id :: uuid
  d_name :: string
  d_logo_url :: "string option"
  d_parent_department_id :: "uuid option"
  d_created_at :: timestamp
  d_updated_at :: timestamp

record NewDepartment =
  nd_name :: string
  nd_parent_department_id :: "uuid option"

record UpdateDepartment =
  ud_name :: "string option"
  ud_parent_department_id :: "uuid option"

record OrgSettings =
  os_app_name :: string
  os_logo_url :: "string option"
  os_allow_local_signup :: bool
  os_timezone :: string
  os_updated_at :: timestamp

record UpdateOrgSettings =
  uos_app_name :: "string option"
  uos_allow_local_signup :: "bool option"
  uos_timezone :: "string option"

record PublicConfig =
  pc_app_name :: string
  pc_logo_url :: "string option"
  pc_allow_local_signup :: bool
  pc_sso_enabled :: bool

record AuditLogEntry =
  al_id :: uuid
  al_actor_user_id :: "uuid option"
  al_action :: string
  al_entity_type :: string
  al_entity_id :: "string option"
  al_metadata_json :: "json option"
  al_created_at :: timestamp

record NewAuditLogEntry =
  nal_actor_user_id :: "uuid option"
  nal_action :: string
  nal_entity_type :: string
  nal_entity_id :: "string option"
  nal_metadata_json :: "json option"

section \<open>Workflow definitions\<close>

datatype TargetSystem = Jira | Glpi | Freshservice | Webhook

fun target_system_as_str :: "TargetSystem \<Rightarrow> string" where
  "target_system_as_str Jira = ''jira''"
| "target_system_as_str Glpi = ''glpi''"
| "target_system_as_str Freshservice = ''freshservice''"
| "target_system_as_str Webhook = ''webhook''"

definition target_system_from_str :: "string \<Rightarrow> string + TargetSystem" where
  "target_system_from_str = sql_from_str ''TargetSystem''
     [(''jira'', Jira), (''glpi'', Glpi), (''freshservice'', Freshservice), (''webhook'', Webhook)]"

datatype EndOutcome = EndCompleted | EndRejected | EndCancelled

datatype InputType = IText | ITextArea | INumber | IBoolean | ISelect | IMultiSelect | IDate

record QuestionOption =
  qo_value :: string
  qo_label :: string

datatype ApproverResolution =
    Static uuid
  | ManagerOfRequester
  | RoleInDepartment Role

datatype Condition =
    Equals string json
  | NotEquals string json
  | Exists string
  | In string "json list"
  | And "Condition list"
  | Or "Condition list"
  | Not Condition

datatype StepKind =
    Question string InputType bool "QuestionOption list" string
      \<comment> \<open>field\_key, input\_type, required, options, next\<close>
  | Branch Condition string string
      \<comment> \<open>condition, on\_true, on\_false\<close>
  | WaitForApproval ApproverResolution string string "i64 option"
      \<comment> \<open>approver\_resolution, on\_approve, on\_reject, timeout\_seconds\<close>
  | SubmitTicket string
      \<comment> \<open>next\<close>
  | End EndOutcome

record Step =
  s_id :: string
  s_label :: string
  s_kind :: StepKind

record WorkflowGraph =
  g_entry_step_id :: string
  g_steps :: "Step list"

text \<open>\<^verbatim>\<open>WorkflowGraph::step\<close>: the first step with that id.\<close>

definition graph_step :: "WorkflowGraph \<Rightarrow> string \<Rightarrow> Step option" where
  "graph_step g sid = List.find (\<lambda>s. s_id s = sid) (g_steps g)"

text \<open>\<^verbatim>\<open>FieldMapping\<close> wraps a \<^verbatim>\<open>HashMap<String, String>\<close>; the list is its entries in the order
  one iteration of the map visits them (any order, keys distinct).\<close>

type_synonym FieldMapping = "(string \<times> string) list"

record WorkflowDefinition =
  wd_id :: uuid
  wd_name :: string
  wd_version :: i32
  wd_graph :: WorkflowGraph
  wd_field_mapping :: "FieldMapping option"
  wd_target_system :: "TargetSystem option"
  wd_is_published :: bool
  wd_created_by :: "uuid option"
  wd_created_at :: timestamp
  wd_updated_at :: timestamp

record NewWorkflowDefinition =
  nwd_name :: string
  nwd_graph :: WorkflowGraph
  nwd_field_mapping :: "FieldMapping option"
  nwd_target_system :: "TargetSystem option"

section \<open>Instances, approvals and tickets\<close>

datatype InstanceStatus =
  InProgress | AwaitingApprovalStatus | Completed | Rejected | Cancelled | Failed

fun instance_status_as_str :: "InstanceStatus \<Rightarrow> string" where
  "instance_status_as_str InProgress = ''in_progress''"
| "instance_status_as_str AwaitingApprovalStatus = ''awaiting_approval''"
| "instance_status_as_str Completed = ''completed''"
| "instance_status_as_str Rejected = ''rejected''"
| "instance_status_as_str Cancelled = ''cancelled''"
| "instance_status_as_str Failed = ''failed''"

definition instance_status_from_str :: "string \<Rightarrow> string + InstanceStatus" where
  "instance_status_from_str = sql_from_str ''InstanceStatus''
     [(''in_progress'', InProgress), (''awaiting_approval'', AwaitingApprovalStatus),
      (''completed'', Completed), (''rejected'', Rejected), (''cancelled'', Cancelled),
      (''failed'', Failed)]"

fun instance_status_label :: "InstanceStatus \<Rightarrow> string" where
  "instance_status_label InProgress = ''In progress''"
| "instance_status_label AwaitingApprovalStatus = ''Awaiting approval''"
| "instance_status_label Completed = ''Completed''"
| "instance_status_label Rejected = ''Rejected''"
| "instance_status_label Cancelled = ''Cancelled''"
| "instance_status_label Failed = ''Failed''"

record WorkflowInstance =
  wi_id :: uuid
  wi_workflow_definition_id :: uuid
  wi_catalog_item_id :: uuid
  wi_requester_user_id :: uuid
  wi_status :: InstanceStatus
  wi_current_step_id :: string
  wi_answers_json :: json
  wi_created_at :: timestamp
  wi_updated_at :: timestamp
  wi_completed_at :: "timestamp option"

datatype ApprovalStatus = Pending | Approved | RejectedApproval | Expired

fun approval_status_as_str :: "ApprovalStatus \<Rightarrow> string" where
  "approval_status_as_str Pending = ''pending''"
| "approval_status_as_str Approved = ''approved''"
| "approval_status_as_str RejectedApproval = ''rejected''"
| "approval_status_as_str Expired = ''expired''"

definition approval_status_from_str :: "string \<Rightarrow> string + ApprovalStatus" where
  "approval_status_from_str = sql_from_str ''ApprovalStatus''
     [(''pending'', Pending), (''approved'', Approved), (''rejected'', RejectedApproval),
      (''expired'', Expired)]"

record PendingApproval =
  pa_id :: uuid
  pa_workflow_instance_id :: uuid
  pa_step_id :: string
  pa_approver_user_id :: uuid
  pa_status :: ApprovalStatus
  pa_comment :: "string option"
  pa_decided_at :: "timestamp option"
  pa_expires_at :: "timestamp option"
  pa_created_at :: timestamp

datatype ApprovalDecision = Approve | Reject

datatype DispatchStatus = DPending | Sent | DFailed | Acked

fun dispatch_status_as_str :: "DispatchStatus \<Rightarrow> string" where
  "dispatch_status_as_str DPending = ''pending''"
| "dispatch_status_as_str Sent = ''sent''"
| "dispatch_status_as_str DFailed = ''failed''"
| "dispatch_status_as_str Acked = ''acked''"

definition dispatch_status_from_str :: "string \<Rightarrow> string + DispatchStatus" where
  "dispatch_status_from_str = sql_from_str ''DispatchStatus''
     [(''pending'', DPending), (''sent'', Sent), (''failed'', DFailed), (''acked'', Acked)]"

record Ticket =
  t_id :: uuid
  t_workflow_instance_id :: uuid
  t_target_system :: TargetSystem
  t_rendered_payload_json :: json
  t_external_ticket_id :: "string option"
  t_external_ticket_url :: "string option"
  t_dispatch_status :: DispatchStatus
  t_last_error :: "string option"
  t_created_at :: timestamp
  t_updated_at :: timestamp

section \<open>The service catalog\<close>

datatype TargetUnit = Minutes | Hours | BusinessDays | CalendarDays

fun target_unit_as_str :: "TargetUnit \<Rightarrow> string" where
  "target_unit_as_str Minutes = ''minutes''"
| "target_unit_as_str Hours = ''hours''"
| "target_unit_as_str BusinessDays = ''business_days''"
| "target_unit_as_str CalendarDays = ''calendar_days''"

definition target_unit_from_str :: "string \<Rightarrow> string + TargetUnit" where
  "target_unit_from_str = sql_from_str ''TargetUnit''
     [(''minutes'', Minutes), (''hours'', Hours), (''business_days'', BusinessDays),
      (''calendar_days'', CalendarDays)]"

fun noun :: "TargetUnit \<Rightarrow> i32 \<Rightarrow> string" where
  "noun Minutes v = (if v = 1 then ''minute'' else ''minutes'')"
| "noun Hours v = (if v = 1 then ''hour'' else ''hours'')"
| "noun BusinessDays v = (if v = 1 then ''business day'' else ''business days'')"
| "noun CalendarDays v = (if v = 1 then ''day'' else ''days'')"

text \<open>\<^verbatim>\<open>i32\<close> division and remainder truncate towards zero.\<close>

definition format_target :: "i32 \<Rightarrow> TargetUnit \<Rightarrow> string" where
  "format_target value unit =
     (if unit = Hours \<and> value \<noteq> 0 \<and> sint value smod 24 = 0 then
        let days = word_of_int (sint value sdiv 24) :: i32
        in int_to_string (sint days) @ '' '' @ noun CalendarDays days
      else int_to_string (sint value) @ '' '' @ noun unit value)"

record CatalogItemDetails =
  cd_included :: "string list"
  cd_not_included :: "string list"
  cd_needed :: "string list"
  cd_keywords :: "string list"

definition default_details :: CatalogItemDetails where
  "default_details = \<lparr>cd_included = [], cd_not_included = [], cd_needed = [], cd_keywords = []\<rparr>"

record ServiceCatalogItem =
  ci_id :: uuid
  ci_slug :: "string option"
  ci_name :: string
  ci_description :: "string option"
  ci_summary :: "string option"
  ci_details_json :: "CatalogItemDetails option"
  ci_approval_label :: "string option"
  ci_target_value :: "i32 option"
  ci_target_unit :: "TargetUnit option"
  ci_category :: "string option"
  ci_icon :: "string option"
  ci_sort_order :: i32
  ci_workflow_definition_id :: uuid
  ci_is_active :: bool
  ci_created_by :: "uuid option"
  ci_created_at :: timestamp
  ci_updated_at :: timestamp

definition target_display :: "ServiceCatalogItem \<Rightarrow> string option" where
  "target_display item =
     (case (ci_target_value item, ci_target_unit item) of
        (Some value, Some unit) \<Rightarrow> Some (format_target value unit)
      | _ \<Rightarrow> None)"

definition item_details :: "ServiceCatalogItem \<Rightarrow> CatalogItemDetails" where
  "item_details item = (case ci_details_json item of None \<Rightarrow> default_details | Some d \<Rightarrow> d)"

record NewServiceCatalogItem =
  nci_slug :: "string option"
  nci_name :: string
  nci_description :: "string option"
  nci_summary :: "string option"
  nci_details :: "CatalogItemDetails option"
  nci_approval_label :: "string option"
  nci_target_value :: "i32 option"
  nci_target_unit :: "TargetUnit option"
  nci_category :: "string option"
  nci_icon :: "string option"
  nci_sort_order :: i32
  nci_workflow_definition_id :: uuid

record UpdateServiceCatalogItem =
  uci_name :: "string option"
  uci_description :: "string option"
  uci_summary :: "string option"
  uci_details :: "CatalogItemDetails option"
  uci_approval_label :: "string option"
  uci_target_value :: "i32 option"
  uci_target_unit :: "TargetUnit option"
  uci_category :: "string option"
  uci_icon :: "string option"
  uci_sort_order :: "i32 option"
  uci_is_active :: "bool option"

section \<open>The enums implement the contract\<close>

text \<open>The macro's expansion satisfies the contract as soon as the arms list every variant's
  literal and nothing else.\<close>

lemma sql_string_enumI:
  assumes complete: "\<And>x. map_of arms (as_str x) = Some x"
    and sound: "\<forall>(l, v) \<in> set arms. as_str v = l"
  shows "sql_string_enum as_str (sql_from_str n arms) n"
proof
  show "sql_from_str n arms (as_str x) = Inr x" for x
    by (simp add: sql_from_str_def complete)
  show "sql_from_str n arms s = Inr x \<Longrightarrow> as_str x = s" for s x
    using sound by (auto simp: sql_from_str_def split: option.splits dest!: map_of_SomeD)
  show "sql_from_str n arms s = Inl e \<Longrightarrow>
      e = ''invalid '' @ n @ '' value: '' @ [CHR 0x27] @ s @ [CHR 0x27]" for s e
    by (auto simp: sql_from_str_def split: option.splits)
qed

interpretation role_enum:
  sql_string_enum role_as_str role_from_str "''Role''"
  unfolding role_from_str_def
proof (rule sql_string_enumI, goal_cases)
  case (1 x) then show ?case by (cases x) simp_all
qed simp

interpretation target_system_enum:
  sql_string_enum target_system_as_str target_system_from_str "''TargetSystem''"
  unfolding target_system_from_str_def
proof (rule sql_string_enumI, goal_cases)
  case (1 x) then show ?case by (cases x) simp_all
qed simp

interpretation instance_status_enum:
  sql_string_enum instance_status_as_str instance_status_from_str "''InstanceStatus''"
  unfolding instance_status_from_str_def
proof (rule sql_string_enumI, goal_cases)
  case (1 x) then show ?case by (cases x) simp_all
qed simp

interpretation approval_status_enum:
  sql_string_enum approval_status_as_str approval_status_from_str "''ApprovalStatus''"
  unfolding approval_status_from_str_def
proof (rule sql_string_enumI, goal_cases)
  case (1 x) then show ?case by (cases x) simp_all
qed simp

interpretation dispatch_status_enum:
  sql_string_enum dispatch_status_as_str dispatch_status_from_str "''DispatchStatus''"
  unfolding dispatch_status_from_str_def
proof (rule sql_string_enumI, goal_cases)
  case (1 x) then show ?case by (cases x) simp_all
qed simp

interpretation target_unit_enum:
  sql_string_enum target_unit_as_str target_unit_from_str "''TargetUnit''"
  unfolding target_unit_from_str_def
proof (rule sql_string_enumI, goal_cases)
  case (1 x) then show ?case by (cases x) simp_all
qed simp

end
