(* ===== verification/Database.thy ===== *)
theory Database
  imports Model "HOL-Library.Product_Lexorder" "HOL-Library.Option_ord"
begin

text \<open>
  The world the server acts on, and the SQL statements the repositories send to it.

  \<open>db\<close> holds one list of rows per table of \<^verbatim>\<open>src/migrations\<close>; \<open>world\<close> adds the outgoing HTTP
  requests and mails and the counters of external calls and fresh identifiers. \<open>env\<close> collects
  what is not code of the repository: the clock, the random sources, MySQL's collation of
  strings, whether a call of the database fails (before or after it took effect), the peers
  that answer HTTP requests and mails, the file system, and third-party functions (serde,
  Tera, SHA-256, Argon2, JSON web tokens, URLs, time zones, Unicode case, the rounding of
  decimals to floats, and chrono's addition of durations, which panics, here \<open>None\<close>, out of
  its range). Every external call reads its behaviour at the current value of the call
  counter, so nothing is assumed of it to be repeatable.

  A statement is a function from the time and the database to a result (\<open>Inl\<close>: the database
  refuses it) and the next database; \<open>sql\<close> runs one statement through the pool.
  Failures that the tables do not show (lost connections, timeouts, values too long for a
  column) are faults of the environment. Timestamps are in seconds, as the \<^verbatim>\<open>TIMESTAMP\<close>
  columns store them. Rows that compare equal under an \<^verbatim>\<open>ORDER BY\<close> keep their table order,
  which MySQL leaves open; no property rests on it.

  \<open>db_wf\<close> is the schema's promise: primary and unique keys have no duplicates and every
  foreign key refers to a row.
\<close>

section \<open>Rows without a type of their own in the model crate\<close>

text \<open>\<^verbatim>\<open>struct Row\<close> of \<^verbatim>\<open>repositories/workflow_definitions.rs\<close>.\<close>

record definition_row =
  wr_id :: uuid
  wr_name :: string
  wr_version :: i32
  wr_definition_json :: json
  wr_field_mapping_json :: "json option"
  wr_target_system :: "TargetSystem option"
  wr_is_published :: bool
  wr_created_by :: "uuid option"
  wr_created_at :: timestamp
  wr_updated_at :: timestamp

text \<open>The tables \<^verbatim>\<open>sessions\<close> and \<^verbatim>\<open>password_resets\<close>.\<close>

record session_row =
  ss_id :: uuid
  ss_user_id :: uuid
  ss_refresh_token_hash :: string
  ss_user_agent :: "string option"
  ss_ip_address :: "string option"
  ss_expires_at :: timestamp
  ss_revoked_at :: "timestamp option"
  ss_created_at :: timestamp

record password_reset_row =
  pr_id :: uuid
  pr_user_id :: uuid
  pr_token_hash :: string
  pr_expires_at :: timestamp
  pr_used_at :: "timestamp option"
  pr_created_at :: timestamp

record db =
  db_departments :: "Department list"
  db_users :: "User list"
  db_sessions :: "session_row list"
  db_password_resets :: "password_reset_row list"
  db_definitions :: "definition_row list"
  db_items :: "ServiceCatalogItem list"
  db_instances :: "WorkflowInstance list"
  db_approvals :: "PendingApproval list"
  db_tickets :: "Ticket list"
  db_audit :: "AuditLogEntry list"
  db_org_settings :: "OrgSettings option"

section \<open>The environment\<close>

datatype fault = NoFault | FailBefore | FailAfter

record HttpRequest =
  hr_method :: string
  hr_url :: string
  hr_basic_auth :: "(string \<times> string) option"
  hr_bearer_auth :: "string option"
  hr_headers :: "(string \<times> string) list"
  hr_body :: "json option"
  hr_form :: "(string \<times> string) list"

text \<open>A response: its status code and its body as JSON (\<open>None\<close> when it is not JSON).\<close>

record HttpResponse =
  hs_status :: nat
  hs_body :: "json option"

text \<open>How lettre connects to the mail relay, and a message; addresses are as lettre parsed them.\<close>

datatype smtp_relay = StarttlsRelay string | Relay string | BuilderDangerous string

record SmtpTransport =
  tr_relay :: smtp_relay
  tr_port :: "16 word option"
  tr_credentials :: "(string \<times> string) option"

record Mail =
  ml_from :: string
  ml_to :: string
  ml_subject :: string
  ml_body :: string

text \<open>What tokens carry (\<^verbatim>\<open>Claims\<close> of \<^verbatim>\<open>auth.rs\<close>, \<^verbatim>\<open>IdTokenClaims\<close> and \<^verbatim>\<open>Jwk\<close> of \<^verbatim>\<open>sso.rs\<close>), and the
  entries of the in-memory maps of \<^verbatim>\<open>SsoService\<close>. Instants are nanoseconds of the monotonic
  clock.\<close>

record Claims =
  cl_sub :: uuid
  cl_role :: Role
  cl_exp :: i64
  cl_iat :: i64

record IdTokenClaims =
  it_oid :: string
  it_nonce :: "string option"
  it_email :: "string option"
  it_preferred_username :: "string option"
  it_name :: "string option"

record Jwk =
  jwk_kid :: string
  jwk_n :: string
  jwk_e :: string

record PendingLogin =
  pl_pkce_verifier :: string
  pl_nonce :: string
  pl_created_at :: nat

record HandoffCode =
  hc_user_id :: uuid
  hc_created_at :: nat

text \<open>The files below the uploads directory are a map from paths to contents.\<close>

record world =
  w_db :: db
  w_io :: nat
  w_uuids :: nat
  w_tokens :: nat
  w_http :: "HttpRequest list"
  w_mail :: "Mail list"
  w_pending_logins :: "string \<rightharpoonup> PendingLogin"
  w_handoff_codes :: "string \<rightharpoonup> HandoffCode"
  w_jwks :: "(nat \<times> Jwk list) option"
  w_files :: "string \<rightharpoonup> string"

record env =
  env_fault :: "nat \<Rightarrow> fault"
  env_time :: "nat \<Rightarrow> timestamp"
  env_uuid :: "nat \<Rightarrow> uuid"
  env_token :: "nat \<Rightarrow> string"
  env_collate :: "string \<Rightarrow> string"
  env_uuid_str :: "uuid \<Rightarrow> string"
  env_graph_to_json :: "WorkflowGraph \<Rightarrow> json"
  env_graph_of_json :: "json \<Rightarrow> WorkflowGraph option"
  env_mapping_to_json :: "FieldMapping \<Rightarrow> json"
  env_mapping_of_json :: "json \<Rightarrow> FieldMapping option"
  env_json_str :: "json \<Rightarrow> string"
  env_http :: "nat \<Rightarrow> HttpRequest \<Rightarrow> string + HttpResponse"
  env_smtp_relay :: "smtp_relay \<Rightarrow> string + unit"
  env_mailbox_parse :: "string \<Rightarrow> string + string"
  env_mail_build :: "Mail \<Rightarrow> string + unit"
  env_smtp :: "SmtpTransport \<Rightarrow> nat \<Rightarrow> Mail \<Rightarrow> string + unit"
  env_format_local :: "timestamp \<Rightarrow> string \<Rightarrow> string"
  env_format_utc :: "timestamp \<Rightarrow> string"
  env_tera :: "string \<Rightarrow> json_map \<Rightarrow> string + string"
  env_add_seconds :: "timestamp \<Rightarrow> i64 \<Rightarrow> timestamp option"
  env_sha256_hex :: "string \<Rightarrow> string"
  env_argon2_hash :: "string \<Rightarrow> string \<Rightarrow> string option"
  env_argon2_verify :: "string \<Rightarrow> string \<Rightarrow> bool option"
  env_random :: "nat \<Rightarrow> nat \<Rightarrow> string"
  env_instant :: "nat \<Rightarrow> nat"
  env_unix :: "timestamp \<Rightarrow> i64"
  env_add_std :: "timestamp \<Rightarrow> 64 word \<Rightarrow> timestamp option"
  env_jwt_encode :: "string \<Rightarrow> Claims \<Rightarrow> string option"
  env_jwt_decode :: "string \<Rightarrow> string \<Rightarrow> timestamp \<Rightarrow> Claims option"
  env_jwt_kid :: "string \<Rightarrow> string option option"
  env_id_token_decode :: "Jwk \<Rightarrow> string \<Rightarrow> string \<Rightarrow> timestamp \<Rightarrow> string \<Rightarrow> IdTokenClaims option"
  env_rsa_ok :: "string \<Rightarrow> string \<Rightarrow> bool"
  env_pkce_challenge :: "string \<Rightarrow> string"
  env_url_with_query :: "string \<Rightarrow> (string \<times> string) list \<Rightarrow> string"
  env_jwks_of_json :: "json \<Rightarrow> Jwk list option"
  env_id_token_of_json :: "json \<Rightarrow> string option"
  env_tz_valid :: "string \<Rightarrow> bool"
  env_tz_names :: "string list"
  env_uuid_parse :: "string \<Rightarrow> uuid option"
  env_parse_f64 :: "string \<Rightarrow> rat option"
  env_to_lowercase :: "string \<Rightarrow> string"
  env_fs_ok :: "nat \<Rightarrow> bool"

text \<open>What \<^verbatim>\<open>sqlx::Error\<close> can be here: the connection failed, a constraint of the schema (or an
  invalid parameter) refused the statement, \<^verbatim>\<open>fetch_one\<close> found no row.\<close>

datatype sqlx_error = ConnectionError | ConstraintViolation | RowNotFound

datatype DbError =
    Sqlx sqlx_error
  | Migrate string
  | CorruptJson string string
      \<comment> \<open>entity, id\<close>
  | NotFound string string
      \<comment> \<open>entity, id\<close>

section \<open>Calls of the outside world\<close>

type_synonym 'a stmt = "timestamp \<Rightarrow> db \<Rightarrow> (sqlx_error + 'a) \<times> db"
type_synonym ('e, 'a) act = "(world, 'e, 'a) io"

definition sql :: "env \<Rightarrow> 'a stmt \<Rightarrow> (DbError, 'a) act" where
  "sql E stmt w =
     (let n = w_io w; w' = w\<lparr>w_io := Suc n\<rparr> in
      case env_fault E n of
        FailBefore \<Rightarrow> (Err (Sqlx ConnectionError), w')
      | flt \<Rightarrow>
          (case stmt (env_time E n) (w_db w) of
             (Inl e, d) \<Rightarrow> (Err (Sqlx e), w')
           | (Inr x, d) \<Rightarrow>
               (if flt = FailAfter then Err (Sqlx ConnectionError) else Ok x,
                w'\<lparr>w_db := d\<rparr>)))"

text \<open>An environment in which the database never fails on its own; a statement may still be
  refused by the schema.\<close>

definition fault_free :: "env \<Rightarrow> bool" where
  "fault_free E \<longleftrightarrow> (\<forall>n. env_fault E n = NoFault)"

text \<open>A \<^verbatim>\<open>SELECT\<close> never changes the database.\<close>

definition query :: "(timestamp \<Rightarrow> db \<Rightarrow> 'a) \<Rightarrow> 'a stmt" where
  "query q = (\<lambda>now d. (Inr (q now d), d))"

definition new_uuid :: "env \<Rightarrow> ('e, uuid) act" where
  "new_uuid E w = (Ok (env_uuid E (w_uuids w)), w\<lparr>w_uuids := Suc (w_uuids w)\<rparr>)"

definition new_token :: "env \<Rightarrow> ('e, string) act" where
  "new_token E w = (Ok (env_token E (w_tokens w)), w\<lparr>w_tokens := Suc (w_tokens w)\<rparr>)"

definition utc_now :: "env \<Rightarrow> ('e, timestamp) act" where
  "utc_now E w = (Ok (env_time E (w_io w)), w)"

definition http_send :: "env \<Rightarrow> HttpRequest \<Rightarrow> (string, HttpResponse) act" where
  "http_send E rq w =
     (case env_http E (w_io w) rq of Inl e \<Rightarrow> Err e | Inr rs \<Rightarrow> Ok rs,
      w\<lparr>w_io := Suc (w_io w), w_http := w_http w @ [rq]\<rparr>)"

definition smtp_send :: "env \<Rightarrow> SmtpTransport \<Rightarrow> Mail \<Rightarrow> (string, unit) act" where
  "smtp_send E transport m w =
     (case env_smtp E transport (w_io w) m of Inl e \<Rightarrow> Err e | Inr u \<Rightarrow> Ok u,
      w\<lparr>w_io := Suc (w_io w), w_mail := w_mail w @ [m]\<rparr>)"

section \<open>Building statements\<close>

text \<open>\<^verbatim>\<open>a = b\<close> on character columns compares under the table's collation.\<close>

definition same_text :: "env \<Rightarrow> string \<Rightarrow> string \<Rightarrow> bool" where
  "same_text E a b \<longleftrightarrow> env_collate E a = env_collate E b"

definition insert_if :: "bool \<Rightarrow> db \<Rightarrow> db \<Rightarrow> (sqlx_error + unit) \<times> db" where
  "insert_if ok d' d = (if ok then (Inr (), d') else (Inl ConstraintViolation, d))"

text \<open>A nullable foreign key refers to a row or is \<^verbatim>\<open>NULL\<close>.\<close>

definition fk_opt :: "uuid option \<Rightarrow> uuid set \<Rightarrow> bool" where
  "fk_opt k ids \<longleftrightarrow> (case k of None \<Rightarrow> True | Some i \<Rightarrow> i \<in> ids)"

text \<open>\<^verbatim>\<open>ON UPDATE CURRENT_TIMESTAMP\<close>: the stamp moves when the update changes the row.\<close>

definition touched :: "(timestamp \<Rightarrow> 'r \<Rightarrow> 'r) \<Rightarrow> timestamp \<Rightarrow> ('r \<Rightarrow> 'r) \<Rightarrow> 'r \<Rightarrow> 'r" where
  "touched stamp now f r = (if f r = r then r else stamp now (f r))"

lemma touched_proj: "(\<And>x. g (stamp now x) = g x) \<Longrightarrow> g (touched stamp now f r) = g (f r)"
  by (simp add: touched_def)

text \<open>\<^verbatim>\<open>COALESCE(?, column)\<close> for a column that may not be null and for one that may.\<close>

definition coalesce :: "'a option \<Rightarrow> 'a \<Rightarrow> 'a" where
  "coalesce p x = (case p of None \<Rightarrow> x | Some y \<Rightarrow> y)"

definition coalesce_opt :: "'a option \<Rightarrow> 'a option \<Rightarrow> 'a option" where
  "coalesce_opt p x = (case p of None \<Rightarrow> x | Some y \<Rightarrow> Some y)"

text \<open>\<^verbatim>\<open>ORDER BY key\<close>, descending when the flag says so.\<close>

definition order_by :: "('r \<Rightarrow> 'k::linorder) \<Rightarrow> 'r list \<Rightarrow> 'r list" where
  "order_by key rows = sort_key key rows"

definition order_by_desc :: "('r \<Rightarrow> int) \<Rightarrow> 'r list \<Rightarrow> 'r list" where
  "order_by_desc key rows = sort_key (\<lambda>r. - key r) rows"

lemma coalesce_simps [simp]: "coalesce None x = x" "coalesce (Some y) x = y"
  by (simp_all add: coalesce_def)

lemma coalesce_opt_simps [simp]: "coalesce_opt None x = x" "coalesce_opt (Some y) x = Some y"
  by (simp_all add: coalesce_opt_def)

lemma fk_opt_simps [simp]: "fk_opt None ids" "fk_opt (Some i) ids \<longleftrightarrow> i \<in> ids"
  by (simp_all add: fk_opt_def)

lemma fk_opt_mono: "fk_opt k A \<Longrightarrow> A \<subseteq> B \<Longrightarrow> fk_opt k B"
  by (cases k) auto

lemma fk_opt_coalesce: "fk_opt p A \<Longrightarrow> fk_opt x A \<Longrightarrow> fk_opt (coalesce_opt p x) A"
  by (cases p) auto

lemma set_order_by [simp]: "set (order_by key rows) = set rows"
  by (simp add: order_by_def)

lemma set_order_by_desc [simp]: "set (order_by_desc key rows) = set rows"
  by (simp add: order_by_desc_def)

section \<open>The schema's promise\<close>

definition uniq :: "('r \<Rightarrow> 'k) \<Rightarrow> 'r list \<Rightarrow> bool" where
  "uniq key rows \<longleftrightarrow> distinct (map key rows)"

text \<open>A unique key over a nullable column: several rows may hold \<^verbatim>\<open>NULL\<close>.\<close>

definition uniq_opt :: "('r \<Rightarrow> 'k option) \<Rightarrow> 'r list \<Rightarrow> bool" where
  "uniq_opt key rows \<longleftrightarrow> distinct (filter (\<lambda>k. k \<noteq> None) (map key rows))"

abbreviation department_ids :: "db \<Rightarrow> uuid set" where
  "department_ids d \<equiv> d_id ` set (db_departments d)"
abbreviation user_ids :: "db \<Rightarrow> uuid set" where
  "user_ids d \<equiv> u_id ` set (db_users d)"
abbreviation definition_ids :: "db \<Rightarrow> uuid set" where
  "definition_ids d \<equiv> wr_id ` set (db_definitions d)"
abbreviation item_ids :: "db \<Rightarrow> uuid set" where
  "item_ids d \<equiv> ci_id ` set (db_items d)"
abbreviation instance_ids :: "db \<Rightarrow> uuid set" where
  "instance_ids d \<equiv> wi_id ` set (db_instances d)"

definition departments_ok :: "env \<Rightarrow> Department list \<Rightarrow> bool" where
  "departments_ok E t \<longleftrightarrow> uniq d_id t \<and> uniq (\<lambda>r. env_collate E (d_name r)) t \<and>
     (\<forall>r \<in> set t. fk_opt (d_parent_department_id r) (d_id ` set t))"

definition users_ok :: "env \<Rightarrow> uuid set \<Rightarrow> User list \<Rightarrow> bool" where
  "users_ok E depts t \<longleftrightarrow> uniq u_id t \<and> uniq (\<lambda>r. env_collate E (u_email r)) t \<and>
     uniq_opt (\<lambda>r. map_option (env_collate E) (u_external_idp_subject r)) t \<and>
     (\<forall>r \<in> set t. fk_opt (u_department_id r) depts \<and> fk_opt (u_manager_user_id r) (u_id ` set t))"

definition sessions_ok :: "env \<Rightarrow> uuid set \<Rightarrow> session_row list \<Rightarrow> bool" where
  "sessions_ok E users t \<longleftrightarrow> uniq ss_id t \<and> uniq (\<lambda>r. env_collate E (ss_refresh_token_hash r)) t \<and>
     (\<forall>r \<in> set t. ss_user_id r \<in> users)"

definition password_resets_ok :: "env \<Rightarrow> uuid set \<Rightarrow> password_reset_row list \<Rightarrow> bool" where
  "password_resets_ok E users t \<longleftrightarrow> uniq pr_id t \<and> uniq (\<lambda>r. env_collate E (pr_token_hash r)) t \<and>
     (\<forall>r \<in> set t. pr_user_id r \<in> users)"

definition definitions_ok :: "env \<Rightarrow> uuid set \<Rightarrow> definition_row list \<Rightarrow> bool" where
  "definitions_ok E users t \<longleftrightarrow> uniq wr_id t \<and>
     uniq (\<lambda>r. (env_collate E (wr_name r), wr_version r)) t \<and>
     (\<forall>r \<in> set t. fk_opt (wr_created_by r) users)"

definition items_ok :: "env \<Rightarrow> uuid set \<Rightarrow> uuid set \<Rightarrow> ServiceCatalogItem list \<Rightarrow> bool" where
  "items_ok E users defs t \<longleftrightarrow> uniq ci_id t \<and>
     uniq_opt (\<lambda>r. map_option (env_collate E) (ci_slug r)) t \<and>
     (\<forall>r \<in> set t. ci_workflow_definition_id r \<in> defs \<and> fk_opt (ci_created_by r) users)"

definition instances_ok :: "uuid set \<Rightarrow> uuid set \<Rightarrow> uuid set \<Rightarrow> WorkflowInstance list \<Rightarrow> bool" where
  "instances_ok users defs items t \<longleftrightarrow> uniq wi_id t \<and>
     (\<forall>r \<in> set t. wi_workflow_definition_id r \<in> defs \<and> wi_catalog_item_id r \<in> items \<and>
        wi_requester_user_id r \<in> users)"

definition approvals_ok :: "uuid set \<Rightarrow> uuid set \<Rightarrow> PendingApproval list \<Rightarrow> bool" where
  "approvals_ok users insts t \<longleftrightarrow> uniq pa_id t \<and>
     (\<forall>r \<in> set t. pa_workflow_instance_id r \<in> insts \<and> pa_approver_user_id r \<in> users)"

definition tickets_ok :: "uuid set \<Rightarrow> Ticket list \<Rightarrow> bool" where
  "tickets_ok insts t \<longleftrightarrow> uniq t_id t \<and> (\<forall>r \<in> set t. t_workflow_instance_id r \<in> insts)"

definition audit_ok :: "uuid set \<Rightarrow> AuditLogEntry list \<Rightarrow> bool" where
  "audit_ok users t \<longleftrightarrow> uniq al_id t \<and> (\<forall>r \<in> set t. fk_opt (al_actor_user_id r) users)"

definition db_wf :: "env \<Rightarrow> db \<Rightarrow> bool" where
  "db_wf E d \<longleftrightarrow>
     departments_ok E (db_departments d) \<and>
     users_ok E (department_ids d) (db_users d) \<and>
     sessions_ok E (user_ids d) (db_sessions d) \<and>
     password_resets_ok E (user_ids d) (db_password_resets d) \<and>
     definitions_ok E (user_ids d) (db_definitions d) \<and>
     items_ok E (user_ids d) (definition_ids d) (db_items d) \<and>
     instances_ok (user_ids d) (definition_ids d) (item_ids d) (db_instances d) \<and>
     approvals_ok (user_ids d) (instance_ids d) (db_approvals d) \<and>
     tickets_ok (instance_ids d) (db_tickets d) \<and>
     audit_ok (user_ids d) (db_audit d)"

lemmas table_ok_defs = departments_ok_def users_ok_def sessions_ok_def password_resets_ok_def
  definitions_ok_def items_ok_def instances_ok_def approvals_ok_def tickets_ok_def audit_ok_def

lemma uniq_Nil [simp]: "uniq key []"
  by (simp add: uniq_def)

lemma uniq_append1: "uniq key (t @ [r]) \<longleftrightarrow> uniq key t \<and> key r \<notin> key ` set t"
  by (auto simp: uniq_def)

lemma uniq_opt_append1:
  "uniq_opt key (t @ [r]) \<longleftrightarrow> uniq_opt key t \<and> (key r \<noteq> None \<longrightarrow> key r \<notin> key ` set t)"
  by (auto simp: uniq_opt_def)

lemma uniq_update: "(\<And>r. key (f r) = key r) \<Longrightarrow> uniq key (update_rows P f t) \<longleftrightarrow> uniq key t"
  by (simp add: uniq_def map_update_rows)

lemma uniq_opt_update:
  "(\<And>r. key (f r) = key r) \<Longrightarrow> uniq_opt key (update_rows P f t) \<longleftrightarrow> uniq_opt key t"
  by (simp add: uniq_opt_def map_update_rows)

lemma image_update_rows:
  "(\<And>r. key (f r) = key r) \<Longrightarrow> key ` set (update_rows P f t) = key ` set t"
  by (metis list.set_map map_update_rows)

lemma uniq_find_row:
  "uniq key t \<Longrightarrow> r \<in> set t \<Longrightarrow> find_row (\<lambda>x. key x = key r) t = Some r"
  by (induction t) (auto simp: uniq_def)

lemma uniq_eqD: "uniq key t \<Longrightarrow> r \<in> set t \<Longrightarrow> s \<in> set t \<Longrightarrow> key r = key s \<Longrightarrow> r = s"
  by (auto simp: uniq_def dest: distinct_map [THEN iffD1] inj_onD)

section \<open>Predicates of the database that statements keep\<close>

definition stmt_keeps :: "(db \<Rightarrow> bool) \<Rightarrow> 'a stmt \<Rightarrow> bool" where
  "stmt_keeps I s \<longleftrightarrow> (\<forall>now d. I d \<longrightarrow> I (snd (s now d)))"

named_theorems stmt_intros

lemma stmt_keepsI: "(\<And>now d. I d \<Longrightarrow> I (snd (s now d))) \<Longrightarrow> stmt_keeps I s"
  by (simp add: stmt_keeps_def)

lemma stmt_keeps_query [stmt_intros]: "stmt_keeps I (query q)"
  by (simp add: stmt_keeps_def query_def)

lemma insert_if_snd: "snd (insert_if ok d' d) = (if ok then d' else d)"
  by (simp add: insert_if_def)

lemma keeps_sql [keeps_intros]:
  assumes "stmt_keeps I s"
  shows "keeps (\<lambda>w. I (w_db w)) (sql E s)"
proof (rule keepsI)
  fix w :: world assume "I (w_db w)"
  then have "I (snd (s (env_time E (w_io w)) (w_db w)))" using assms by (simp add: stmt_keeps_def)
  then show "I (w_db (snd (sql E s w)))"
    using \<open>I (w_db w)\<close> by (auto simp: sql_def Let_def split: fault.split prod.split sum.split)
qed

lemma keeps_new_uuid [keeps_intros]: "keeps (\<lambda>w. I (w_db w)) (new_uuid E)"
  by (simp add: keeps_def new_uuid_def)

lemma keeps_new_token [keeps_intros]: "keeps (\<lambda>w. I (w_db w)) (new_token E)"
  by (simp add: keeps_def new_token_def)

lemma keeps_utc_now [keeps_intros]: "keeps I (utc_now E)"
  by (simp add: keeps_def utc_now_def)

lemma keeps_http_send [keeps_intros]: "keeps (\<lambda>w. I (w_db w)) (http_send E rq)"
  by (simp add: keeps_def http_send_def)

lemma keeps_smtp_send [keeps_intros]: "keeps (\<lambda>w. I (w_db w)) (smtp_send E transport m)"
  by (simp add: keeps_def smtp_send_def)

text \<open>What a call returns: the database answered, so the statement took effect.\<close>

lemma sql_OkE:
  assumes "sql E s w = (Ok x, w')"
  obtains d where "s (env_time E (w_io w)) (w_db w) = (Inr x, d)"
    "w' = w\<lparr>w_io := Suc (w_io w), w_db := d\<rparr>"
  using assms
  by (auto simp: sql_def Let_def split: fault.splits prod.splits sum.splits if_splits)

lemma sql_query_Ok:
  "sql E (query q) w = (Ok x, w') \<Longrightarrow>
   x = q (env_time E (w_io w)) (w_db w) \<and> w' = w\<lparr>w_io := Suc (w_io w)\<rparr>"
  by (erule sql_OkE) (auto simp: query_def)

lemma sql_query_db [simp]: "w_db (snd (sql E (query q) w)) = w_db w"
  by (simp add: sql_def query_def Let_def split: fault.split)

lemma sql_no_fault:
  "env_fault E (w_io w) = NoFault \<Longrightarrow> s (env_time E (w_io w)) (w_db w) = (Inr x, d) \<Longrightarrow>
   sql E s w = (Ok x, w\<lparr>w_io := Suc (w_io w), w_db := d\<rparr>)"
  by (simp add: sql_def Let_def)

lemma sql_not_panic [simp]: "sql E s w \<noteq> (Panic, w')"
  by (auto simp: sql_def Let_def split: fault.split prod.split sum.split)

lemma sql_query_cases:
  obtains (answered) w' where "sql E (query q) w = (Ok (q (env_time E (w_io w)) (w_db w)), w')"
    "w_db w' = w_db w"
  | (failed) e w' where "sql E (query q) w = (Err e, w')" "w_db w' = w_db w"
proof (cases "sql E (query q) w")
  case (Pair r w')
  then have "w_db w' = w_db w" using sql_query_db [of E q w] by simp
  with Pair show thesis
    by (cases r) (auto intro: answered failed dest: sql_query_Ok)
qed

lemma sql_fault_free:
  "fault_free E \<Longrightarrow> sql E s w =
     (case s (env_time E (w_io w)) (w_db w) of
        (Inl e, d) \<Rightarrow> (Err (Sqlx e), w\<lparr>w_io := Suc (w_io w)\<rparr>)
      | (Inr x, d) \<Rightarrow> (Ok x, w\<lparr>w_io := Suc (w_io w), w_db := d\<rparr>))"
  by (simp add: sql_def fault_free_def Let_def split: prod.split sum.split)

text \<open>Triples over the database alone.\<close>

definition dhoare ::
    "(db \<Rightarrow> bool) \<Rightarrow> ('e, 'a) act \<Rightarrow> ('a \<Rightarrow> db \<Rightarrow> bool) \<Rightarrow> (db \<Rightarrow> bool) \<Rightarrow> bool" where
  "dhoare P m Q X \<longleftrightarrow> hoare (\<lambda>w. P (w_db w)) m (\<lambda>x w. Q x (w_db w)) (\<lambda>w. X (w_db w))"

lemma dhoareI:
  "(\<And>w. P (w_db w) \<Longrightarrow> post (\<lambda>x w. Q x (w_db w)) (\<lambda>w. X (w_db w)) (fst (m w)) (snd (m w))) \<Longrightarrow>
   dhoare P m Q X"
  by (simp add: dhoare_def hoare_def)

lemma dhoare_bindM:
  "dhoare P m R X \<Longrightarrow> (\<And>x. dhoare (R x) (f x) Q X) \<Longrightarrow> dhoare P (bindM m f) Q X"
  unfolding dhoare_def by (rule hoare_bindM)

lemma dhoare_return: "(\<And>d. P d \<Longrightarrow> Q x d) \<Longrightarrow> dhoare P (return x) Q X"
  unfolding dhoare_def by (rule hoare_return)

lemma dhoare_fail: "(\<And>d. P d \<Longrightarrow> X d) \<Longrightarrow> dhoare P (fail e) Q X"
  unfolding dhoare_def by (rule hoare_fail)

lemma dhoare_map_err: "dhoare P m Q X \<Longrightarrow> dhoare P (map_err g m) Q X"
  unfolding dhoare_def by (rule hoare_map_err)

lemma dhoare_ok_or:
  "(\<And>y d. x = Some y \<Longrightarrow> P d \<Longrightarrow> Q y d) \<Longrightarrow> (\<And>d. x = None \<Longrightarrow> P d \<Longrightarrow> X d) \<Longrightarrow>
   dhoare P (ok_or e x) Q X"
  unfolding dhoare_def by (rule hoare_ok_or)

lemma dhoare_keeps: "keeps (\<lambda>w. I (w_db w)) m \<Longrightarrow> dhoare I m (\<lambda>_. I) I"
  unfolding dhoare_def by (rule hoare_keeps)

lemma dhoare_conseq:
  "dhoare P m Q X \<Longrightarrow> (\<And>d. P' d \<Longrightarrow> P d) \<Longrightarrow> (\<And>x d. Q x d \<Longrightarrow> Q' x d) \<Longrightarrow> (\<And>d. X d \<Longrightarrow> X' d) \<Longrightarrow>
   dhoare P' m Q' X'"
  unfolding dhoare_def by (rule hoare_conseq)

lemma dhoare_if:
  "(b \<Longrightarrow> dhoare P m Q X) \<Longrightarrow> (\<not> b \<Longrightarrow> dhoare P n Q X) \<Longrightarrow> dhoare P (if b then m else n) Q X"
  by simp

lemma dhoare_case_prod:
  "(\<And>a b. x = (a, b) \<Longrightarrow> dhoare P (f a b) Q X) \<Longrightarrow> dhoare P (case x of (a, b) \<Rightarrow> f a b) Q X"
  by (cases x) simp

lemma dhoare_ends_in:
  assumes "dhoare P m Q X" "\<And>x. ends_in (\<lambda>w. Q x (w_db w)) (f x) (\<lambda>w. R (w_db w))" "\<And>d. X d \<Longrightarrow> R d"
  shows "ends_in (\<lambda>w. P (w_db w)) (then_run m f) (\<lambda>w. R (w_db w))"
  using assms unfolding dhoare_def by (rule ends_in_then_run)

lemma dhoare_sql:
  assumes "fault_free E"
    and "\<And>now d x d'. P d \<Longrightarrow> s now d = (Inr x, d') \<Longrightarrow> Q x d'"
    and "\<And>now d e d'. P d \<Longrightarrow> s now d = (Inl e, d') \<Longrightarrow> X d"
  shows "dhoare P (sql E s) Q X"
proof (rule dhoareI)
  fix w :: world assume P: "P (w_db w)"
  obtain r d where s: "s (env_time E (w_io w)) (w_db w) = (r, d)" by fastforce
  show "post (\<lambda>x w. Q x (w_db w)) (\<lambda>w. X (w_db w)) (fst (sql E s w)) (snd (sql E s w))"
    using assms(2,3) [OF P] s by (cases r) (simp_all add: sql_fault_free [OF assms(1)])
qed

text \<open>Without faults a \<^verbatim>\<open>SELECT\<close> returns its rows and never fails.\<close>

lemma dhoare_query:
  "fault_free E \<Longrightarrow> dhoare P (sql E (query q)) (\<lambda>x d. P d \<and> (\<exists>now. x = q now d)) X"
  by (rule dhoareI) (auto simp: sql_fault_free query_def)

lemma dhoare_read: "fault_free E \<Longrightarrow> dhoare P (sql E (query q)) (\<lambda>_. P) X"
  by (rule dhoareI) (simp add: sql_fault_free query_def)

text \<open>A statement when calls may fail: besides the outcome of the statement, an error with or
  without its effect.\<close>

lemma dhoare_sql_faults:
  assumes "\<And>now d x d'. P d \<Longrightarrow> s now d = (Inr x, d') \<Longrightarrow> Q x d' \<and> (fault_free E \<or> X d \<and> X d')"
    and "\<And>now d e d'. P d \<Longrightarrow> s now d = (Inl e, d') \<Longrightarrow> X d"
  shows "dhoare P (sql E s) Q X"
proof (cases "fault_free E")
  case True
  then show ?thesis using assms by (auto intro!: dhoare_sql)
next
  case False
  show ?thesis
  proof (rule dhoareI)
    fix w :: world assume P: "P (w_db w)"
    obtain r d where s: "s (env_time E (w_io w)) (w_db w) = (r, d)" by fastforce
    show "post (\<lambda>x w. Q x (w_db w)) (\<lambda>w. X (w_db w)) (fst (sql E s w)) (snd (sql E s w))"
      using assms [OF P] s False
      by (cases "env_fault E (w_io w)"; cases r) (auto simp: sql_def)
  qed
qed

lemma dhoare_still:
  assumes "keeps (\<lambda>w. w_db w = db) m" "X db"
  shows "dhoare (\<lambda>d. d = db) m (\<lambda>_ d. d = db) X"
  using dhoare_keeps [of "\<lambda>d. d = db", OF assms(1)] by (rule dhoare_conseq) (simp_all add: assms(2))

lemma utc_now_apply [io_simps, simp]: "utc_now E w = (Ok (env_time E (w_io w)), w)"
  by (simp add: utc_now_def)

section \<open>A concrete environment\<close>

text \<open>An environment in which the laws the development assumes of the outside world hold: no
  call fails, time is the call counter, identifiers and tokens are counters, stored graphs
  and mappings decode to what they encode. \<open>graph\<close> and \<open>mapping\<close> are the definition stored.\<close>

definition sample_env :: "WorkflowGraph \<Rightarrow> FieldMapping \<Rightarrow> env" where
  "sample_env graph mapping =
     \<lparr>env_fault = (\<lambda>_. NoFault), env_time = int, env_uuid = (\<lambda>n. of_nat (1000 + n)),
      env_token = nat_to_string, env_collate = (\<lambda>s. s),
      env_uuid_str = (\<lambda>i. nat_to_string (unat i)),
      env_graph_to_json = (\<lambda>_. JNull), env_graph_of_json = (\<lambda>_. Some graph),
      env_mapping_to_json = (\<lambda>_. JNull), env_mapping_of_json = (\<lambda>_. Some mapping),
      env_json_str = (\<lambda>_. ''json''),
      env_http = (\<lambda>_ _. Inr \<lparr>hs_status = 201, hs_body = Some (JObject [(''key'', JString ''IT-1'')])\<rparr>),
      env_smtp_relay = (\<lambda>_. Inr ()), env_mailbox_parse = Inr, env_mail_build = (\<lambda>_. Inr ()),
      env_smtp = (\<lambda>_ _ _. Inr ()), env_format_local = (\<lambda>t tz. int_to_string t @ tz),
      env_format_utc = (\<lambda>t. int_to_string t @ '' UTC''),
      env_tera = (\<lambda>template _. Inr template), env_add_seconds = (\<lambda>t s. Some (t + sint s)),
      env_sha256_hex = (\<lambda>s. CHR ''h'' # s),
      env_argon2_hash = (\<lambda>salt pw. Some (CHR ''a'' # pw)),
      env_argon2_verify = (\<lambda>pw h. Some (h = CHR ''a'' # pw)),
      env_random = (\<lambda>bytes n. nat_to_string n), env_instant = (\<lambda>n. n),
      env_unix = of_int, env_add_std = (\<lambda>t s. Some (t + uint s)),
      env_jwt_encode = (\<lambda>secret c. Some (nat_to_string (unat (cl_sub c)) @ secret)),
      env_jwt_decode = (\<lambda>secret tok now.
        if tok = ''1'' @ secret then Some \<lparr>cl_sub = 1, cl_role = Requester, cl_exp = 0, cl_iat = 0\<rparr>
        else if tok = ''2'' @ secret then Some \<lparr>cl_sub = 2, cl_role = Requester, cl_exp = 0, cl_iat = 0\<rparr>
        else None),
      env_jwt_kid = (\<lambda>_. Some (Some ''kid'')),
      env_id_token_decode = (\<lambda>k aud iss now tok. Some \<lparr>it_oid = ''oid'', it_nonce = Some tok,
        it_email = Some ''r@x'', it_preferred_username = None, it_name = None\<rparr>),
      env_rsa_ok = (\<lambda>_ _. True), env_pkce_challenge = (\<lambda>s. s),
      env_url_with_query = (\<lambda>url _. url), env_jwks_of_json = (\<lambda>_. Some []),
      env_id_token_of_json = (\<lambda>_. Some ''1''), env_tz_valid = (\<lambda>s. s = ''UTC''),
      env_tz_names = [''UTC''],
      env_uuid_parse = (\<lambda>s. if s = ''1'' then Some 1 else if s = ''2'' then Some 2 else None),
      env_parse_f64 = (\<lambda>_. None), env_to_lowercase = (\<lambda>s. s), env_fs_ok = (\<lambda>_. True)\<rparr>"

end
