(* ===== verification/Repositories.thy ===== *)
theory Repositories
  imports Database "HOL-Library.Sublist"
begin

text \<open>
  The \<^verbatim>\<open>servcat_db\<close> repositories (\<^verbatim>\<open>src/crates/db/src/repositories\<close>), one group per module. Each
  SQL text is a statement (\<open>*_stmt\<close>) and each \<^verbatim>\<open>async fn\<close> an operation that sends it. An
  \<^verbatim>\<open>INSERT\<close> that would break a key or a foreign key of the schema fails without an effect,
  as does an \<^verbatim>\<open>UPDATE\<close>; deleting a department sets the references to it to null.

  Shown: every operation keeps the schema's promise \<open>db_wf\<close>; an insert is read back; an
  approval is decided at most once; progress stamps \<^verbatim>\<open>completed_at\<close> with terminal statuses;
  the audit log only grows and its pages partition it.
\<close>

section \<open>departments\<close>

definition departments_create_stmt :: "env \<Rightarrow> uuid \<Rightarrow> NewDepartment \<Rightarrow> unit stmt" where
  "departments_create_stmt E i new now d =
     insert_if
       (i \<notin> department_ids d \<and>
        env_collate E (nd_name new) \<notin> (\<lambda>r. env_collate E (d_name r)) ` set (db_departments d) \<and>
        fk_opt (nd_parent_department_id new) (insert i (department_ids d)))
       (d\<lparr>db_departments := db_departments d @
          [\<lparr>d_id = i, d_name = nd_name new, d_logo_url = None,
            d_parent_department_id = nd_parent_department_id new,
            d_created_at = now, d_updated_at = now\<rparr>]\<rparr>) d"

definition departments_get_by_id :: "env \<Rightarrow> uuid \<Rightarrow> (DbError, Department option) act" where
  "departments_get_by_id E i = sql E (query (\<lambda>now d. find_row (\<lambda>r. d_id r = i) (db_departments d)))"

definition departments_create :: "env \<Rightarrow> NewDepartment \<Rightarrow> (DbError, Department) act" where
  "departments_create E new =
     bindM (new_uuid E) (\<lambda>i.
     bindM (sql E (departments_create_stmt E i new)) (\<lambda>_.
     bindM (departments_get_by_id E i) (\<lambda>r.
     ok_or (NotFound ''department'' (env_uuid_str E i)) r)))"

definition departments_list :: "env \<Rightarrow> (DbError, Department list) act" where
  "departments_list E =
     sql E (query (\<lambda>now d. order_by (\<lambda>r. env_collate E (d_name r)) (db_departments d)))"

abbreviation department_stamp :: "timestamp \<Rightarrow> Department \<Rightarrow> Department" where
  "department_stamp now r \<equiv> r\<lparr>d_updated_at := now\<rparr>"

definition departments_update_stmt :: "env \<Rightarrow> uuid \<Rightarrow> UpdateDepartment \<Rightarrow> unit stmt" where
  "departments_update_stmt E i patch now d =
     (let t = update_rows (\<lambda>r. d_id r = i)
        (touched department_stamp now (\<lambda>r. r\<lparr>d_name := coalesce (ud_name patch) (d_name r),
           d_parent_department_id :=
             coalesce_opt (ud_parent_department_id patch) (d_parent_department_id r)\<rparr>))
        (db_departments d)
      in insert_if (departments_ok E t) (d\<lparr>db_departments := t\<rparr>) d)"

definition departments_update :: "env \<Rightarrow> uuid \<Rightarrow> UpdateDepartment \<Rightarrow> (DbError, Department option) act" where
  "departments_update E i patch =
     bindM (sql E (departments_update_stmt E i patch)) (\<lambda>_. departments_get_by_id E i)"

definition departments_set_logo_url_stmt :: "uuid \<Rightarrow> string option \<Rightarrow> unit stmt" where
  "departments_set_logo_url_stmt i url now d =
     (Inr (), d\<lparr>db_departments := update_rows (\<lambda>r. d_id r = i)
        (touched department_stamp now (\<lambda>r. r\<lparr>d_logo_url := url\<rparr>)) (db_departments d)\<rparr>)"

definition departments_set_logo_url :: "env \<Rightarrow> uuid \<Rightarrow> string option \<Rightarrow> (DbError, Department option) act" where
  "departments_set_logo_url E i url =
     bindM (sql E (departments_set_logo_url_stmt i url)) (\<lambda>_. departments_get_by_id E i)"

text \<open>\<^verbatim>\<open>ON DELETE SET NULL\<close> on \<^verbatim>\<open>departments.parent_department_id\<close> and \<^verbatim>\<open>users.department_id\<close>.\<close>

definition departments_delete_stmt :: "uuid \<Rightarrow> unit stmt" where
  "departments_delete_stmt i now d =
     (Inr (),
      d\<lparr>db_departments := update_rows (\<lambda>r. d_parent_department_id r = Some i)
          (\<lambda>r. r\<lparr>d_parent_department_id := None\<rparr>)
          (filter (\<lambda>r. d_id r \<noteq> i) (db_departments d)),
        db_users := update_rows (\<lambda>u. u_department_id u = Some i)
          (\<lambda>u. u\<lparr>u_department_id := None\<rparr>) (db_users d)\<rparr>)"

definition departments_delete :: "env \<Rightarrow> uuid \<Rightarrow> (DbError, unit) act" where
  "departments_delete E i = sql E (departments_delete_stmt i)"

section \<open>users\<close>

definition users_create_stmt :: "env \<Rightarrow> uuid \<Rightarrow> NewUser \<Rightarrow> string option \<Rightarrow> unit stmt" where
  "users_create_stmt E i new password_hash now d =
     insert_if
       (i \<notin> user_ids d \<and>
        env_collate E (nu_email new) \<notin> (\<lambda>r. env_collate E (u_email r)) ` set (db_users d) \<and>
        (nu_external_idp_subject new \<noteq> None \<longrightarrow>
           map_option (env_collate E) (nu_external_idp_subject new) \<notin>
           (\<lambda>r. map_option (env_collate E) (u_external_idp_subject r)) ` set (db_users d)) \<and>
        fk_opt (nu_department_id new) (department_ids d) \<and>
        fk_opt (nu_manager_user_id new) (insert i (user_ids d)))
       (d\<lparr>db_users := db_users d @
          [\<lparr>u_id = i, u_email = nu_email new, u_display_name = nu_display_name new,
            u_password_hash = password_hash,
            u_external_idp_subject = nu_external_idp_subject new,
            u_department_id = nu_department_id new, u_manager_user_id = nu_manager_user_id new,
            u_role = nu_role new, u_is_active = True, u_created_at = now, u_updated_at = now\<rparr>]\<rparr>) d"

definition users_get_by_id :: "env \<Rightarrow> uuid \<Rightarrow> (DbError, User option) act" where
  "users_get_by_id E i = sql E (query (\<lambda>now d. find_row (\<lambda>r. u_id r = i) (db_users d)))"

definition users_create :: "env \<Rightarrow> NewUser \<Rightarrow> string option \<Rightarrow> (DbError, User) act" where
  "users_create E new password_hash =
     bindM (new_uuid E) (\<lambda>i.
     bindM (sql E (users_create_stmt E i new password_hash)) (\<lambda>_.
     bindM (users_get_by_id E i) (\<lambda>r.
     ok_or (NotFound ''user'' (env_uuid_str E i)) r)))"

definition users_get_by_email :: "env \<Rightarrow> string \<Rightarrow> (DbError, User option) act" where
  "users_get_by_email E email =
     sql E (query (\<lambda>now d. find_row (\<lambda>r. same_text E (u_email r) email) (db_users d)))"

definition users_get_by_external_idp_subject :: "env \<Rightarrow> string \<Rightarrow> (DbError, User option) act" where
  "users_get_by_external_idp_subject E subject =
     sql E (query (\<lambda>now d. find_row
       (\<lambda>r. case u_external_idp_subject r of None \<Rightarrow> False | Some s \<Rightarrow> same_text E s subject)
       (db_users d)))"

definition users_list :: "env \<Rightarrow> bool \<Rightarrow> (DbError, User list) act" where
  "users_list E include_inactive =
     sql E (query (\<lambda>now d. order_by (\<lambda>r. env_collate E (u_display_name r))
       (filter (\<lambda>r. include_inactive \<or> u_is_active r) (db_users d))))"

definition users_list_active_by_role_in_department ::
    "env \<Rightarrow> Role \<Rightarrow> uuid \<Rightarrow> (DbError, User list) act" where
  "users_list_active_by_role_in_department E role department_id =
     sql E (query (\<lambda>now d. order_by (\<lambda>r. env_collate E (u_display_name r))
       (filter (\<lambda>r. u_role r = role \<and> u_department_id r = Some department_id \<and> u_is_active r)
          (db_users d))))"

abbreviation user_stamp :: "timestamp \<Rightarrow> User \<Rightarrow> User" where
  "user_stamp now r \<equiv> r\<lparr>u_updated_at := now\<rparr>"

definition users_update_stmt :: "env \<Rightarrow> uuid \<Rightarrow> UpdateUser \<Rightarrow> unit stmt" where
  "users_update_stmt E i patch now d =
     (let t = update_rows (\<lambda>r. u_id r = i)
        (touched user_stamp now (\<lambda>r. r\<lparr>
           u_display_name := coalesce (uu_display_name patch) (u_display_name r),
           u_department_id := coalesce_opt (uu_department_id patch) (u_department_id r),
           u_manager_user_id := coalesce_opt (uu_manager_user_id patch) (u_manager_user_id r),
           u_role := coalesce (uu_role patch) (u_role r),
           u_is_active := coalesce (uu_is_active patch) (u_is_active r)\<rparr>))
        (db_users d)
      in insert_if (users_ok E (department_ids d) t) (d\<lparr>db_users := t\<rparr>) d)"

definition users_update :: "env \<Rightarrow> uuid \<Rightarrow> UpdateUser \<Rightarrow> (DbError, User option) act" where
  "users_update E i patch = bindM (sql E (users_update_stmt E i patch)) (\<lambda>_. users_get_by_id E i)"

definition users_link_external_idp_subject_stmt :: "env \<Rightarrow> uuid \<Rightarrow> string \<Rightarrow> unit stmt" where
  "users_link_external_idp_subject_stmt E i subject now d =
     (let t = update_rows (\<lambda>r. u_id r = i)
        (touched user_stamp now (\<lambda>r. r\<lparr>u_external_idp_subject := Some subject\<rparr>)) (db_users d)
      in insert_if (users_ok E (department_ids d) t) (d\<lparr>db_users := t\<rparr>) d)"

definition users_link_external_idp_subject :: "env \<Rightarrow> uuid \<Rightarrow> string \<Rightarrow> (DbError, User option) act" where
  "users_link_external_idp_subject E i subject =
     bindM (sql E (users_link_external_idp_subject_stmt E i subject)) (\<lambda>_. users_get_by_id E i)"

definition users_set_password_hash_stmt :: "uuid \<Rightarrow> string \<Rightarrow> unit stmt" where
  "users_set_password_hash_stmt i h now d =
     (Inr (), d\<lparr>db_users := update_rows (\<lambda>r. u_id r = i)
        (touched user_stamp now (\<lambda>r. r\<lparr>u_password_hash := Some h\<rparr>)) (db_users d)\<rparr>)"

definition users_set_password_hash :: "env \<Rightarrow> uuid \<Rightarrow> string \<Rightarrow> (DbError, unit) act" where
  "users_set_password_hash E i h = sql E (users_set_password_hash_stmt i h)"

definition users_deactivate_stmt :: "uuid \<Rightarrow> unit stmt" where
  "users_deactivate_stmt i now d =
     (Inr (), d\<lparr>db_users := update_rows (\<lambda>r. u_id r = i)
        (touched user_stamp now (\<lambda>r. r\<lparr>u_is_active := False\<rparr>)) (db_users d)\<rparr>)"

definition users_deactivate :: "env \<Rightarrow> uuid \<Rightarrow> (DbError, unit) act" where
  "users_deactivate E i = sql E (users_deactivate_stmt i)"

section \<open>workflow\_definitions\<close>

definition row_into_model :: "env \<Rightarrow> definition_row \<Rightarrow> DbError + WorkflowDefinition" where
  "row_into_model E r =
     (let corrupt = CorruptJson ''workflow_definition'' (env_uuid_str E (wr_id r));
          with_mapping = (\<lambda>graph mapping.
            \<lparr>wd_id = wr_id r, wd_name = wr_name r, wd_version = wr_version r, wd_graph = graph,
             wd_field_mapping = mapping, wd_target_system = wr_target_system r,
             wd_is_published = wr_is_published r, wd_created_by = wr_created_by r,
             wd_created_at = wr_created_at r, wd_updated_at = wr_updated_at r\<rparr>)
      in case env_graph_of_json E (wr_definition_json r) of
           None \<Rightarrow> Inl corrupt
         | Some graph \<Rightarrow>
             (case wr_field_mapping_json r of
                None \<Rightarrow> Inr (with_mapping graph None)
              | Some j \<Rightarrow>
                  (case env_mapping_of_json E j of
                     None \<Rightarrow> Inl corrupt
                   | Some mapping \<Rightarrow> Inr (with_mapping graph (Some mapping)))))"

definition definitions_create_stmt ::
    "env \<Rightarrow> uuid \<Rightarrow> NewWorkflowDefinition \<Rightarrow> uuid \<Rightarrow> unit stmt" where
  "definitions_create_stmt E i new created_by now d =
     insert_if
       (i \<notin> definition_ids d \<and>
        (env_collate E (nwd_name new), 1) \<notin>
          (\<lambda>r. (env_collate E (wr_name r), wr_version r)) ` set (db_definitions d) \<and>
        created_by \<in> user_ids d)
       (d\<lparr>db_definitions := db_definitions d @
          [\<lparr>wr_id = i, wr_name = nwd_name new, wr_version = 1,
            wr_definition_json = env_graph_to_json E (nwd_graph new),
            wr_field_mapping_json = map_option (env_mapping_to_json E) (nwd_field_mapping new),
            wr_target_system = nwd_target_system new, wr_is_published = False,
            wr_created_by = Some created_by, wr_created_at = now, wr_updated_at = now\<rparr>]\<rparr>) d"

definition definitions_get_by_id :: "env \<Rightarrow> uuid \<Rightarrow> (DbError, WorkflowDefinition option) act" where
  "definitions_get_by_id E i =
     bindM (sql E (query (\<lambda>now d. find_row (\<lambda>r. wr_id r = i) (db_definitions d)))) (\<lambda>row.
     case row of
       None \<Rightarrow> return None
     | Some r \<Rightarrow> bindM (lift_sum (row_into_model E r)) (\<lambda>m. return (Some m)))"

definition definitions_create ::
    "env \<Rightarrow> NewWorkflowDefinition \<Rightarrow> uuid \<Rightarrow> (DbError, WorkflowDefinition) act" where
  "definitions_create E new created_by =
     bindM (new_uuid E) (\<lambda>i.
     bindM (sql E (definitions_create_stmt E i new created_by)) (\<lambda>_.
     bindM (definitions_get_by_id E i) (\<lambda>r.
     ok_or (NotFound ''workflow_definition'' (env_uuid_str E i)) r)))"

definition definitions_list :: "env \<Rightarrow> bool \<Rightarrow> (DbError, WorkflowDefinition list) act" where
  "definitions_list E published_only =
     bindM (sql E (query (\<lambda>now d.
       order_by (\<lambda>r. (env_collate E (wr_name r), - sint (wr_version r)))
         (filter (\<lambda>r. published_only \<longrightarrow> wr_is_published r) (db_definitions d)))))
       (mapM (\<lambda>r. lift_sum (row_into_model E r)))"

definition definitions_set_published_stmt :: "uuid \<Rightarrow> bool \<Rightarrow> unit stmt" where
  "definitions_set_published_stmt i is_published now d =
     (Inr (), d\<lparr>db_definitions := update_rows (\<lambda>r. wr_id r = i)
        (touched (\<lambda>now r. r\<lparr>wr_updated_at := now\<rparr>) now (\<lambda>r. r\<lparr>wr_is_published := is_published\<rparr>))
        (db_definitions d)\<rparr>)"

definition definitions_set_published :: "env \<Rightarrow> uuid \<Rightarrow> bool \<Rightarrow> (DbError, unit) act" where
  "definitions_set_published E i is_published = sql E (definitions_set_published_stmt i is_published)"

section \<open>catalog\<close>

definition catalog_create_stmt ::
    "env \<Rightarrow> uuid \<Rightarrow> NewServiceCatalogItem \<Rightarrow> uuid \<Rightarrow> unit stmt" where
  "catalog_create_stmt E i new created_by now d =
     insert_if
       (i \<notin> item_ids d \<and>
        (nci_slug new \<noteq> None \<longrightarrow>
           map_option (env_collate E) (nci_slug new) \<notin>
           (\<lambda>r. map_option (env_collate E) (ci_slug r)) ` set (db_items d)) \<and>
        nci_workflow_definition_id new \<in> definition_ids d \<and> created_by \<in> user_ids d)
       (d\<lparr>db_items := db_items d @
          [\<lparr>ci_id = i, ci_slug = nci_slug new, ci_name = nci_name new,
            ci_description = nci_description new, ci_summary = nci_summary new,
            ci_details_json = nci_details new, ci_approval_label = nci_approval_label new,
            ci_target_value = nci_target_value new, ci_target_unit = nci_target_unit new,
            ci_category = nci_category new, ci_icon = nci_icon new,
            ci_sort_order = nci_sort_order new,
            ci_workflow_definition_id = nci_workflow_definition_id new, ci_is_active = True,
            ci_created_by = Some created_by, ci_created_at = now, ci_updated_at = now\<rparr>]\<rparr>) d"

definition catalog_get_by_id :: "env \<Rightarrow> uuid \<Rightarrow> (DbError, ServiceCatalogItem option) act" where
  "catalog_get_by_id E i = sql E (query (\<lambda>now d. find_row (\<lambda>r. ci_id r = i) (db_items d)))"

definition catalog_create ::
    "env \<Rightarrow> NewServiceCatalogItem \<Rightarrow> uuid \<Rightarrow> (DbError, ServiceCatalogItem) act" where
  "catalog_create E new created_by =
     bindM (new_uuid E) (\<lambda>i.
     bindM (sql E (catalog_create_stmt E i new created_by)) (\<lambda>_.
     bindM (catalog_get_by_id E i) (\<lambda>r.
     ok_or (NotFound ''service_catalog_item'' (env_uuid_str E i)) r)))"

definition catalog_get_by_slug :: "env \<Rightarrow> string \<Rightarrow> (DbError, ServiceCatalogItem option) act" where
  "catalog_get_by_slug E slug =
     sql E (query (\<lambda>now d. find_row
       (\<lambda>r. case ci_slug r of None \<Rightarrow> False | Some s \<Rightarrow> same_text E s slug) (db_items d)))"

definition catalog_list :: "env \<Rightarrow> bool \<Rightarrow> (DbError, ServiceCatalogItem list) act" where
  "catalog_list E include_inactive =
     sql E (query (\<lambda>now d. order_by
       (\<lambda>r. (map_option (env_collate E) (ci_category r), sint (ci_sort_order r),
             env_collate E (ci_name r)))
       (filter (\<lambda>r. include_inactive \<or> ci_is_active r) (db_items d))))"

abbreviation item_stamp :: "timestamp \<Rightarrow> ServiceCatalogItem \<Rightarrow> ServiceCatalogItem" where
  "item_stamp now r \<equiv> r\<lparr>ci_updated_at := now\<rparr>"

definition catalog_update_stmt :: "uuid \<Rightarrow> UpdateServiceCatalogItem \<Rightarrow> unit stmt" where
  "catalog_update_stmt i patch now d =
     (Inr (), d\<lparr>db_items := update_rows (\<lambda>r. ci_id r = i)
        (touched item_stamp now (\<lambda>r. r\<lparr>
           ci_name := coalesce (uci_name patch) (ci_name r),
           ci_description := coalesce_opt (uci_description patch) (ci_description r),
           ci_summary := coalesce_opt (uci_summary patch) (ci_summary r),
           ci_details_json := coalesce_opt (uci_details patch) (ci_details_json r),
           ci_approval_label := coalesce_opt (uci_approval_label patch) (ci_approval_label r),
           ci_target_value := coalesce_opt (uci_target_value patch) (ci_target_value r),
           ci_target_unit := coalesce_opt (uci_target_unit patch) (ci_target_unit r),
           ci_category := coalesce_opt (uci_category patch) (ci_category r),
           ci_icon := coalesce_opt (uci_icon patch) (ci_icon r),
           ci_sort_order := coalesce (uci_sort_order patch) (ci_sort_order r),
           ci_is_active := coalesce (uci_is_active patch) (ci_is_active r)\<rparr>))
        (db_items d)\<rparr>)"

definition catalog_update ::
    "env \<Rightarrow> uuid \<Rightarrow> UpdateServiceCatalogItem \<Rightarrow> (DbError, ServiceCatalogItem option) act" where
  "catalog_update E i patch =
     bindM (sql E (catalog_update_stmt i patch)) (\<lambda>_. catalog_get_by_id E i)"

definition catalog_deactivate_stmt :: "uuid \<Rightarrow> unit stmt" where
  "catalog_deactivate_stmt i now d =
     (Inr (), d\<lparr>db_items := update_rows (\<lambda>r. ci_id r = i)
        (touched item_stamp now (\<lambda>r. r\<lparr>ci_is_active := False\<rparr>)) (db_items d)\<rparr>)"

definition catalog_deactivate :: "env \<Rightarrow> uuid \<Rightarrow> (DbError, unit) act" where
  "catalog_deactivate E i = sql E (catalog_deactivate_stmt i)"

section \<open>instances\<close>

definition instances_create_stmt :: "uuid \<Rightarrow> uuid \<Rightarrow> uuid \<Rightarrow> uuid \<Rightarrow> string \<Rightarrow> unit stmt" where
  "instances_create_stmt i definition_id item_id requester_id entry_step_id now d =
     insert_if
       (i \<notin> instance_ids d \<and> definition_id \<in> definition_ids d \<and> item_id \<in> item_ids d \<and>
        requester_id \<in> user_ids d)
       (d\<lparr>db_instances := db_instances d @
          [\<lparr>wi_id = i, wi_workflow_definition_id = definition_id, wi_catalog_item_id = item_id,
            wi_requester_user_id = requester_id, wi_status = InProgress,
            wi_current_step_id = entry_step_id, wi_answers_json = JObject [],
            wi_created_at = now, wi_updated_at = now, wi_completed_at = None\<rparr>]\<rparr>) d"

definition instances_get_by_id :: "env \<Rightarrow> uuid \<Rightarrow> (DbError, WorkflowInstance option) act" where
  "instances_get_by_id E i = sql E (query (\<lambda>now d. find_row (\<lambda>r. wi_id r = i) (db_instances d)))"

definition instances_create ::
    "env \<Rightarrow> uuid \<Rightarrow> uuid \<Rightarrow> uuid \<Rightarrow> string \<Rightarrow> (DbError, WorkflowInstance) act" where
  "instances_create E definition_id item_id requester_id entry_step_id =
     bindM (new_uuid E) (\<lambda>i.
     bindM (sql E (instances_create_stmt i definition_id item_id requester_id entry_step_id)) (\<lambda>_.
     bindM (instances_get_by_id E i) (\<lambda>r.
     ok_or (NotFound ''workflow_instance'' (env_uuid_str E i)) r)))"

definition instances_list_for_requester :: "env \<Rightarrow> uuid \<Rightarrow> (DbError, WorkflowInstance list) act" where
  "instances_list_for_requester E requester_id =
     sql E (query (\<lambda>now d. order_by_desc wi_created_at
       (filter (\<lambda>r. wi_requester_user_id r = requester_id) (db_instances d))))"

definition instances_list_awaiting_approval :: "env \<Rightarrow> (DbError, WorkflowInstance list) act" where
  "instances_list_awaiting_approval E =
     sql E (query (\<lambda>now d. order_by wi_created_at
       (filter (\<lambda>r. wi_status r = AwaitingApprovalStatus) (db_instances d))))"

fun is_terminal :: "InstanceStatus \<Rightarrow> bool" where
  "is_terminal Completed = True"
| "is_terminal Rejected = True"
| "is_terminal Cancelled = True"
| "is_terminal Failed = True"
| "is_terminal _ = False"

text \<open>The row an \<^verbatim>\<open>UPDATE\<close> of \<^verbatim>\<open>save_progress\<close> leaves behind.\<close>

definition progress_row ::
    "string \<Rightarrow> json \<Rightarrow> InstanceStatus \<Rightarrow> timestamp \<Rightarrow> WorkflowInstance \<Rightarrow> WorkflowInstance" where
  "progress_row step_id answers_json status now =
     touched (\<lambda>now r. r\<lparr>wi_updated_at := now\<rparr>) now (\<lambda>r. r\<lparr>
       wi_current_step_id := step_id, wi_answers_json := answers_json, wi_status := status,
       wi_completed_at := (if is_terminal status then Some now else wi_completed_at r)\<rparr>)"

definition save_progress_stmt ::
    "uuid \<Rightarrow> string \<Rightarrow> json \<Rightarrow> InstanceStatus \<Rightarrow> unit stmt" where
  "save_progress_stmt i step_id answers_json status now d =
     (Inr (), d\<lparr>db_instances := update_rows (\<lambda>r. wi_id r = i)
        (progress_row step_id answers_json status now) (db_instances d)\<rparr>)"

definition save_progress ::
    "env \<Rightarrow> uuid \<Rightarrow> string \<Rightarrow> json \<Rightarrow> InstanceStatus \<Rightarrow> (DbError, WorkflowInstance option) act" where
  "save_progress E i step_id answers_json status =
     bindM (sql E (save_progress_stmt i step_id answers_json status)) (\<lambda>_. instances_get_by_id E i)"

section \<open>approvals\<close>

definition approvals_create_stmt ::
    "uuid \<Rightarrow> uuid \<Rightarrow> string \<Rightarrow> uuid \<Rightarrow> timestamp option \<Rightarrow> unit stmt" where
  "approvals_create_stmt i instance_id step_id approver_id expires_at now d =
     insert_if
       (i \<notin> pa_id ` set (db_approvals d) \<and> instance_id \<in> instance_ids d \<and> approver_id \<in> user_ids d)
       (d\<lparr>db_approvals := db_approvals d @
          [\<lparr>pa_id = i, pa_workflow_instance_id = instance_id, pa_step_id = step_id,
            pa_approver_user_id = approver_id, pa_status = Pending, pa_comment = None,
            pa_decided_at = None, pa_expires_at = expires_at, pa_created_at = now\<rparr>]\<rparr>) d"

definition approvals_get_by_id :: "env \<Rightarrow> uuid \<Rightarrow> (DbError, PendingApproval option) act" where
  "approvals_get_by_id E i = sql E (query (\<lambda>now d. find_row (\<lambda>r. pa_id r = i) (db_approvals d)))"

definition approvals_create ::
    "env \<Rightarrow> uuid \<Rightarrow> string \<Rightarrow> uuid \<Rightarrow> timestamp option \<Rightarrow> (DbError, PendingApproval) act" where
  "approvals_create E instance_id step_id approver_id expires_at =
     bindM (new_uuid E) (\<lambda>i.
     bindM (sql E (approvals_create_stmt i instance_id step_id approver_id expires_at)) (\<lambda>_.
     bindM (approvals_get_by_id E i) (\<lambda>r.
     ok_or (NotFound ''pending_approval'' (env_uuid_str E i)) r)))"

definition approvals_list_pending_for_approver :: "env \<Rightarrow> uuid \<Rightarrow> (DbError, PendingApproval list) act" where
  "approvals_list_pending_for_approver E approver_id =
     sql E (query (\<lambda>now d. order_by pa_created_at
       (filter (\<lambda>r. pa_approver_user_id r = approver_id \<and> pa_status r = Pending) (db_approvals d))))"

definition approvals_list_expired :: "env \<Rightarrow> (DbError, PendingApproval list) act" where
  "approvals_list_expired E =
     sql E (query (\<lambda>now d. filter
       (\<lambda>r. pa_status r = Pending \<and>
          (case pa_expires_at r of None \<Rightarrow> False | Some t \<Rightarrow> t \<le> now)) (db_approvals d)))"

definition approvals_decide_stmt ::
    "uuid \<Rightarrow> ApprovalStatus \<Rightarrow> string option \<Rightarrow> nat stmt" where
  "approvals_decide_stmt i status comment now d =
     (let P = (\<lambda>r. pa_id r = i \<and> pa_status r = Pending) in
      (Inr (length (filter P (db_approvals d))),
       d\<lparr>db_approvals := update_rows P
          (\<lambda>r. r\<lparr>pa_status := status, pa_comment := comment, pa_decided_at := Some now\<rparr>)
          (db_approvals d)\<rparr>))"

definition approvals_decide ::
    "env \<Rightarrow> uuid \<Rightarrow> ApprovalStatus \<Rightarrow> string option \<Rightarrow> (DbError, bool) act" where
  "approvals_decide E i status comment =
     bindM (sql E (approvals_decide_stmt i status comment)) (\<lambda>rows_affected.
     return (rows_affected > 0))"

section \<open>tickets\<close>

definition tickets_create_stmt :: "uuid \<Rightarrow> uuid \<Rightarrow> TargetSystem \<Rightarrow> json \<Rightarrow> unit stmt" where
  "tickets_create_stmt i instance_id target payload now d =
     insert_if (i \<notin> t_id ` set (db_tickets d) \<and> instance_id \<in> instance_ids d)
       (d\<lparr>db_tickets := db_tickets d @
          [\<lparr>t_id = i, t_workflow_instance_id = instance_id, t_target_system = target,
            t_rendered_payload_json = payload, t_external_ticket_id = None,
            t_external_ticket_url = None, t_dispatch_status = DPending, t_last_error = None,
            t_created_at = now, t_updated_at = now\<rparr>]\<rparr>) d"

definition tickets_get_by_id :: "env \<Rightarrow> uuid \<Rightarrow> (DbError, Ticket option) act" where
  "tickets_get_by_id E i = sql E (query (\<lambda>now d. find_row (\<lambda>r. t_id r = i) (db_tickets d)))"

definition tickets_create :: "env \<Rightarrow> uuid \<Rightarrow> TargetSystem \<Rightarrow> json \<Rightarrow> (DbError, Ticket) act" where
  "tickets_create E instance_id target payload =
     bindM (new_uuid E) (\<lambda>i.
     bindM (sql E (tickets_create_stmt i instance_id target payload)) (\<lambda>_.
     bindM (tickets_get_by_id E i) (\<lambda>r.
     ok_or (NotFound ''ticket'' (env_uuid_str E i)) r)))"

definition tickets_get_by_instance_id :: "env \<Rightarrow> uuid \<Rightarrow> (DbError, Ticket option) act" where
  "tickets_get_by_instance_id E instance_id =
     sql E (query (\<lambda>now d. find_row (\<lambda>_. True) (order_by_desc t_created_at
       (filter (\<lambda>r. t_workflow_instance_id r = instance_id) (db_tickets d)))))"

definition tickets_list_pending_dispatch :: "env \<Rightarrow> (DbError, Ticket list) act" where
  "tickets_list_pending_dispatch E =
     sql E (query (\<lambda>now d. order_by t_created_at
       (filter (\<lambda>r. t_dispatch_status r = DPending) (db_tickets d))))"

abbreviation ticket_stamp :: "timestamp \<Rightarrow> Ticket \<Rightarrow> Ticket" where
  "ticket_stamp now r \<equiv> r\<lparr>t_updated_at := now\<rparr>"

definition tickets_mark_sent_stmt :: "uuid \<Rightarrow> string \<Rightarrow> string option \<Rightarrow> unit stmt" where
  "tickets_mark_sent_stmt i external_id external_url now d =
     (Inr (), d\<lparr>db_tickets := update_rows (\<lambda>r. t_id r = i)
        (touched ticket_stamp now (\<lambda>r. r\<lparr>t_dispatch_status := Sent,
           t_external_ticket_id := Some external_id, t_external_ticket_url := external_url,
           t_last_error := None\<rparr>)) (db_tickets d)\<rparr>)"

definition tickets_mark_sent :: "env \<Rightarrow> uuid \<Rightarrow> string \<Rightarrow> string option \<Rightarrow> (DbError, unit) act" where
  "tickets_mark_sent E i external_id external_url =
     sql E (tickets_mark_sent_stmt i external_id external_url)"

definition tickets_mark_failed_stmt :: "uuid \<Rightarrow> string \<Rightarrow> unit stmt" where
  "tickets_mark_failed_stmt i err now d =
     (Inr (), d\<lparr>db_tickets := update_rows (\<lambda>r. t_id r = i)
        (touched ticket_stamp now (\<lambda>r. r\<lparr>t_dispatch_status := DFailed, t_last_error := Some err\<rparr>))
        (db_tickets d)\<rparr>)"

definition tickets_mark_failed :: "env \<Rightarrow> uuid \<Rightarrow> string \<Rightarrow> (DbError, unit) act" where
  "tickets_mark_failed E i err = sql E (tickets_mark_failed_stmt i err)"

definition tickets_set_dispatch_status_stmt :: "uuid \<Rightarrow> DispatchStatus \<Rightarrow> unit stmt" where
  "tickets_set_dispatch_status_stmt i status now d =
     (Inr (), d\<lparr>db_tickets := update_rows (\<lambda>r. t_id r = i)
        (touched ticket_stamp now (\<lambda>r. r\<lparr>t_dispatch_status := status\<rparr>)) (db_tickets d)\<rparr>)"

definition tickets_set_dispatch_status :: "env \<Rightarrow> uuid \<Rightarrow> DispatchStatus \<Rightarrow> (DbError, unit) act" where
  "tickets_set_dispatch_status E i status = sql E (tickets_set_dispatch_status_stmt i status)"

section \<open>audit\<close>

definition audit_record_stmt :: "uuid \<Rightarrow> NewAuditLogEntry \<Rightarrow> unit stmt" where
  "audit_record_stmt i entry now d =
     insert_if (i \<notin> al_id ` set (db_audit d) \<and> fk_opt (nal_actor_user_id entry) (user_ids d))
       (d\<lparr>db_audit := db_audit d @
          [\<lparr>al_id = i, al_actor_user_id = nal_actor_user_id entry, al_action = nal_action entry,
            al_entity_type = nal_entity_type entry, al_entity_id = nal_entity_id entry,
            al_metadata_json = nal_metadata_json entry, al_created_at = now\<rparr>]\<rparr>) d"

definition audit_record :: "env \<Rightarrow> NewAuditLogEntry \<Rightarrow> (DbError, unit) act" where
  "audit_record E entry = bindM (new_uuid E) (\<lambda>i. sql E (audit_record_stmt i entry))"

text \<open>\<^verbatim>\<open>ORDER BY created_at DESC, id DESC LIMIT ? OFFSET ?\<close>: MySQL refuses a negative limit or
  offset. The offset is the \<^verbatim>\<open>i64\<close> product of an optimised build, which wraps.\<close>

definition audit_order :: "AuditLogEntry list \<Rightarrow> AuditLogEntry list" where
  "audit_order rows = order_by (\<lambda>r. (- al_created_at r, - uint (al_id r))) rows"

definition audit_offset :: "i64 \<Rightarrow> i64 \<Rightarrow> i64" where
  "audit_offset page page_size = (if page <s 0 then 0 else page) * page_size"

definition audit_list_stmt :: "i64 \<Rightarrow> i64 \<Rightarrow> AuditLogEntry list stmt" where
  "audit_list_stmt page page_size now d =
     (let offset = audit_offset page page_size in
      if page_size <s 0 \<or> offset <s 0 then (Inl ConstraintViolation, d)
      else (Inr (take (unat page_size) (drop (unat offset) (audit_order (db_audit d)))), d))"

definition audit_list :: "env \<Rightarrow> i64 \<Rightarrow> i64 \<Rightarrow> (DbError, AuditLogEntry list) act" where
  "audit_list E page page_size = sql E (audit_list_stmt page page_size)"

definition audit_count :: "env \<Rightarrow> (DbError, i64) act" where
  "audit_count E = sql E (query (\<lambda>now d. of_nat (length (db_audit d))))"

section \<open>org\_settings\<close>

definition org_settings_seed_default_stmt :: "string option \<Rightarrow> bool \<Rightarrow> unit stmt" where
  "org_settings_seed_default_stmt app_name allow_local_signup now d =
     (Inr (), case db_org_settings d of
        Some _ \<Rightarrow> d
      | None \<Rightarrow> d\<lparr>db_org_settings := Some
          \<lparr>os_app_name = coalesce app_name ''ServCat'', os_logo_url = None,
           os_allow_local_signup = allow_local_signup, os_timezone = ''UTC'',
           os_updated_at = now\<rparr>\<rparr>)"

definition org_settings_seed_default :: "env \<Rightarrow> string option \<Rightarrow> bool \<Rightarrow> (DbError, unit) act" where
  "org_settings_seed_default E app_name allow_local_signup =
     sql E (org_settings_seed_default_stmt app_name allow_local_signup)"

definition org_settings_get_stmt :: "OrgSettings stmt" where
  "org_settings_get_stmt now d =
     (case db_org_settings d of None \<Rightarrow> Inl RowNotFound | Some s \<Rightarrow> Inr s, d)"

definition org_settings_get :: "env \<Rightarrow> (DbError, OrgSettings) act" where
  "org_settings_get E = sql E org_settings_get_stmt"

abbreviation settings_stamp :: "timestamp \<Rightarrow> OrgSettings \<Rightarrow> OrgSettings" where
  "settings_stamp now r \<equiv> r\<lparr>os_updated_at := now\<rparr>"

definition org_settings_update_stmt :: "UpdateOrgSettings \<Rightarrow> unit stmt" where
  "org_settings_update_stmt patch now d =
     (Inr (), d\<lparr>db_org_settings := map_option (touched settings_stamp now (\<lambda>r. r\<lparr>
        os_app_name := coalesce (uos_app_name patch) (os_app_name r),
        os_allow_local_signup := coalesce (uos_allow_local_signup patch) (os_allow_local_signup r),
        os_timezone := coalesce (uos_timezone patch) (os_timezone r)\<rparr>)) (db_org_settings d)\<rparr>)"

definition org_settings_update :: "env \<Rightarrow> UpdateOrgSettings \<Rightarrow> (DbError, OrgSettings) act" where
  "org_settings_update E patch =
     bindM (sql E (org_settings_update_stmt patch)) (\<lambda>_. org_settings_get E)"

definition org_settings_set_logo_url_stmt :: "string option \<Rightarrow> unit stmt" where
  "org_settings_set_logo_url_stmt url now d =
     (Inr (), d\<lparr>db_org_settings :=
        map_option (touched settings_stamp now (\<lambda>r. r\<lparr>os_logo_url := url\<rparr>)) (db_org_settings d)\<rparr>)"

definition org_settings_set_logo_url :: "env \<Rightarrow> string option \<Rightarrow> (DbError, OrgSettings) act" where
  "org_settings_set_logo_url E url =
     bindM (sql E (org_settings_set_logo_url_stmt url)) (\<lambda>_. org_settings_get E)"

section \<open>Statements of \<^verbatim>\<open>server/src/auth.rs\<close>\<close>

definition sessions_create_stmt ::
    "env \<Rightarrow> uuid \<Rightarrow> uuid \<Rightarrow> string \<Rightarrow> string option \<Rightarrow> string option \<Rightarrow> timestamp \<Rightarrow> unit stmt" where
  "sessions_create_stmt E i user_id token_hash user_agent ip_address expires_at now d =
     insert_if
       (i \<notin> ss_id ` set (db_sessions d) \<and>
        env_collate E token_hash \<notin>
          (\<lambda>r. env_collate E (ss_refresh_token_hash r)) ` set (db_sessions d) \<and>
        user_id \<in> user_ids d)
       (d\<lparr>db_sessions := db_sessions d @
          [\<lparr>ss_id = i, ss_user_id = user_id, ss_refresh_token_hash = token_hash,
            ss_user_agent = user_agent, ss_ip_address = ip_address, ss_expires_at = expires_at,
            ss_revoked_at = None, ss_created_at = now\<rparr>]\<rparr>) d"

definition sessions_find_live :: "env \<Rightarrow> string \<Rightarrow> timestamp \<Rightarrow> db \<Rightarrow> (uuid \<times> uuid) option" where
  "sessions_find_live E token_hash now d =
     map_option (\<lambda>r. (ss_id r, ss_user_id r))
       (find_row (\<lambda>r. same_text E (ss_refresh_token_hash r) token_hash \<and> ss_revoked_at r = None \<and>
          ss_expires_at r > now) (db_sessions d))"

definition sessions_revoke_stmt :: "uuid \<Rightarrow> unit stmt" where
  "sessions_revoke_stmt i now d =
     (Inr (), d\<lparr>db_sessions := update_rows (\<lambda>r. ss_id r = i)
        (\<lambda>r. r\<lparr>ss_revoked_at := Some now\<rparr>) (db_sessions d)\<rparr>)"

definition sessions_revoke_all_stmt :: "uuid \<Rightarrow> unit stmt" where
  "sessions_revoke_all_stmt user_id now d =
     (Inr (), d\<lparr>db_sessions := update_rows (\<lambda>r. ss_user_id r = user_id \<and> ss_revoked_at r = None)
        (\<lambda>r. r\<lparr>ss_revoked_at := Some now\<rparr>) (db_sessions d)\<rparr>)"

definition password_resets_create_stmt ::
    "env \<Rightarrow> uuid \<Rightarrow> uuid \<Rightarrow> string \<Rightarrow> timestamp \<Rightarrow> unit stmt" where
  "password_resets_create_stmt E i user_id token_hash expires_at now d =
     insert_if
       (i \<notin> pr_id ` set (db_password_resets d) \<and>
        env_collate E token_hash \<notin>
          (\<lambda>r. env_collate E (pr_token_hash r)) ` set (db_password_resets d) \<and>
        user_id \<in> user_ids d)
       (d\<lparr>db_password_resets := db_password_resets d @
          [\<lparr>pr_id = i, pr_user_id = user_id, pr_token_hash = token_hash,
            pr_expires_at = expires_at, pr_used_at = None, pr_created_at = now\<rparr>]\<rparr>) d"

definition password_resets_find_live :: "env \<Rightarrow> string \<Rightarrow> timestamp \<Rightarrow> db \<Rightarrow> (uuid \<times> uuid) option" where
  "password_resets_find_live E token_hash now d =
     map_option (\<lambda>r. (pr_id r, pr_user_id r))
       (find_row (\<lambda>r. same_text E (pr_token_hash r) token_hash \<and> pr_used_at r = None \<and>
          pr_expires_at r > now) (db_password_resets d))"

definition password_resets_use_stmt :: "uuid \<Rightarrow> unit stmt" where
  "password_resets_use_stmt i now d =
     (Inr (), d\<lparr>db_password_resets := update_rows (\<lambda>r. pr_id r = i)
        (\<lambda>r. r\<lparr>pr_used_at := Some now\<rparr>) (db_password_resets d)\<rparr>)"

section \<open>Every statement keeps the schema's promise\<close>

lemma ball_update_rows:
  "(\<forall>r \<in> set (update_rows P f t). Q r) \<longleftrightarrow> (\<forall>r \<in> set t. if P r then Q (f r) else Q r)"
  by (auto simp: set_update_rows)

lemma table_ok_mono:
  "users_ok E A t1 \<Longrightarrow> A \<subseteq> A' \<Longrightarrow> users_ok E A' t1"
  "sessions_ok E A t2 \<Longrightarrow> A \<subseteq> A' \<Longrightarrow> sessions_ok E A' t2"
  "password_resets_ok E A t3 \<Longrightarrow> A \<subseteq> A' \<Longrightarrow> password_resets_ok E A' t3"
  "definitions_ok E A t4 \<Longrightarrow> A \<subseteq> A' \<Longrightarrow> definitions_ok E A' t4"
  "items_ok E A B t5 \<Longrightarrow> A \<subseteq> A' \<Longrightarrow> B \<subseteq> B' \<Longrightarrow> items_ok E A' B' t5"
  "instances_ok A B C t6 \<Longrightarrow> A \<subseteq> A' \<Longrightarrow> B \<subseteq> B' \<Longrightarrow> C \<subseteq> C' \<Longrightarrow> instances_ok A' B' C' t6"
  "approvals_ok A B t7 \<Longrightarrow> A \<subseteq> A' \<Longrightarrow> B \<subseteq> B' \<Longrightarrow> approvals_ok A' B' t7"
  "tickets_ok A t8 \<Longrightarrow> A \<subseteq> A' \<Longrightarrow> tickets_ok A' t8"
  "audit_ok A t9 \<Longrightarrow> A \<subseteq> A' \<Longrightarrow> audit_ok A' t9"
  by (auto simp: table_ok_defs intro: fk_opt_mono)

lemma stmt_keepsD: "stmt_keeps I s \<Longrightarrow> I d \<Longrightarrow> I (snd (s now d))"
  by (simp add: stmt_keeps_def)

lemmas wf_simps = stmt_keeps_def insert_if_snd db_wf_def Let_def
lemmas row_simps = uniq_append1 uniq_opt_append1 uniq_update uniq_opt_update image_update_rows
  ball_update_rows touched_def

lemma departments_create_wf: "stmt_keeps (db_wf E) (departments_create_stmt E i new)"
  by (auto simp: wf_simps departments_create_stmt_def departments_ok_def row_simps
      elim!: table_ok_mono intro: fk_opt_mono)

lemma departments_update_wf: "stmt_keeps (db_wf E) (departments_update_stmt E i patch)"
  by (simp add: wf_simps departments_update_stmt_def row_simps)

lemma departments_set_logo_url_wf: "stmt_keeps (db_wf E) (departments_set_logo_url_stmt i url)"
  by (simp add: wf_simps departments_set_logo_url_stmt_def departments_ok_def row_simps)

lemma users_create_wf: "stmt_keeps (db_wf E) (users_create_stmt E i new h)"
  by (auto simp: wf_simps users_create_stmt_def users_ok_def row_simps
      elim!: table_ok_mono intro: fk_opt_mono)

lemma users_update_wf: "stmt_keeps (db_wf E) (users_update_stmt E i patch)"
  by (simp add: wf_simps users_update_stmt_def row_simps)

lemma users_link_external_idp_subject_wf:
  "stmt_keeps (db_wf E) (users_link_external_idp_subject_stmt E i s)"
  by (simp add: wf_simps users_link_external_idp_subject_stmt_def row_simps)

lemma users_set_password_hash_wf: "stmt_keeps (db_wf E) (users_set_password_hash_stmt i h)"
  by (simp add: wf_simps users_set_password_hash_stmt_def users_ok_def row_simps)

lemma users_deactivate_wf: "stmt_keeps (db_wf E) (users_deactivate_stmt i)"
  by (simp add: wf_simps users_deactivate_stmt_def users_ok_def row_simps)

lemma definitions_create_wf: "stmt_keeps (db_wf E) (definitions_create_stmt E i new u)"
  by (auto simp: wf_simps definitions_create_stmt_def definitions_ok_def row_simps
      elim!: table_ok_mono)

lemma definitions_set_published_wf: "stmt_keeps (db_wf E) (definitions_set_published_stmt i b)"
  by (simp add: wf_simps definitions_set_published_stmt_def definitions_ok_def row_simps)

lemma catalog_create_wf: "stmt_keeps (db_wf E) (catalog_create_stmt E i new u)"
  by (auto simp: wf_simps catalog_create_stmt_def items_ok_def row_simps elim!: table_ok_mono)

lemma catalog_update_wf: "stmt_keeps (db_wf E) (catalog_update_stmt i patch)"
  by (simp add: wf_simps catalog_update_stmt_def items_ok_def row_simps)

lemma catalog_deactivate_wf: "stmt_keeps (db_wf E) (catalog_deactivate_stmt i)"
  by (simp add: wf_simps catalog_deactivate_stmt_def items_ok_def row_simps)

lemma instances_create_wf: "stmt_keeps (db_wf E) (instances_create_stmt i a b c s)"
  by (auto simp: wf_simps instances_create_stmt_def instances_ok_def row_simps elim!: table_ok_mono)

lemma progress_row_simps [simp]:
  "wi_id (progress_row s j st now r) = wi_id r"
  "wi_workflow_definition_id (progress_row s j st now r) = wi_workflow_definition_id r"
  "wi_catalog_item_id (progress_row s j st now r) = wi_catalog_item_id r"
  "wi_requester_user_id (progress_row s j st now r) = wi_requester_user_id r"
  "wi_status (progress_row s j st now r) = st"
  "wi_current_step_id (progress_row s j st now r) = s"
  "wi_answers_json (progress_row s j st now r) = j"
  "wi_created_at (progress_row s j st now r) = wi_created_at r"
  "wi_completed_at (progress_row s j st now r) =
     (if is_terminal st then Some now else wi_completed_at r)"
  unfolding progress_row_def by (subst touched_proj; simp)+

lemma save_progress_wf: "stmt_keeps (db_wf E) (save_progress_stmt i s j st)"
  by (simp add: wf_simps save_progress_stmt_def instances_ok_def row_simps)

lemma approvals_create_wf: "stmt_keeps (db_wf E) (approvals_create_stmt i a s b x)"
  by (auto simp: wf_simps approvals_create_stmt_def approvals_ok_def row_simps)

lemma approvals_decide_wf: "stmt_keeps (db_wf E) (approvals_decide_stmt i st c)"
  by (simp add: wf_simps approvals_decide_stmt_def approvals_ok_def row_simps)

lemma tickets_create_wf: "stmt_keeps (db_wf E) (tickets_create_stmt i a s p)"
  by (auto simp: wf_simps tickets_create_stmt_def tickets_ok_def row_simps)

lemma tickets_mark_sent_wf: "stmt_keeps (db_wf E) (tickets_mark_sent_stmt i x u)"
  by (simp add: wf_simps tickets_mark_sent_stmt_def tickets_ok_def row_simps)

lemma tickets_mark_failed_wf: "stmt_keeps (db_wf E) (tickets_mark_failed_stmt i x)"
  by (simp add: wf_simps tickets_mark_failed_stmt_def tickets_ok_def row_simps)

lemma tickets_set_dispatch_status_wf: "stmt_keeps (db_wf E) (tickets_set_dispatch_status_stmt i x)"
  by (simp add: wf_simps tickets_set_dispatch_status_stmt_def tickets_ok_def row_simps)

lemma audit_record_wf: "stmt_keeps (db_wf E) (audit_record_stmt i entry)"
  by (auto simp: wf_simps audit_record_stmt_def audit_ok_def row_simps)

lemma audit_list_keeps [stmt_intros]: "stmt_keeps I (audit_list_stmt p n)"
  by (simp add: stmt_keeps_def audit_list_stmt_def Let_def)

lemma org_settings_wf:
  "stmt_keeps (db_wf E) (org_settings_seed_default_stmt a b)"
  "stmt_keeps (db_wf E) (org_settings_update_stmt patch)"
  "stmt_keeps (db_wf E) (org_settings_set_logo_url_stmt url)"
  by (simp_all add: wf_simps org_settings_seed_default_stmt_def
      org_settings_update_stmt_def org_settings_set_logo_url_stmt_def split: option.split)

lemma org_settings_get_keeps [stmt_intros]: "stmt_keeps I org_settings_get_stmt"
  by (simp add: stmt_keeps_def org_settings_get_stmt_def)

lemma uniq_filter: "uniq key t \<Longrightarrow> uniq key (filter P t)"
  by (simp add: uniq_def distinct_map_filter)

lemma fk_opt_remove: "fk_opt k A \<Longrightarrow> k \<noteq> Some i \<Longrightarrow> fk_opt k (A - {i})"
  by (cases k) auto

lemma departments_delete_wf: "stmt_keeps (db_wf E) (departments_delete_stmt i)"
proof (rule stmt_keepsI)
  fix now d assume wf: "db_wf E d"
  have ids: "d_id ` set (filter (\<lambda>r. d_id r \<noteq> i) (db_departments d)) = department_ids d - {i}"
    by auto
  have "departments_ok E (db_departments (snd (departments_delete_stmt i now d)))"
    using wf by (auto simp: db_wf_def departments_ok_def departments_delete_stmt_def row_simps
      uniq_filter ids simp del: set_filter dest!: subsetD [OF filter_is_subset] intro: fk_opt_remove)
  moreover have "users_ok E (department_ids (snd (departments_delete_stmt i now d)))
      (db_users (snd (departments_delete_stmt i now d)))"
    using wf by (auto simp: db_wf_def users_ok_def departments_delete_stmt_def row_simps ids
      simp del: set_filter intro: fk_opt_remove)
  ultimately show "db_wf E (snd (departments_delete_stmt i now d))"
    using wf by (simp add: db_wf_def departments_delete_stmt_def image_update_rows)
qed

lemma sessions_wf:
  "stmt_keeps (db_wf E) (sessions_create_stmt E i u h ua ip x)"
  "stmt_keeps (db_wf E) (sessions_revoke_stmt i)"
  "stmt_keeps (db_wf E) (sessions_revoke_all_stmt u)"
  by (auto simp: wf_simps sessions_create_stmt_def sessions_revoke_stmt_def
      sessions_revoke_all_stmt_def sessions_ok_def row_simps)

lemma password_resets_wf:
  "stmt_keeps (db_wf E) (password_resets_create_stmt E i u h x)"
  "stmt_keeps (db_wf E) (password_resets_use_stmt i)"
  by (auto simp: wf_simps password_resets_create_stmt_def password_resets_use_stmt_def
      password_resets_ok_def row_simps)

section \<open>Interleavings of statements\<close>

text \<open>One writing statement, sent by any handler at any time. The server's handlers run
  concurrently, so what the database goes through is some sequence of these steps; a
  property of every such sequence holds whatever the interleaving and wherever a handler
  stops.\<close>

inductive db_step :: "env \<Rightarrow> db \<Rightarrow> db \<Rightarrow> bool" for E :: env where
  "db_step E d (snd (departments_create_stmt E i nd now d))"
| "db_step E d (snd (departments_update_stmt E i ud now d))"
| "db_step E d (snd (departments_set_logo_url_stmt i url now d))"
| "db_step E d (snd (departments_delete_stmt i now d))"
| "db_step E d (snd (users_create_stmt E i nu h now d))"
| "db_step E d (snd (users_update_stmt E i uu now d))"
| "db_step E d (snd (users_link_external_idp_subject_stmt E i sub now d))"
| "db_step E d (snd (users_set_password_hash_stmt i ph now d))"
| "db_step E d (snd (users_deactivate_stmt i now d))"
| "db_step E d (snd (definitions_create_stmt E i nw u now d))"
| "db_step E d (snd (definitions_set_published_stmt i pub now d))"
| "db_step E d (snd (catalog_create_stmt E i ni u now d))"
| "db_step E d (snd (catalog_update_stmt i ui now d))"
| "db_step E d (snd (catalog_deactivate_stmt i now d))"
| "db_step E d (snd (instances_create_stmt i a b c s now d))"
| "db_step E d (snd (save_progress_stmt i s j st now d))"
| "db_step E d (snd (approvals_create_stmt i a s b x now d))"
| "db_step E d (snd (approvals_decide_stmt i ast cm now d))"
| "db_step E d (snd (tickets_create_stmt i a ts j now d))"
| "db_step E d (snd (tickets_mark_sent_stmt i xid xu now d))"
| "db_step E d (snd (tickets_mark_failed_stmt i err now d))"
| "db_step E d (snd (tickets_set_dispatch_status_stmt i ds now d))"
| "db_step E d (snd (audit_record_stmt i entry now d))"
| "db_step E d (snd (org_settings_seed_default_stmt an al now d))"
| "db_step E d (snd (org_settings_update_stmt uos now d))"
| "db_step E d (snd (org_settings_set_logo_url_stmt url now d))"
| "db_step E d (snd (sessions_create_stmt E i u h' ua ip ex now d))"
| "db_step E d (snd (sessions_revoke_stmt i now d))"
| "db_step E d (snd (sessions_revoke_all_stmt u now d))"
| "db_step E d (snd (password_resets_create_stmt E i u h' ex now d))"
| "db_step E d (snd (password_resets_use_stmt i now d))"

lemmas stmt_wf = departments_create_wf departments_update_wf departments_set_logo_url_wf
  departments_delete_wf users_create_wf users_update_wf users_link_external_idp_subject_wf
  users_set_password_hash_wf users_deactivate_wf definitions_create_wf definitions_set_published_wf
  catalog_create_wf catalog_update_wf catalog_deactivate_wf instances_create_wf save_progress_wf
  approvals_create_wf approvals_decide_wf tickets_create_wf tickets_mark_sent_wf
  tickets_mark_failed_wf tickets_set_dispatch_status_wf audit_record_wf org_settings_wf
  sessions_wf password_resets_wf

lemma db_step_wf: "db_step E d d' \<Longrightarrow> db_wf E d \<Longrightarrow> db_wf E d'"
  by (induction rule: db_step.induct) (rule stmt_wf [THEN stmt_keepsD], assumption)+

text \<open>Whatever \<open>d0\<close> reaches, it still reaches after the statement.\<close>

lemma db_steps_stmt:
  "(\<And>now d. db_step E d (snd (s now d))) \<Longrightarrow> stmt_keeps ((db_step E)\<^sup>*\<^sup>* d0) s"
  by (rule stmt_keepsI) (rule rtranclp.rtrancl_into_rtrancl)

lemmas db_steps_stmts [stmt_intros] = db_step.intros [THEN db_steps_stmt]

text \<open>Every repository operation acts through such steps: \<open>via_steps E m\<close>.\<close>

abbreviation via_steps :: "env \<Rightarrow> ('e, 'a) act \<Rightarrow> bool" where
  "via_steps E m \<equiv> \<forall>d0. keeps (\<lambda>w. (db_step E)\<^sup>*\<^sup>* d0 (w_db w)) m"

lemma via_stepsD: "via_steps E m \<Longrightarrow> (db_step E)\<^sup>*\<^sup>* (w_db w) (w_db (snd (m w)))"
  by (drule spec [of _ "w_db w"], drule keepsD) simp_all

lemmas read_op_defs = departments_get_by_id_def departments_list_def users_get_by_id_def
  users_get_by_email_def users_get_by_external_idp_subject_def users_list_def
  users_list_active_by_role_in_department_def definitions_get_by_id_def definitions_list_def
  catalog_get_by_id_def catalog_get_by_slug_def catalog_list_def instances_get_by_id_def
  instances_list_for_requester_def instances_list_awaiting_approval_def approvals_get_by_id_def
  approvals_list_pending_for_approver_def approvals_list_expired_def tickets_get_by_id_def
  tickets_get_by_instance_id_def tickets_list_pending_dispatch_def audit_list_def audit_count_def
  org_settings_get_def

lemma read_ops_keep [keeps_intros]:
  "keeps (\<lambda>w. I (w_db w)) (departments_get_by_id E i)"
  "keeps (\<lambda>w. I (w_db w)) (departments_list E)"
  "keeps (\<lambda>w. I (w_db w)) (users_get_by_id E i)"
  "keeps (\<lambda>w. I (w_db w)) (users_get_by_email E s)"
  "keeps (\<lambda>w. I (w_db w)) (users_get_by_external_idp_subject E s)"
  "keeps (\<lambda>w. I (w_db w)) (users_list E b)"
  "keeps (\<lambda>w. I (w_db w)) (users_list_active_by_role_in_department E r i)"
  "keeps (\<lambda>w. I (w_db w)) (definitions_get_by_id E i)"
  "keeps (\<lambda>w. I (w_db w)) (definitions_list E b)"
  "keeps (\<lambda>w. I (w_db w)) (catalog_get_by_id E i)"
  "keeps (\<lambda>w. I (w_db w)) (catalog_get_by_slug E s)"
  "keeps (\<lambda>w. I (w_db w)) (catalog_list E b)"
  "keeps (\<lambda>w. I (w_db w)) (instances_get_by_id E i)"
  "keeps (\<lambda>w. I (w_db w)) (instances_list_for_requester E i)"
  "keeps (\<lambda>w. I (w_db w)) (instances_list_awaiting_approval E)"
  "keeps (\<lambda>w. I (w_db w)) (approvals_get_by_id E i)"
  "keeps (\<lambda>w. I (w_db w)) (approvals_list_pending_for_approver E i)"
  "keeps (\<lambda>w. I (w_db w)) (approvals_list_expired E)"
  "keeps (\<lambda>w. I (w_db w)) (tickets_get_by_id E i)"
  "keeps (\<lambda>w. I (w_db w)) (tickets_get_by_instance_id E i)"
  "keeps (\<lambda>w. I (w_db w)) (tickets_list_pending_dispatch E)"
  "keeps (\<lambda>w. I (w_db w)) (audit_list E p n)"
  "keeps (\<lambda>w. I (w_db w)) (audit_count E)"
  "keeps (\<lambda>w. I (w_db w)) (org_settings_get E)"
  unfolding read_op_defs by (intro keeps_intros stmt_intros)+

lemmas write_op_defs = departments_create_def departments_update_def departments_set_logo_url_def
  departments_delete_def users_create_def users_update_def users_link_external_idp_subject_def
  users_set_password_hash_def users_deactivate_def definitions_create_def
  definitions_set_published_def catalog_create_def catalog_update_def catalog_deactivate_def
  instances_create_def save_progress_def approvals_create_def approvals_decide_def
  tickets_create_def tickets_mark_sent_def tickets_mark_failed_def
  tickets_set_dispatch_status_def audit_record_def org_settings_seed_default_def
  org_settings_update_def org_settings_set_logo_url_def

lemma write_ops_via_steps [keeps_intros]:
  fixes E :: env and d0 :: db
  defines "I \<equiv> \<lambda>w. (db_step E)\<^sup>*\<^sup>* d0 (w_db w)"
  shows "keeps I (departments_create E nd)" "keeps I (departments_update E i ud)"
    "keeps I (departments_set_logo_url E i url)" "keeps I (departments_delete E i)"
    "keeps I (users_create E nu h)" "keeps I (users_update E i uu)"
    "keeps I (users_link_external_idp_subject E i sub)" "keeps I (users_set_password_hash E i ph)"
    "keeps I (users_deactivate E i)" "keeps I (definitions_create E nw u)"
    "keeps I (definitions_set_published E i pub)" "keeps I (catalog_create E ni u)"
    "keeps I (catalog_update E i ui)" "keeps I (catalog_deactivate E i)"
    "keeps I (instances_create E a b c s)" "keeps I (save_progress E i s j st)"
    "keeps I (approvals_create E a s b x)" "keeps I (approvals_decide E i ast cm)"
    "keeps I (tickets_create E a ts j)" "keeps I (tickets_mark_sent E i xid xu)"
    "keeps I (tickets_mark_failed E i err)" "keeps I (tickets_set_dispatch_status E i ds)"
    "keeps I (audit_record E entry)" "keeps I (org_settings_seed_default E an al)"
    "keeps I (org_settings_update E uos)" "keeps I (org_settings_set_logo_url E url)"
  unfolding I_def write_op_defs by (intro keeps_intros stmt_intros)+

definition empty_db :: db where
  "empty_db = \<lparr>db_departments = [], db_users = [], db_sessions = [], db_password_resets = [],
     db_definitions = [], db_items = [], db_instances = [], db_approvals = [], db_tickets = [],
     db_audit = [], db_org_settings = None\<rparr>"

lemma empty_db_wf: "db_wf E empty_db"
  by (simp add: empty_db_def db_wf_def table_ok_defs uniq_opt_def)

lemma db_steps_wf: "(db_step E)\<^sup>*\<^sup>* d d' \<Longrightarrow> db_wf E d \<Longrightarrow> db_wf E d'"
  by (induction rule: rtranclp_induct) (auto intro: db_step_wf)

lemmas stmt_defs = departments_create_stmt_def departments_update_stmt_def
  departments_set_logo_url_stmt_def departments_delete_stmt_def users_create_stmt_def
  users_update_stmt_def users_link_external_idp_subject_stmt_def users_set_password_hash_stmt_def
  users_deactivate_stmt_def definitions_create_stmt_def definitions_set_published_stmt_def
  catalog_create_stmt_def catalog_update_stmt_def catalog_deactivate_stmt_def
  instances_create_stmt_def save_progress_stmt_def approvals_create_stmt_def
  approvals_decide_stmt_def tickets_create_stmt_def tickets_mark_sent_stmt_def
  tickets_mark_failed_stmt_def tickets_set_dispatch_status_stmt_def audit_record_stmt_def
  org_settings_seed_default_stmt_def org_settings_update_stmt_def
  org_settings_set_logo_url_stmt_def sessions_create_stmt_def sessions_revoke_stmt_def
  sessions_revoke_all_stmt_def password_resets_create_stmt_def password_resets_use_stmt_def

text \<open>Only two statements write each of these tables.\<close>

lemma db_step_audit:
  "db_step E d d' \<Longrightarrow> prefix (db_audit d) (db_audit d')"
  by (induction rule: db_step.induct)
    (simp_all add: stmt_defs insert_if_snd Let_def split: option.split)

lemma db_step_approvals:
  "db_step E d d' \<Longrightarrow> db_approvals d' = db_approvals d \<or>
     (\<exists>a. db_approvals d' = db_approvals d @ [a]) \<or>
     (\<exists>i st c now. db_approvals d' = update_rows (\<lambda>r. pa_id r = i \<and> pa_status r = Pending)
        (\<lambda>r. r\<lparr>pa_status := st, pa_comment := c, pa_decided_at := Some now\<rparr>) (db_approvals d))"
  by (induction rule: db_step.induct)
    (simp_all add: stmt_defs insert_if_snd Let_def split: option.split, blast)

lemma db_step_instances:
  "db_step E d d' \<Longrightarrow> db_instances d' = db_instances d \<or>
     (\<exists>r. db_instances d' = db_instances d @ [r]) \<or>
     (\<exists>i s j st now. db_instances d' = db_instances (snd (save_progress_stmt i s j st now d)))"
  by (induction rule: db_step.induct)
    (simp_all add: stmt_defs insert_if_snd Let_def split: option.split, blast)

section \<open>Properties of every interleaving\<close>

text \<open>Starting from the empty database, whatever statements the handlers send, in whatever
  order and wherever they stop, no primary or unique key ever has duplicates and every
  foreign key refers to an existing row.\<close>

lemma schema_always_holds:
  assumes "(db_step E)\<^sup>*\<^sup>* empty_db d"
  shows "db_wf E d"
  using assms empty_db_wf by (rule db_steps_wf)

text \<open>C7: the audit log is append-only: no statement of the server changes or removes an
  entry.\<close>

theorem audit_log_append_only:
  assumes "(db_step E)\<^sup>*\<^sup>* d d'"
  shows "prefix (db_audit d) (db_audit d')"
  using assms by (induction rule: rtranclp_induct)
    (auto intro: db_step_audit prefix_order.trans)

text \<open>The life of one approval row: decided rows never change, pending rows change only to a
  decided one and keep everything but the decision.\<close>

definition same_request :: "PendingApproval \<Rightarrow> PendingApproval \<Rightarrow> bool" where
  "same_request a b \<longleftrightarrow> pa_id a = pa_id b \<and> pa_workflow_instance_id a = pa_workflow_instance_id b \<and>
     pa_step_id a = pa_step_id b \<and> pa_approver_user_id a = pa_approver_user_id b \<and>
     pa_expires_at a = pa_expires_at b \<and> pa_created_at a = pa_created_at b"

lemma same_request_refl [simp]: "same_request a a"
  by (simp add: same_request_def)

lemma update_rows_mem:
  "r \<in> set t \<Longrightarrow> (if P r then f r else r) \<in> set (update_rows P f t)"
  by (simp add: set_update_rows)

lemma approval_step:
  assumes "db_step E d d'" "a \<in> set (db_approvals d)"
  shows "\<exists>b \<in> set (db_approvals d'). same_request a b \<and> (pa_status a \<noteq> Pending \<longrightarrow> b = a)"
  using db_step_approvals [OF assms(1)]
proof (elim disjE exE)
  fix i st c now
  assume u: "db_approvals d' = update_rows (\<lambda>r. pa_id r = i \<and> pa_status r = Pending)
        (\<lambda>r. r\<lparr>pa_status := st, pa_comment := c, pa_decided_at := Some now\<rparr>) (db_approvals d)"
  show ?thesis
    unfolding u by (rule bexI [OF _ update_rows_mem [OF assms(2)]]) (simp add: same_request_def)
qed (use assms(2) same_request_refl in \<open>force+\<close>)

text \<open>C6: an approval is decided at most once: once its status is approved, rejected or expired,
  its row is never changed again, and while it waits only its status, comment and decision
  time can change. It is never deleted or handed to another approver.\<close>

theorem decided_approval_is_final:
  assumes "(db_step E)\<^sup>*\<^sup>* d d'" "a \<in> set (db_approvals d)"
  shows "\<exists>b \<in> set (db_approvals d'). same_request a b \<and> (pa_status a \<noteq> Pending \<longrightarrow> b = a)"
  using assms
proof (induction rule: rtranclp_induct)
  case base
  then show ?case by (intro bexI [of _ a]) auto
next
  case (step y z)
  then obtain b where b: "b \<in> set (db_approvals y)" "same_request a b"
    "pa_status a \<noteq> Pending \<longrightarrow> b = a" by blast
  from approval_step [OF step.hyps(2) b(1)] b(2,3) show ?case
    by (fastforce simp: same_request_def)
qed

lemma instance_step:
  assumes "db_step E d d'" "r \<in> set (db_instances d)"
  shows "\<exists>s \<in> set (db_instances d'). wi_id s = wi_id r \<and>
    wi_requester_user_id s = wi_requester_user_id r \<and>
    wi_catalog_item_id s = wi_catalog_item_id r \<and>
    wi_workflow_definition_id s = wi_workflow_definition_id r \<and>
    wi_created_at s = wi_created_at r"
  using db_step_instances [OF assms(1)]
proof (elim disjE exE)
  fix i s j st now
  assume u: "db_instances d' = db_instances (snd (save_progress_stmt i s j st now d))"
  show ?thesis
    unfolding u by (simp add: save_progress_stmt_def)
      (rule bexI [OF _ update_rows_mem [OF assms(2)]], simp)
qed (use assms(2) in auto)

text \<open>A request is never deleted and never changes hands: its row keeps its requester, its
  catalog item, its workflow definition and its creation time.\<close>

lemma instance_identity_fixed:
  assumes "(db_step E)\<^sup>*\<^sup>* d d'" "r \<in> set (db_instances d)"
  shows "\<exists>s \<in> set (db_instances d'). wi_id s = wi_id r \<and>
    wi_requester_user_id s = wi_requester_user_id r \<and>
    wi_catalog_item_id s = wi_catalog_item_id r \<and>
    wi_workflow_definition_id s = wi_workflow_definition_id r \<and>
    wi_created_at s = wi_created_at r"
  using assms
proof (induction rule: rtranclp_induct)
  case (step y z)
  then obtain s where "s \<in> set (db_instances y)" "wi_id s = wi_id r"
    "wi_requester_user_id s = wi_requester_user_id r"
    "wi_catalog_item_id s = wi_catalog_item_id r"
    "wi_workflow_definition_id s = wi_workflow_definition_id r"
    "wi_created_at s = wi_created_at r" by blast
  with instance_step [OF step.hyps(2)] show ?case by metis
qed auto

text \<open>Decisions of one approval in an interleaving: what each \<^verbatim>\<open>UPDATE .. WHERE status = 'pending'\<close>
  reports, in the order the database runs them.\<close>

fun decisions :: "uuid \<Rightarrow> (timestamp \<times> ApprovalStatus \<times> string option) list \<Rightarrow> db \<Rightarrow> bool list" where
  "decisions i [] d = []"
| "decisions i ((now, status, comment) # ds) d =
     (let (r, d') = approvals_decide_stmt i status comment now d in
      (case r of Inl _ \<Rightarrow> False | Inr n \<Rightarrow> n > 0) # decisions i ds d')"

lemma decide_not_pending:
  assumes "\<forall>r \<in> set (db_approvals d). pa_id r = i \<longrightarrow> pa_status r \<noteq> Pending"
  shows "approvals_decide_stmt i st c now d = (Inr 0, d)"
  using assms by (auto simp: approvals_decide_stmt_def Let_def update_rows_nop)

lemma decided_not_pending:
  "st \<noteq> Pending \<Longrightarrow>
   \<forall>r \<in> set (db_approvals (snd (approvals_decide_stmt i st c now d))). pa_id r = i \<longrightarrow> pa_status r \<noteq> Pending"
  by (simp add: approvals_decide_stmt_def Let_def ball_update_rows)

lemma decisions_not_pending:
  assumes "\<forall>r \<in> set (db_approvals d). pa_id r = i \<longrightarrow> pa_status r \<noteq> Pending"
  shows "True \<notin> set (decisions i ds d)"
  using assms by (induction i ds d rule: decisions.induct) (auto simp: decide_not_pending Let_def)

text \<open>Of all the decisions (a human's and the expiry poller's) sent for one approval, none
  of which sets it back to pending, exactly the first is told that it took effect.\<close>

lemma first_decision_wins:
  assumes "a \<in> set (db_approvals d)" "pa_id a = i" "pa_status a = Pending"
    and "\<forall>(now, status, comment) \<in> set ds. status \<noteq> Pending"
  shows "decisions i ds d = map (\<lambda>k. k = 0) [0..<length ds]"
proof (cases ds)
  case Nil
  then show ?thesis by simp
next
  case (Cons x rest)
  obtain now st c where x: "x = (now, st, c)" by (cases x)
  let ?d = "snd (approvals_decide_stmt i st c now d)"
  have "filter (\<lambda>r. pa_id r = i \<and> pa_status r = Pending) (db_approvals d) \<noteq> []"
    using assms(1-3) by (auto simp: filter_empty_conv)
  then have first: "decisions i ds d = True # decisions i rest ?d"
    by (simp add: Cons x approvals_decide_stmt_def Let_def)
  have "st \<noteq> Pending" using assms(4) Cons x by auto
  then have "True \<notin> set (decisions i rest ?d)"
    by (intro decisions_not_pending decided_not_pending)
  moreover have len: "length (decisions i es d2) = length es" for es d2
    by (induction i es d2 rule: decisions.induct) (auto simp: Let_def split: prod.split)
  ultimately have "decisions i rest ?d ! k = False" if "k < length rest" for k
    using that by (metis nth_mem)
  then show ?thesis
    unfolding first using Cons
    by (intro nth_equalityI) (simp_all add: len nth_Cons split: nat.split del: upt_Suc)
qed

section \<open>Rows created and read back\<close>

text \<open>The contract of a table with a generated key, as the repositories' \<^verbatim>\<open>create\<close> functions use
  it: an insert that succeeds appends one row under a key that was free. The clients'
  lemmas say what insert-then-select returns, with faults at any call.\<close>

locale keyed_table =
  fixes rows :: "db \<Rightarrow> 'r list"
    and key :: "'r \<Rightarrow> uuid"
    and ins :: "uuid \<Rightarrow> 'n \<Rightarrow> unit stmt"
    and row :: "uuid \<Rightarrow> 'n \<Rightarrow> timestamp \<Rightarrow> 'r"
  assumes ins_appends: "ins i n now d = (Inr (), d') \<Longrightarrow>
      rows d' = rows d @ [row i n now] \<and> i \<notin> key ` set (rows d)"
    and key_row: "key (row i n now) = i"
begin

lemma inserted_is_found:
  "ins i n now d = (Inr (), d') \<Longrightarrow> find_row (\<lambda>r. key r = i) (rows d') = Some (row i n now)"
  by (drule ins_appends) (auto simp: find_row_append key_row find_row_None_iff split: option.split
      dest: find_row_SomeD)

lemma create_returns_row:
  assumes "bindM (new_uuid E) (\<lambda>i. bindM (sql E (ins i n)) (\<lambda>_.
      bindM (sql E (query (\<lambda>now d. find_row (\<lambda>r. key r = i) (rows d)))) (ok_or (e i)))) w = (Ok r, w')"
  shows "r = row (env_uuid E (w_uuids w)) n (env_time E (w_io w)) \<and>
    rows (w_db w') = rows (w_db w) @ [r] \<and> key r \<notin> key ` set (rows (w_db w))"
proof -
  let ?i = "env_uuid E (w_uuids w)" and ?w1 = "w\<lparr>w_uuids := Suc (w_uuids w)\<rparr>"
  have "bindM (sql E (ins ?i n)) (\<lambda>_.
      bindM (sql E (query (\<lambda>now d. find_row (\<lambda>r. key r = ?i) (rows d)))) (ok_or (e ?i))) ?w1 = (Ok r, w')"
    using assms by (simp add: bindM_def new_uuid_def)
  then obtain w2 where ins: "sql E (ins ?i n) ?w1 = (Ok (), w2)"
    and rest: "bindM (sql E (query (\<lambda>now d. find_row (\<lambda>r. key r = ?i) (rows d)))) (ok_or (e ?i)) w2 = (Ok r, w')"
    by (auto elim: bindM_OkE)
  from ins obtain d where d: "ins ?i n (env_time E (w_io w)) (w_db w) = (Inr (), d)"
    "w2 = ?w1\<lparr>w_io := Suc (w_io w), w_db := d\<rparr>" by (auto elim!: sql_OkE)
  from rest obtain x w3 where x: "sql E (query (\<lambda>now d. find_row (\<lambda>r. key r = ?i) (rows d))) w2 = (Ok x, w3)"
    and fin: "ok_or (e ?i) x w3 = (Ok r, w')" by (rule bindM_OkE)
  have "x = Some (row ?i n (env_time E (w_io w)))" "w_db w3 = d"
    using sql_query_Ok [OF x] inserted_is_found [OF d(1)] d(2) by auto
  with fin have "r = row ?i n (env_time E (w_io w))" "w_db w' = d" by auto
  then show ?thesis using ins_appends [OF d(1)] by (simp add: key_row)
qed

lemma create_without_faults:
  assumes ff: "fault_free E"
    and run: "bindM (new_uuid E) (\<lambda>i. bindM (sql E (ins i n)) (\<lambda>_.
      bindM (sql E (query (\<lambda>now d. find_row (\<lambda>r. key r = i) (rows d)))) (ok_or (e i)))) w = (res, w')"
  shows "(\<exists>err. res = Err err \<and> w_db w' = w_db w) \<or>
    (\<exists>i now. res = Ok (row i n now) \<and> ins i n now (w_db w) = (Inr (), w_db w'))"
proof -
  let ?i = "env_uuid E (w_uuids w)" and ?now = "env_time E (w_io w)"
  obtain q d where q: "ins ?i n ?now (w_db w) = (q, d)" by fastforce
  show ?thesis
  proof (cases q)
    case (Inl x)
    with q run show ?thesis by (auto simp: io_simps new_uuid_def sql_fault_free [OF ff])
  next
    case (Inr u)
    with q inserted_is_found [of ?i n ?now "w_db w" d] run show ?thesis
      by (auto simp: io_simps new_uuid_def sql_fault_free [OF ff] query_def)
  qed
qed

end

lemma insert_if_Inr: "insert_if ok d' d = (Inr (), d'') \<longleftrightarrow> ok \<and> d'' = d'"
  by (auto simp: insert_if_def)

definition instance_row :: "uuid \<Rightarrow> uuid \<times> uuid \<times> uuid \<times> string \<Rightarrow> timestamp \<Rightarrow> WorkflowInstance" where
  "instance_row i n now = (case n of (definition_id, item_id, requester_id, step_id) \<Rightarrow>
     \<lparr>wi_id = i, wi_workflow_definition_id = definition_id, wi_catalog_item_id = item_id,
      wi_requester_user_id = requester_id, wi_status = InProgress, wi_current_step_id = step_id,
      wi_answers_json = JObject [], wi_created_at = now, wi_updated_at = now,
      wi_completed_at = None\<rparr>)"

interpretation instances_table:
  keyed_table db_instances wi_id "\<lambda>i (a, b, c, s). instances_create_stmt i a b c s" instance_row
  by unfold_locales
    (auto simp: instances_create_stmt_def insert_if_Inr instance_row_def split: prod.splits)

definition approval_row :: "uuid \<Rightarrow> uuid \<times> string \<times> uuid \<times> timestamp option \<Rightarrow> timestamp \<Rightarrow> PendingApproval" where
  "approval_row i n now = (case n of (instance_id, step_id, approver_id, expires_at) \<Rightarrow>
     \<lparr>pa_id = i, pa_workflow_instance_id = instance_id, pa_step_id = step_id,
      pa_approver_user_id = approver_id, pa_status = Pending, pa_comment = None,
      pa_decided_at = None, pa_expires_at = expires_at, pa_created_at = now\<rparr>)"

interpretation approvals_table:
  keyed_table db_approvals pa_id "\<lambda>i (a, s, b, x). approvals_create_stmt i a s b x" approval_row
  by unfold_locales
    (auto simp: approvals_create_stmt_def insert_if_Inr approval_row_def split: prod.splits)

definition user_row :: "uuid \<Rightarrow> NewUser \<times> string option \<Rightarrow> timestamp \<Rightarrow> User" where
  "user_row i n now = (case n of (new, password_hash) \<Rightarrow>
     \<lparr>u_id = i, u_email = nu_email new, u_display_name = nu_display_name new,
      u_password_hash = password_hash, u_external_idp_subject = nu_external_idp_subject new,
      u_department_id = nu_department_id new, u_manager_user_id = nu_manager_user_id new,
      u_role = nu_role new, u_is_active = True, u_created_at = now, u_updated_at = now\<rparr>)"

interpretation users_table:
  keyed_table db_users u_id "\<lambda>i (new, h). users_create_stmt E i new h" user_row for E
  by unfold_locales
    (auto simp: users_create_stmt_def insert_if_Inr user_row_def split: prod.splits)

definition ticket_row :: "uuid \<Rightarrow> uuid \<times> TargetSystem \<times> json \<Rightarrow> timestamp \<Rightarrow> Ticket" where
  "ticket_row i n now = (case n of (instance_id, target, payload) \<Rightarrow>
     \<lparr>t_id = i, t_workflow_instance_id = instance_id, t_target_system = target,
      t_rendered_payload_json = payload, t_external_ticket_id = None,
      t_external_ticket_url = None, t_dispatch_status = DPending, t_last_error = None,
      t_created_at = now, t_updated_at = now\<rparr>)"

interpretation tickets_table:
  keyed_table db_tickets t_id "\<lambda>i (a, s, p). tickets_create_stmt i a s p" ticket_row
  by unfold_locales
    (auto simp: tickets_create_stmt_def insert_if_Inr ticket_row_def split: prod.splits)

text \<open>When \<^verbatim>\<open>instances::create\<close> succeeds, whatever call of the database failed before, the
  row it returns carries the given values and the schema's defaults (in progress, no
  answers, not completed), it is the one row appended to the table, and its generated id
  was not in use.\<close>

lemma created_instance_is_returned:
  assumes "instances_create E a b c s w = (Ok r, w')"
  shows "r = instance_row (env_uuid E (w_uuids w)) (a, b, c, s) (env_time E (w_io w)) \<and>
    db_instances (w_db w') = db_instances (w_db w) @ [r] \<and> wi_id r \<notin> instance_ids (w_db w)"
  using assms unfolding instances_create_def instances_get_by_id_def
  by (intro instances_table.create_returns_row [of E "(a, b, c, s)"]) simp

lemma approvals_create_Ok:
  assumes "approvals_create E a s b x w = (Ok r, w')"
  shows "r = approval_row (env_uuid E (w_uuids w)) (a, s, b, x) (env_time E (w_io w)) \<and>
    db_approvals (w_db w') = db_approvals (w_db w) @ [r] \<and>
    pa_id r \<notin> pa_id ` set (db_approvals (w_db w))"
  using assms unfolding approvals_create_def approvals_get_by_id_def
  by (intro approvals_table.create_returns_row [of E "(a, s, b, x)"]) simp

section \<open>Progress of an instance\<close>

text \<open>When \<^verbatim>\<open>save_progress\<close> returns an instance, that row carries the new step, answers and
  status, \<^verbatim>\<open>completed_at\<close> is stamped with the current time exactly for the four terminal
  statuses and otherwise kept, and no other row of the table has changed.\<close>

lemma save_progress_effect:
  assumes "save_progress E i step_id answers status w = (Ok (Some r), w')"
  shows "wi_id r = i \<and> wi_current_step_id r = step_id \<and> wi_answers_json r = answers \<and>
    wi_status r = status \<and>
    (\<exists>old \<in> set (db_instances (w_db w)). wi_id old = i \<and>
       wi_completed_at r = (if status \<in> {Completed, Rejected, Cancelled, Failed}
         then Some (env_time E (w_io w)) else wi_completed_at old)) \<and>
    filter (\<lambda>x. wi_id x \<noteq> i) (db_instances (w_db w')) = filter (\<lambda>x. wi_id x \<noteq> i) (db_instances (w_db w))"
proof -
  let ?f = "progress_row step_id answers status (env_time E (w_io w))"
  let ?t = "update_rows (\<lambda>r. wi_id r = i) ?f (db_instances (w_db w))"
  obtain w1 where w1: "sql E (save_progress_stmt i step_id answers status) w = (Ok (), w1)"
    and get: "instances_get_by_id E i w1 = (Ok (Some r), w')"
    using assms unfolding save_progress_def by (auto elim: bindM_OkE)
  have t: "db_instances (w_db w1) = ?t"
    using w1 by (auto elim!: sql_OkE simp: save_progress_stmt_def)
  have r: "find_row (\<lambda>r. wi_id r = i) ?t = Some r" "db_instances (w_db w') = ?t"
    using sql_query_Ok [OF get [unfolded instances_get_by_id_def]] t by auto
  then obtain old where old: "find_row (\<lambda>r. wi_id r = i) (db_instances (w_db w)) = Some old" "r = ?f old"
    by (auto simp: find_row_update_same)
  have "is_terminal status \<longleftrightarrow> status \<in> {Completed, Rejected, Cancelled, Failed}"
    by (cases status) auto
  then show ?thesis
    using find_row_SomeD [OF old(1)] old(2) r(2) by (auto simp: filter_update_rows)
qed

section \<open>Pages of the audit log\<close>

lemma i64_small: "n < 2 ^ 63 \<Longrightarrow> unat (of_nat n :: i64) = n"
  by (simp add: unat_of_nat)

lemma i64_small_nonneg: "n < 2 ^ 63 \<Longrightarrow> \<not> (of_nat n :: i64) <s 0"
  by (simp add: word_sless_alt sint_uint uint_nat i64_small signed_take_bit_int_eq_self)

definition audit_page :: "db \<Rightarrow> nat \<Rightarrow> nat \<Rightarrow> AuditLogEntry list" where
  "audit_page d page page_size =
     (case fst (audit_list_stmt (of_nat page) (of_nat page_size) 0 d) of
        Inl _ \<Rightarrow> [] | Inr rows \<Rightarrow> rows)"

lemma audit_page_eq:
  assumes "0 < s" "Suc p * s < 2 ^ 63"
  shows "audit_page d p s = take s (drop (p * s) (audit_order (db_audit d)))"
proof -
  have "p * s < 2 ^ 63" "s < 2 ^ 63" using assms(2) by auto
  moreover have "p < 2 ^ 63"
    using assms by (metis calculation(1) le_less_trans mult_le_mono2 nat_mult_1_right Suc_leI One_nat_def)
  moreover have "(of_nat p * of_nat s :: i64) = of_nat (p * s)" by simp
  ultimately show ?thesis
    by (simp add: audit_page_def audit_list_stmt_def audit_offset_def Let_def i64_small
        i64_small_nonneg del: of_nat_mult)
qed

lemma audit_order_newest_first:
  "sorted_wrt (\<lambda>a b. al_created_at a \<ge> al_created_at b) (audit_order rows)"
proof -
  have "sorted (map (\<lambda>r. (- al_created_at r, - uint (al_id r))) (audit_order rows))"
    by (simp add: audit_order_def order_by_def)
  then show ?thesis
    by (simp add: sorted_wrt_map) (rule sorted_wrt_mono_rel, auto)
qed

text \<open>The zero-based pages of the audit trail partition it: for any page size and any number
  of pages whose end fits in an \<^verbatim>\<open>i64\<close>, the first \<open>k\<close> pages in order are the first
  \<open>k * page_size\<close> entries of the newest-first trail, with no entry twice or left out.\<close>

lemma audit_pages_partition:
  assumes "0 < page_size" "k * page_size < 2 ^ 63"
  shows "concat (map (\<lambda>p. audit_page d p page_size) [0..<k]) =
    take (k * page_size) (audit_order (db_audit d)) \<and>
    sorted_wrt (\<lambda>a b. al_created_at a \<ge> al_created_at b) (audit_order (db_audit d))"
  using assms(2)
proof (induction k)
  case (Suc k)
  then have "k * page_size < 2 ^ 63" by simp
  with Suc.IH Suc.prems assms(1) show ?case
    using take_add [of "k * page_size" page_size "audit_order (db_audit d)"]
    by (simp add: audit_page_eq add.commute)
qed (simp add: audit_order_newest_first)

section \<open>Witnesses\<close>

text \<open>A small database: a requester and the manager who approves, one definition, one catalog
  item, one request that waits for the manager.\<close>

definition sample_manager :: User where
  "sample_manager = \<lparr>u_id = 1, u_email = ''m@x'', u_display_name = ''M'', u_password_hash = Some ''apw'',
     u_external_idp_subject = None, u_department_id = None, u_manager_user_id = None,
     u_role = Approver, u_is_active = True, u_created_at = 0, u_updated_at = 0\<rparr>"

definition sample_requester :: User where
  "sample_requester = \<lparr>u_id = 2, u_email = ''r@x'', u_display_name = ''R'', u_password_hash = None,
     u_external_idp_subject = None, u_department_id = None, u_manager_user_id = Some 1,
     u_role = Requester, u_is_active = True, u_created_at = 0, u_updated_at = 0\<rparr>"

definition sample_definition :: definition_row where
  "sample_definition = \<lparr>wr_id = 3, wr_name = ''Device'', wr_version = 1, wr_definition_json = JNull,
     wr_field_mapping_json = Some JNull, wr_target_system = Some Jira, wr_is_published = True,
     wr_created_by = Some 1, wr_created_at = 0, wr_updated_at = 0\<rparr>"

definition sample_item :: ServiceCatalogItem where
  "sample_item = \<lparr>ci_id = 4, ci_slug = None, ci_name = ''Device'', ci_description = None,
     ci_summary = None, ci_details_json = None, ci_approval_label = None, ci_target_value = None,
     ci_target_unit = None, ci_category = None, ci_icon = None, ci_sort_order = 0,
     ci_workflow_definition_id = 3, ci_is_active = True, ci_created_by = Some 1,
     ci_created_at = 0, ci_updated_at = 0\<rparr>"

definition sample_instance :: WorkflowInstance where
  "sample_instance = \<lparr>wi_id = 5, wi_workflow_definition_id = 3, wi_catalog_item_id = 4,
     wi_requester_user_id = 2, wi_status = AwaitingApprovalStatus, wi_current_step_id = ''approve'',
     wi_answers_json = JObject [(''device'', JString ''laptop'')], wi_created_at = 0,
     wi_updated_at = 0, wi_completed_at = None\<rparr>"

definition sample_approval :: PendingApproval where
  "sample_approval = \<lparr>pa_id = 6, pa_workflow_instance_id = 5, pa_step_id = ''approve'',
     pa_approver_user_id = 1, pa_status = Pending, pa_comment = None, pa_decided_at = None,
     pa_expires_at = Some 7, pa_created_at = 0\<rparr>"

definition sample_settings :: OrgSettings where
  "sample_settings = \<lparr>os_app_name = ''ServCat'', os_logo_url = None, os_allow_local_signup = False,
     os_timezone = ''UTC'', os_updated_at = 0\<rparr>"

definition sample_db :: db where
  "sample_db = empty_db\<lparr>db_users := [sample_manager, sample_requester],
     db_definitions := [sample_definition], db_items := [sample_item],
     db_instances := [sample_instance], db_approvals := [sample_approval],
     db_org_settings := Some sample_settings\<rparr>"

lemmas sample_defs = sample_manager_def sample_requester_def sample_definition_def sample_item_def
  sample_instance_def sample_approval_def sample_settings_def sample_db_def empty_db_def

definition sample_world :: world where
  "sample_world = \<lparr>w_db = sample_db, w_io = 10, w_uuids = 0, w_tokens = 0, w_http = [], w_mail = [],
     w_pending_logins = Map.empty, w_handoff_codes = Map.empty, w_jwks = None, w_files = Map.empty\<rparr>"

definition one_step :: WorkflowGraph where
  "one_step = \<lparr>g_entry_step_id = ''end'', g_steps = [\<lparr>s_id = ''end'', s_label = ''Done'', s_kind = End EndCompleted\<rparr>]\<rparr>"

abbreviation E0 :: env where
  "E0 \<equiv> sample_env one_step []"

lemma sample_db_wf: "db_wf (sample_env g m) sample_db"
  by (simp add: db_wf_def table_ok_defs sample_defs uniq_def uniq_opt_def sample_env_def)

lemma schema_always_holds_example:
  "db_wf E0 (snd (departments_create_stmt E0 9 \<lparr>nd_name = ''IT'', nd_parent_department_id = None\<rparr> 5 empty_db))"
  by (rule schema_always_holds [OF r_into_rtranclp [of "db_step E0"]]) (rule db_step.intros)

theorem audit_log_append_only_witness:
  "prefix (db_audit empty_db) (db_audit (snd (audit_record_stmt 9
     \<lparr>nal_actor_user_id = None, nal_action = ''login'', nal_entity_type = ''user'',
      nal_entity_id = None, nal_metadata_json = None\<rparr> 5 empty_db)))"
  by (rule audit_log_append_only [OF r_into_rtranclp [of "db_step E0"]]) (rule db_step.intros)

theorem decided_approval_is_final_witness:
  "sample_approval\<lparr>pa_status := Approved\<rparr> \<in> set (db_approvals (snd (approvals_decide_stmt 6 Expired None 12
     (sample_db\<lparr>db_approvals := [sample_approval\<lparr>pa_status := Approved\<rparr>]\<rparr>))))"
  using decided_approval_is_final [OF r_into_rtranclp [of "db_step E0"],
      of "sample_db\<lparr>db_approvals := [sample_approval\<lparr>pa_status := Approved\<rparr>]\<rparr>"
        "snd (approvals_decide_stmt 6 Expired None 12
          (sample_db\<lparr>db_approvals := [sample_approval\<lparr>pa_status := Approved\<rparr>]\<rparr>))"
        "sample_approval\<lparr>pa_status := Approved\<rparr>"]
  by (auto intro: db_step.intros)

lemma instance_identity_fixed_example:
  "\<exists>s \<in> set (db_instances (snd (save_progress_stmt 5 ''end'' JNull Completed 12 sample_db))).
    wi_id s = wi_id sample_instance \<and>
    wi_requester_user_id s = wi_requester_user_id sample_instance \<and>
    wi_catalog_item_id s = wi_catalog_item_id sample_instance \<and>
    wi_workflow_definition_id s = wi_workflow_definition_id sample_instance \<and>
    wi_created_at s = wi_created_at sample_instance"
  by (rule instance_identity_fixed [OF r_into_rtranclp [of "db_step E0"]], rule db_step.intros)
    (simp add: sample_db_def)

lemma first_decision_wins_example:
  "decisions 6 [(11, Approved, None), (12, Expired, Some ''late'')] sample_db = [True, False]"
  using first_decision_wins [of sample_approval sample_db 6 "[(11, Approved, None), (12, Expired, Some ''late'')]"]
  by (simp add: sample_db_def sample_approval_def upt_rec)

lemma created_instance_is_returned_example:
  "\<exists>r w'. instances_create E0 3 4 2 ''ask'' sample_world = (Ok r, w') \<and>
     r = instance_row 1000 (3, 4, 2, ''ask'') 10 \<and>
     db_instances (w_db w') = [sample_instance, r] \<and> wi_id r \<notin> instance_ids sample_db"
proof -
  obtain r w' where ok: "instances_create E0 3 4 2 ''ask'' sample_world = (Ok r, w')"
    by (simp add: instances_create_def instances_get_by_id_def instances_create_stmt_def io_simps
        new_uuid_def sql_def query_def insert_if_def sample_world_def sample_defs sample_env_def)
  show ?thesis
    using ok created_instance_is_returned [OF ok]
    by (auto simp: sample_world_def sample_defs sample_env_def)
qed

lemma save_progress_effect_example:
  "\<exists>r w'. save_progress E0 5 ''end'' JNull Completed sample_world = (Ok (Some r), w') \<and>
     wi_status r = Completed \<and> wi_completed_at r = Some 10"
proof -
  obtain r w' where ok: "save_progress E0 5 ''end'' JNull Completed sample_world = (Ok (Some r), w')"
    by (simp add: save_progress_def instances_get_by_id_def save_progress_stmt_def io_simps
        sql_def query_def sample_world_def sample_defs sample_env_def)
  show ?thesis
    using ok save_progress_effect [OF ok] by (auto simp: sample_world_def sample_env_def)
qed

lemma audit_pages_partition_example:
  "concat (map (\<lambda>p. audit_page sample_db p 50) [0..<2]) =
    take (2 * 50) (audit_order (db_audit sample_db)) \<and>
    sorted_wrt (\<lambda>a b. al_created_at a \<ge> al_created_at b) (audit_order (db_audit sample_db))"
  by (rule audit_pages_partition) simp_all

end
