(* ===== verification/Connectors.thy ===== *)
theory Connectors
  imports Repositories "HOL-Library.Multiset"
begin

text \<open>
  The \<^verbatim>\<open>servcat_connectors\<close> crate (\<^verbatim>\<open>src/crates/connectors/src\<close>) and the server's connector
  registry: rendering a field mapping into the nested JSON payload, and the three ticket
  connectors. Tera, the HTTP client and the target systems are parameters of the
  environment; a \<^verbatim>\<open>HashMap\<close>'s iteration order is the order of the mapping's list.

  Shown: a value set at a dotted path is found there; a mapping none of whose paths is a
  prefix of another renders to the same payload in every iteration order and holds every
  rendered field; every connector leaves the database alone and reports success only after
  a 2xx answer to a request that carries the payload (\<open>ticket_connector\<close>).
\<close>

section \<open>field\_mapping.rs\<close>

datatype RenderError = Template string string
  \<comment> \<open>target\_field, source\<close>

definition template_context_new ::
    "json \<Rightarrow> string \<Rightarrow> string \<Rightarrow> string \<Rightarrow> string \<Rightarrow> json_map" where
  "template_context_new answers requester_email requester_display_name instance_id
      catalog_item_name =
     obj_insert ''instance''
       (JObject [(''catalog_item_name'', JString catalog_item_name), (''id'', JString instance_id)])
     (obj_insert ''requester''
       (JObject [(''display_name'', JString requester_display_name), (''email'', JString requester_email)])
     (obj_insert ''answers'' answers []))"

text \<open>The walk of \<^verbatim>\<open>set_dot_path\<close> along the segments; an entry on the way that is missing or not
  an object becomes an empty object.\<close>

fun set_segments :: "string list \<Rightarrow> json \<Rightarrow> json_map \<Rightarrow> json_map" where
  "set_segments [] value current = current"
| "set_segments [segment] value current = obj_insert segment value current"
| "set_segments (segment # s # segments) value current =
     (let entry = (case obj_get current segment of Some (JObject m) \<Rightarrow> m | _ \<Rightarrow> [])
      in obj_insert segment (JObject (set_segments (s # segments) value entry)) current)"

definition set_dot_path :: "json_map \<Rightarrow> string \<Rightarrow> json \<Rightarrow> json_map" where
  "set_dot_path obj path value = set_segments (split_on CHR ''.'' path) value obj"

fun render_loop :: "env \<Rightarrow> json_map \<Rightarrow> FieldMapping \<Rightarrow> json_map \<Rightarrow> RenderError + json_map" where
  "render_loop E context [] obj = Inr obj"
| "render_loop E context ((target_field, template) # mapping) obj =
     (case env_tera E template context of
        Inl source \<Rightarrow> Inl (Template target_field source)
      | Inr rendered \<Rightarrow>
          render_loop E context mapping (set_dot_path obj target_field (JString rendered)))"

definition render :: "env \<Rightarrow> FieldMapping \<Rightarrow> json_map \<Rightarrow> RenderError + json" where
  "render E mapping context =
     (case render_loop E context mapping [] of Inl e \<Rightarrow> Inl e | Inr obj \<Rightarrow> Inr (JObject obj))"

section \<open>Connectors\<close>

datatype ConnectorError =
    Transport string
  | RejectedByTarget nat string
      \<comment> \<open>status, body\<close>
  | UnexpectedResponse string
  | Config string

fun connector_error_display :: "ConnectorError \<Rightarrow> string" where
  "connector_error_display (Transport e) = ''request to target system failed: '' @ e"
| "connector_error_display (RejectedByTarget status body) =
     ''target system rejected the request (HTTP '' @ nat_to_string status @ ''): '' @ body"
| "connector_error_display (UnexpectedResponse e) =
     ''target system response could not be parsed: '' @ e"
| "connector_error_display (Config e) = ''connector misconfigured: '' @ e"

record DispatchResult =
  dr_external_ticket_id :: string
  dr_external_ticket_url :: "string option"

definition is_success :: "nat \<Rightarrow> bool" where
  "is_success status \<longleftrightarrow> 200 \<le> status \<and> status < 300"

text \<open>\<^verbatim>\<open>response.json().await.unwrap_or(JsonValue::Null)\<close>\<close>

definition body_or_null :: "HttpResponse \<Rightarrow> json" where
  "body_or_null rs = (case hs_body rs of None \<Rightarrow> JNull | Some b \<Rightarrow> b)"

definition get_str :: "json \<Rightarrow> string \<Rightarrow> string option" where
  "get_str v k = Option.bind (json_get v k) as_str_json"

definition rejected :: "env \<Rightarrow> HttpResponse \<Rightarrow> ConnectorError" where
  "rejected E rs = RejectedByTarget (hs_status rs) (env_json_str E (body_or_null rs))"

subsection \<open>jira.rs\<close>

record JiraConnector =
  jira_base_url :: string
  jira_email :: string
  jira_api_token :: string

definition jira_new :: "string \<Rightarrow> string \<Rightarrow> string \<Rightarrow> JiraConnector" where
  "jira_new base_url email api_token =
     \<lparr>jira_base_url = trim_end_slashes base_url, jira_email = email, jira_api_token = api_token\<rparr>"

definition jira_request :: "JiraConnector \<Rightarrow> json \<Rightarrow> HttpRequest" where
  "jira_request c payload =
     \<lparr>hr_method = ''POST'', hr_url = jira_base_url c @ ''/rest/api/3/issue'',
      hr_basic_auth = Some (jira_email c, jira_api_token c), hr_bearer_auth = None,
      hr_headers = [], hr_body = Some (JObject [(''fields'', payload)]), hr_form = []\<rparr>"

definition jira_dispatch :: "env \<Rightarrow> JiraConnector \<Rightarrow> json \<Rightarrow> (ConnectorError, DispatchResult) act" where
  "jira_dispatch E c payload =
     bindM (map_err Transport (http_send E (jira_request c payload))) (\<lambda>response.
     if \<not> is_success (hs_status response) then fail (rejected E response)
     else bindM (ok_or (UnexpectedResponse ''missing 'key' in Jira response'')
                  (get_str (body_or_null response) ''key'')) (\<lambda>key.
       return \<lparr>dr_external_ticket_id = key,
               dr_external_ticket_url = Some (jira_base_url c @ ''/browse/'' @ key)\<rparr>))"

subsection \<open>glpi.rs\<close>

record GlpiConnector =
  glpi_base_url :: string
  glpi_app_token :: string
  glpi_user_token :: string

definition glpi_new :: "string \<Rightarrow> string \<Rightarrow> string \<Rightarrow> GlpiConnector" where
  "glpi_new base_url app_token user_token =
     \<lparr>glpi_base_url = trim_end_slashes base_url, glpi_app_token = app_token,
      glpi_user_token = user_token\<rparr>"

definition api_url :: "GlpiConnector \<Rightarrow> string \<Rightarrow> string" where
  "api_url c path = glpi_base_url c @ ''/apirest.php/'' @ path"

definition glpi_request ::
    "GlpiConnector \<Rightarrow> string \<Rightarrow> string \<Rightarrow> string \<times> string \<Rightarrow> json option \<Rightarrow> HttpRequest" where
  "glpi_request c meth path header body =
     \<lparr>hr_method = meth, hr_url = api_url c path, hr_basic_auth = None, hr_bearer_auth = None,
      hr_headers = [(''App-Token'', glpi_app_token c), header], hr_body = body, hr_form = []\<rparr>"

definition init_session :: "env \<Rightarrow> GlpiConnector \<Rightarrow> (ConnectorError, string) act" where
  "init_session E c =
     bindM (map_err Transport (http_send E (glpi_request c ''GET'' ''initSession''
              (''Authorization'', ''user_token '' @ glpi_user_token c) None))) (\<lambda>response.
     if \<not> is_success (hs_status response) then fail (rejected E response)
     else ok_or (UnexpectedResponse ''missing 'session_token' in GLPI response'')
            (get_str (body_or_null response) ''session_token''))"

text \<open>A failure to close the session is only logged.\<close>

definition kill_session :: "env \<Rightarrow> GlpiConnector \<Rightarrow> string \<Rightarrow> ('e, unit) act" where
  "kill_session E c session_token =
     bindM (try_io (http_send E (glpi_request c ''GET'' ''killSession''
              (''Session-Token'', session_token) None))) (\<lambda>_. return ())"

definition glpi_create_ticket ::
    "env \<Rightarrow> GlpiConnector \<Rightarrow> string \<Rightarrow> json \<Rightarrow> (ConnectorError, DispatchResult) act" where
  "glpi_create_ticket E c session_token payload =
     bindM (map_err Transport (http_send E (glpi_request c ''POST'' ''Ticket''
              (''Session-Token'', session_token) (Some (JObject [(''input'', payload)]))))) (\<lambda>response.
     if \<not> is_success (hs_status response) then fail (rejected E response)
     else bindM (ok_or (UnexpectedResponse ''missing 'id' in GLPI response'')
                  (Option.bind (json_get (body_or_null response) ''id'') as_u64)) (\<lambda>i.
       return \<lparr>dr_external_ticket_id = nat_to_string (unat i),
               dr_external_ticket_url =
                 Some (glpi_base_url c @ ''/front/ticket.form.php?id='' @ nat_to_string (unat i))\<rparr>))"

definition glpi_dispatch :: "env \<Rightarrow> GlpiConnector \<Rightarrow> json \<Rightarrow> (ConnectorError, DispatchResult) act" where
  "glpi_dispatch E c payload =
     bindM (init_session E c) (\<lambda>session_token.
     bindM (try_io (glpi_create_ticket E c session_token payload)) (\<lambda>result.
     bindM (kill_session E c session_token) (\<lambda>_.
     lift_sum result)))"

subsection \<open>webhook.rs\<close>

record WebhookConnector =
  wh_url :: string
  wh_bearer_token :: "string option"

definition webhook_new :: "string \<Rightarrow> string option \<Rightarrow> WebhookConnector" where
  "webhook_new url bearer_token = \<lparr>wh_url = url, wh_bearer_token = bearer_token\<rparr>"

definition webhook_request :: "WebhookConnector \<Rightarrow> json \<Rightarrow> HttpRequest" where
  "webhook_request c payload =
     \<lparr>hr_method = ''POST'', hr_url = wh_url c, hr_basic_auth = None,
      hr_bearer_auth = wh_bearer_token c, hr_headers = [], hr_body = Some payload, hr_form = []\<rparr>"

definition webhook_dispatch ::
    "env \<Rightarrow> WebhookConnector \<Rightarrow> json \<Rightarrow> (ConnectorError, DispatchResult) act" where
  "webhook_dispatch E c payload =
     bindM (map_err Transport (http_send E (webhook_request c payload))) (\<lambda>response.
     if \<not> is_success (hs_status response) then fail (rejected E response)
     else
       bindM (case get_str (body_or_null response) ''id'' of
                Some i \<Rightarrow> return i
              | None \<Rightarrow> bindM (new_uuid E) (\<lambda>u. return (env_uuid_str E u))) (\<lambda>external_id.
       return \<lparr>dr_external_ticket_id = external_id,
               dr_external_ticket_url = get_str (body_or_null response) ''url''\<rparr>))"

section \<open>connector\_registry.rs\<close>

text \<open>\<^verbatim>\<open>Arc<dyn TicketConnector>\<close>: the three implementations, \<^verbatim>\<open>target_system\<close> and \<^verbatim>\<open>dispatch\<close> by
  dynamic dispatch.\<close>

datatype connector =
  JiraC JiraConnector | GlpiC GlpiConnector | WebhookC WebhookConnector

fun target_system :: "connector \<Rightarrow> TargetSystem" where
  "target_system (JiraC _) = Jira"
| "target_system (GlpiC _) = Glpi"
| "target_system (WebhookC _) = Webhook"

fun connector_dispatch ::
    "env \<Rightarrow> connector \<Rightarrow> json \<Rightarrow> (ConnectorError, DispatchResult) act" where
  "connector_dispatch E (JiraC c) payload = jira_dispatch E c payload"
| "connector_dispatch E (GlpiC c) payload = glpi_dispatch E c payload"
| "connector_dispatch E (WebhookC c) payload = webhook_dispatch E c payload"

record ConnectorsConfig =
  cc_webhook_url :: "string option"
  cc_webhook_bearer_token :: "string option"
  cc_jira_base_url :: "string option"
  cc_jira_email :: "string option"
  cc_jira_api_token :: "string option"
  cc_glpi_base_url :: "string option"
  cc_glpi_app_token :: "string option"
  cc_glpi_user_token :: "string option"

type_synonym ConnectorRegistry = "TargetSystem \<rightharpoonup> connector"

definition registry_from_config :: "ConnectorsConfig \<Rightarrow> ConnectorRegistry" where
  "registry_from_config config =
     (let with_webhook = (case cc_webhook_url config of
            Some url \<Rightarrow> [Webhook \<mapsto> WebhookC (webhook_new url (cc_webhook_bearer_token config))]
          | None \<Rightarrow> Map.empty);
          with_jira = (case (cc_jira_base_url config, cc_jira_email config, cc_jira_api_token config) of
            (Some base_url, Some email, Some api_token) \<Rightarrow>
              with_webhook(Jira \<mapsto> JiraC (jira_new base_url email api_token))
          | _ \<Rightarrow> with_webhook)
      in case (cc_glpi_base_url config, cc_glpi_app_token config, cc_glpi_user_token config) of
           (Some base_url, Some app_token, Some user_token) \<Rightarrow>
             with_jira(Glpi \<mapsto> GlpiC (glpi_new base_url app_token user_token))
         | _ \<Rightarrow> with_jira)"

definition registry_get :: "ConnectorRegistry \<Rightarrow> TargetSystem \<Rightarrow> connector option" where
  "registry_get registry target = registry target"

section \<open>The payload\<close>

text \<open>Reading a path of object keys.\<close>

fun json_path :: "json \<Rightarrow> string list \<Rightarrow> json option" where
  "json_path v [] = Some v"
| "json_path v (k # ks) = (case json_get v k of None \<Rightarrow> None | Some u \<Rightarrow> json_path u ks)"

definition incomparable :: "string list \<Rightarrow> string list \<Rightarrow> bool" where
  "incomparable p q \<longleftrightarrow> \<not> prefix p q \<and> \<not> prefix q p"

lemma obj_insert_commute:
  "k \<noteq> k' \<Longrightarrow> obj_insert k v (obj_insert k' v' m) = obj_insert k' v' (obj_insert k v m)"
  by (induction m) auto

lemma obj_insert_twice [simp]: "obj_insert k v (obj_insert k v' m) = obj_insert k v m"
  by (induction m) auto

lemma json_get_JObject [simp]: "json_get (JObject m) k = obj_get m k"
  by (simp add: json_get_def)

lemma set_segments_Cons:
  "set_segments (k # p) v m = (if p = [] then obj_insert k v m
     else obj_insert k (JObject (set_segments p v
            (case obj_get m k of Some (JObject n) \<Rightarrow> n | _ \<Rightarrow> []))) m)"
  by (cases p) (auto simp: Let_def)

lemma json_path_set_segments:
  "p \<noteq> [] \<Longrightarrow> json_path (JObject (set_segments p v m)) p = Some v"
  by (induction p arbitrary: m) (auto simp: set_segments_Cons)

lemma json_path_nonobject:
  "p \<noteq> [] \<Longrightarrow> (\<nexists>m. u = JObject m) \<Longrightarrow> json_path u p = None"
  by (cases p; cases u) (auto simp: json_get_def)

lemma json_path_empty: "p \<noteq> [] \<Longrightarrow> json_path (JObject []) p = None"
  by (cases p) auto

lemma incomparable_Cons:
  "incomparable (k # p) (k' # q) \<longleftrightarrow> k \<noteq> k' \<or> incomparable p q"
  by (auto simp: incomparable_def)

lemma incomparable_Nil [simp]: "\<not> incomparable [] q" "\<not> incomparable q []"
  by (auto simp: incomparable_def)

lemma json_path_set_other:
  "incomparable p q \<Longrightarrow> json_path (JObject (set_segments p v m)) q = json_path (JObject m) q"
proof (induction p arbitrary: q m)
  case Nil
  then show ?case by simp
next
  case (Cons k p)
  then obtain k' q' where q: "q = k' # q'" by (cases q) auto
  show ?case
  proof (cases "k = k'")
    case False
    then show ?thesis by (simp add: q set_segments_Cons)
  next
    case True
    with Cons.prems q have inc: "incomparable p q'" by (simp add: incomparable_Cons)
    then have ne: "p \<noteq> []" "q' \<noteq> []" by auto
    show ?thesis
    proof (cases "\<exists>n. obj_get m k = Some (JObject n)")
      case True
      with Cons.IH [OF inc] show ?thesis using \<open>k = k'\<close> ne by (auto simp: q set_segments_Cons)
    next
      case False
      then have "(case obj_get m k of Some (JObject n) \<Rightarrow> n | _ \<Rightarrow> []) = []"
        by (auto split: option.split json.split)
      moreover have "json_path (JObject m) q = None"
        using False \<open>k = k'\<close> ne by (auto simp: q json_path_nonobject split: option.split)
      ultimately show ?thesis
        using Cons.IH [OF inc, of "[]"] \<open>k = k'\<close> ne by (simp add: q set_segments_Cons json_path_empty)
    qed
  qed
qed

lemma set_segments_commute:
  "incomparable p q \<Longrightarrow> set_segments p v (set_segments q w m) = set_segments q w (set_segments p v m)"
proof (induction p arbitrary: q m)
  case Nil
  then show ?case by simp
next
  case (Cons k p)
  then obtain k' q' where q: "q = k' # q'" by (cases q) auto
  show ?case
  proof (cases "k = k'")
    case False
    then show ?thesis by (simp add: q set_segments_Cons obj_insert_commute)
  next
    case True
    with Cons.prems q have inc: "incomparable p q'" by (simp add: incomparable_Cons)
    then have ne: "p \<noteq> []" "q' \<noteq> []" by auto
    show ?thesis using True ne Cons.IH [OF inc] by (simp add: q set_segments_Cons)
  qed
qed

text \<open>A mapping whose target paths do not collide: no path is a prefix of another.\<close>

definition collision_free :: "FieldMapping \<Rightarrow> bool" where
  "collision_free mapping \<longleftrightarrow> distinct mapping \<and>
     (\<forall>(f, t) \<in> set mapping. \<forall>(g, u) \<in> set mapping. (f, t) \<noteq> (g, u) \<longrightarrow>
        incomparable (split_on CHR ''.'' f) (split_on CHR ''.'' g))"

definition put_field :: "env \<Rightarrow> json_map \<Rightarrow> string \<times> string \<Rightarrow> json_map \<Rightarrow> json_map" where
  "put_field E context ft m = set_dot_path m (fst ft) (JString (projr (env_tera E (snd ft) context)))"

definition renders :: "env \<Rightarrow> json_map \<Rightarrow> FieldMapping \<Rightarrow> bool" where
  "renders E context mapping \<longleftrightarrow> (\<forall>(f, t) \<in> set mapping. \<exists>s. env_tera E t context = Inr s)"

lemma render_loop_fold:
  "renders E context mapping \<Longrightarrow>
   render_loop E context mapping m = Inr (fold (put_field E context) mapping m)"
  by (induction mapping arbitrary: m) (auto simp: renders_def put_field_def)

lemma render_loop_Inl:
  "\<not> renders E context mapping \<Longrightarrow>
   \<exists>f t e. (f, t) \<in> set mapping \<and> env_tera E t context = Inl e \<and>
     render_loop E context mapping m = Inl (Template f e)"
proof (induction mapping arbitrary: m)
  case (Cons x mapping)
  obtain f t where x: "x = (f, t)" by (cases x)
  show ?case
  proof (cases "env_tera E t context")
    case (Inl e)
    with x show ?thesis by (intro exI [of _ f] exI [of _ t] exI [of _ e]) simp
  next
    case (Inr r)
    then have "\<not> renders E context mapping" using Cons.prems x by (auto simp: renders_def)
    from Cons.IH [OF this, of "set_dot_path m f (JString r)"] show ?thesis
      using Inr x by auto
  qed
qed (simp add: renders_def)

lemma put_field_commute:
  "incomparable (split_on CHR ''.'' (fst x)) (split_on CHR ''.'' (fst y)) \<Longrightarrow>
   put_field E context x \<circ> put_field E context y = put_field E context y \<circ> put_field E context x"
  by (simp add: fun_eq_iff put_field_def set_dot_path_def) (blast intro: set_segments_commute)

lemma collision_freeD:
  "collision_free mapping \<Longrightarrow> x \<in> set mapping \<Longrightarrow> y \<in> set mapping \<Longrightarrow> x \<noteq> y \<Longrightarrow>
   incomparable (split_on CHR ''.'' (fst x)) (split_on CHR ''.'' (fst y))"
  by (cases x; cases y) (auto simp: collision_free_def)

lemma render_fold_order:
  assumes "collision_free mapping" "mset mapping' = mset mapping"
  shows "fold (put_field E context) mapping' = fold (put_field E context) mapping"
proof (rule fold_multiset_equiv [symmetric])
  fix x y assume "x \<in> set mapping" "y \<in> set mapping"
  then show "put_field E context x \<circ> put_field E context y = put_field E context y \<circ> put_field E context x"
    using collision_freeD [OF assms(1)] put_field_commute by (cases "x = y") auto
qed (simp add: assms(2))

lemma put_fields_other:
  assumes "\<forall>z \<in> set zs. incomparable (split_on CHR ''.'' (fst z)) q"
  shows "json_path (JObject (fold (put_field E context) zs m)) q = json_path (JObject m) q"
  using assms
proof (induction zs arbitrary: m)
  case (Cons z zs)
  then have "json_path (JObject (put_field E context z m)) q = json_path (JObject m) q"
    by (simp add: put_field_def set_dot_path_def json_path_set_other)
  with Cons show ?case by simp
qed simp

lemma put_fields_found:
  assumes "collision_free ms" "x \<in> set ms"
  shows "json_path (JObject (fold (put_field E context) ms m)) (split_on CHR ''.'' (fst x)) =
    Some (JString (projr (env_tera E (snd x) context)))"
proof -
  obtain xs bs where ms: "ms = xs @ x # bs" using assms(2) by (auto simp: in_set_conv_decomp)
  then have "\<forall>z \<in> set bs. incomparable (split_on CHR ''.'' (fst z)) (split_on CHR ''.'' (fst x))"
    using collision_freeD [OF assms(1)] assms(1) by (auto simp: collision_free_def)
  from put_fields_other [OF this] show ?thesis
    by (simp add: ms put_field_def [of E "context" x] set_dot_path_def json_path_set_segments)
qed

text \<open>C19: rendering does not depend on the \<^verbatim>\<open>HashMap\<close>'s iteration order when no target path of
  the mapping is a prefix of another: every order gives the same payload, and every target
  field holds its rendered template in it.\<close>

theorem render_order_independent:
  assumes free: "collision_free mapping" and ok: "renders E context mapping"
    and perm: "mset mapping' = mset mapping"
  shows "\<exists>payload. render E mapping context = Inr payload \<and> render E mapping' context = Inr payload \<and>
    (\<forall>(target_field, template) \<in> set mapping. \<exists>s. env_tera E template context = Inr s \<and>
       json_path payload (split_on CHR ''.'' target_field) = Some (JString s))"
proof -
  have "set mapping' = set mapping" using perm by (metis set_mset_mset)
  then have "renders E context mapping'" using ok by (simp add: renders_def)
  then have "render E mapping context = Inr (JObject (fold (put_field E context) mapping []))"
    "render E mapping' context = Inr (JObject (fold (put_field E context) mapping []))"
    using ok by (simp_all add: render_def render_loop_fold render_fold_order [OF free perm])
  moreover have "\<exists>s. env_tera E t context = Inr s \<and>
      json_path (JObject (fold (put_field E context) mapping [])) (split_on CHR ''.'' f) = Some (JString s)"
    if ft: "(f, t) \<in> set mapping" for f t
  proof -
    obtain s where "env_tera E t context = Inr s" using ok ft by (auto simp: renders_def)
    with put_fields_found [OF free ft, of E "context" "[]"] show ?thesis by simp
  qed
  ultimately show ?thesis by blast
qed

text \<open>A template that fails makes the whole rendering fail: the error names a target field
  of the mapping and carries its template's error, and no payload is produced.\<close>

lemma render_fails_on_bad_template:
  assumes "\<not> renders E context mapping"
  shows "\<exists>f t e. (f, t) \<in> set mapping \<and> env_tera E t context = Inl e \<and>
    render E mapping context = Inl (Template f e)"
proof -
  obtain f t e where "(f, t) \<in> set mapping" "env_tera E t context = Inl e"
    "render_loop E context mapping [] = Inl (Template f e)"
    using render_loop_Inl [OF assms, of "[]"] by blast
  then show ?thesis by (auto simp: render_def)
qed

section \<open>What every connector promises\<close>

text \<open>The contract of \<^verbatim>\<open>TicketConnector::dispatch\<close> that the orchestrator relies on: the database
  is left alone, no panic, requests are only ever added, and success means that a request
  whose body is the wrapped payload was sent and answered with a 2xx status.\<close>

locale ticket_connector =
  fixes dispatch :: "env \<Rightarrow> 'c \<Rightarrow> json \<Rightarrow> (ConnectorError, DispatchResult) act"
    and wrap :: "'c \<Rightarrow> json \<Rightarrow> json"
  assumes dispatch_db: "w_db (snd (dispatch E c p w)) = w_db w"
    and dispatch_no_panic: "fst (dispatch E c p w) \<noteq> Panic"
    and dispatch_http: "prefix (w_http w) (w_http (snd (dispatch E c p w)))"
    and dispatch_Ok: "dispatch E c p w = (Ok r, w') \<Longrightarrow>
      \<exists>n rq rs. env_http E n rq = Inr rs \<and> is_success (hs_status rs) \<and>
        hr_body rq = Some (wrap c p) \<and> hr_method rq = ''POST'' \<and>
        rq \<in> set (drop (length (w_http w)) (w_http w'))"
begin

lemma dispatch_keeps: "keeps (\<lambda>w. I (w_db w)) (dispatch E c p)"
  by (rule keepsI) (simp add: dispatch_db)

lemma dispatch_cases:
  obtains r w' where "dispatch E c p w = (Ok r, w')" "w_db w' = w_db w"
    | e w' where "dispatch E c p w = (Err e, w')" "w_db w' = w_db w"
  using dispatch_db [of E c p w] dispatch_no_panic [of E c p w]
  by (cases "dispatch E c p w"; cases "fst (dispatch E c p w)") auto

end

lemma http_send_cases:
  obtains rs where "env_http E (w_io w) rq = Inr rs"
      "http_send E rq w = (Ok rs, w\<lparr>w_io := Suc (w_io w), w_http := w_http w @ [rq]\<rparr>)"
    | e where "http_send E rq w = (Err e, w\<lparr>w_io := Suc (w_io w), w_http := w_http w @ [rq]\<rparr>)"
  by (cases "env_http E (w_io w) rq") (auto simp: http_send_def)

definition jira_wrap :: "JiraConnector \<Rightarrow> json \<Rightarrow> json" where
  "jira_wrap c payload = JObject [(''fields'', payload)]"

interpretation jira: ticket_connector jira_dispatch jira_wrap
proof
  fix E c p w
  show "w_db (snd (jira_dispatch E c p w)) = w_db w" "fst (jira_dispatch E c p w) \<noteq> Panic"
    "prefix (w_http w) (w_http (snd (jira_dispatch E c p w)))"
    by (cases rule: http_send_cases [of E w "jira_request c p"];
        cases "get_str (body_or_null (projr (env_http E (w_io w) (jira_request c p)))) ''key''";
        simp add: jira_dispatch_def io_simps)+
next
  fix E c p w r w'
  assume "jira_dispatch E c p w = (Ok r, w')"
  then show "\<exists>n rq rs. env_http E n rq = Inr rs \<and> is_success (hs_status rs) \<and>
    hr_body rq = Some (jira_wrap c p) \<and> hr_method rq = ''POST'' \<and>
    rq \<in> set (drop (length (w_http w)) (w_http w'))"
    by (cases rule: http_send_cases [of E w "jira_request c p"])
      (auto simp: jira_dispatch_def io_simps jira_request_def jira_wrap_def ok_or_def
        split: if_splits option.splits intro!: exI [of _ "w_io w"] exI [of _ "jira_request c p"])
qed

definition webhook_wrap :: "WebhookConnector \<Rightarrow> json \<Rightarrow> json" where
  "webhook_wrap c payload = payload"

interpretation webhook: ticket_connector webhook_dispatch webhook_wrap
proof
  fix E c p w
  show "w_db (snd (webhook_dispatch E c p w)) = w_db w" "fst (webhook_dispatch E c p w) \<noteq> Panic"
    "prefix (w_http w) (w_http (snd (webhook_dispatch E c p w)))"
    by (cases rule: http_send_cases [of E w "webhook_request c p"];
        cases "get_str (body_or_null (projr (env_http E (w_io w) (webhook_request c p)))) ''id''";
        simp add: webhook_dispatch_def io_simps new_uuid_def)+
next
  fix E c p w r w'
  assume "webhook_dispatch E c p w = (Ok r, w')"
  then show "\<exists>n rq rs. env_http E n rq = Inr rs \<and> is_success (hs_status rs) \<and>
    hr_body rq = Some (webhook_wrap c p) \<and> hr_method rq = ''POST'' \<and>
    rq \<in> set (drop (length (w_http w)) (w_http w'))"
    by (cases rule: http_send_cases [of E w "webhook_request c p"])
      (auto simp: webhook_dispatch_def io_simps webhook_request_def webhook_wrap_def new_uuid_def
        split: if_splits option.splits intro!: exI [of _ "w_io w"] exI [of _ "webhook_request c p"])
qed

definition glpi_wrap :: "GlpiConnector \<Rightarrow> json \<Rightarrow> json" where
  "glpi_wrap c payload = JObject [(''input'', payload)]"

abbreviation sent :: "HttpRequest \<Rightarrow> world \<Rightarrow> world" where
  "sent rq w \<equiv> w\<lparr>w_io := Suc (w_io w), w_http := w_http w @ [rq]\<rparr>"

lemma init_session_effect:
  "\<exists>rq r. init_session E c w = (r, sent rq w) \<and> r \<noteq> Panic"
proof -
  let ?rq = "glpi_request c ''GET'' ''initSession''
    (''Authorization'', ''user_token '' @ glpi_user_token c) None"
  show ?thesis
    by (rule exI [of _ ?rq], cases rule: http_send_cases [of E w ?rq])
      (simp_all add: init_session_def io_simps ok_or_def split: option.split)
qed

lemma kill_session_effect:
  "\<exists>rq. kill_session E c t w = (Ok (), sent rq w)"
proof -
  let ?rq = "glpi_request c ''GET'' ''killSession'' (''Session-Token'', t) None"
  show ?thesis
    by (rule exI [of _ ?rq], cases rule: http_send_cases [of E w ?rq])
      (simp_all add: kill_session_def io_simps)
qed

lemma glpi_create_ticket_effect:
  "\<exists>rq r. glpi_create_ticket E c t p w = (r, sent rq w) \<and> r \<noteq> Panic \<and>
    hr_body rq = Some (glpi_wrap c p) \<and> hr_method rq = ''POST'' \<and>
    (\<forall>x. r = Ok x \<longrightarrow> (\<exists>rs. env_http E (w_io w) rq = Inr rs \<and> is_success (hs_status rs)))"
proof -
  let ?rq = "glpi_request c ''POST'' ''Ticket''
    (''Session-Token'', t) (Some (JObject [(''input'', p)]))"
  have "hr_body ?rq = Some (glpi_wrap c p)" "hr_method ?rq = ''POST''"
    by (simp_all add: glpi_request_def glpi_wrap_def)
  then show ?thesis
    by (intro exI [of _ ?rq], cases rule: http_send_cases [of E w ?rq])
      (simp_all add: glpi_create_ticket_def io_simps ok_or_def split: option.split)
qed

text \<open>A dispatch sends one request when the session is refused and three otherwise.\<close>

lemma glpi_dispatch_effect:
  obtains (refused) rq e where "glpi_dispatch E c p w = (Err e, sent rq w)"
    | (opened) rq1 rq2 rq3 r where "glpi_dispatch E c p w = (r, sent rq3 (sent rq2 (sent rq1 w)))"
      "r \<noteq> Panic" "hr_body rq2 = Some (glpi_wrap c p)" "hr_method rq2 = ''POST''"
      "\<forall>x. r = Ok x \<longrightarrow> (\<exists>rs. env_http E (Suc (w_io w)) rq2 = Inr rs \<and> is_success (hs_status rs))"
proof -
  obtain rq1 r1 where 1: "init_session E c w = (r1, sent rq1 w)" "r1 \<noteq> Panic"
    using init_session_effect by blast
  show ?thesis
  proof (cases r1)
    case (Ok t)
    obtain rq2 r2 where 2: "glpi_create_ticket E c t p (sent rq1 w) = (r2, sent rq2 (sent rq1 w))"
      "r2 \<noteq> Panic" "hr_body rq2 = Some (glpi_wrap c p)" "hr_method rq2 = ''POST''"
      "\<forall>x. r2 = Ok x \<longrightarrow> (\<exists>rs. env_http E (w_io (sent rq1 w)) rq2 = Inr rs \<and> is_success (hs_status rs))"
      using glpi_create_ticket_effect by blast
    obtain rq3 where 3: "kill_session E c t (sent rq2 (sent rq1 w)) =
        (Ok () :: (ConnectorError, unit) res, sent rq3 (sent rq2 (sent rq1 w)))"
      using kill_session_effect by blast
    have "glpi_dispatch E c p w = (r2, sent rq3 (sent rq2 (sent rq1 w)))"
      using 1(1) 2(1,2) 3 Ok by (cases r2) (simp_all add: glpi_dispatch_def io_simps)
    then show ?thesis using 2 by (intro opened) simp_all
  qed (use 1 refused in \<open>auto simp: glpi_dispatch_def io_simps\<close>)
qed

interpretation glpi: ticket_connector glpi_dispatch glpi_wrap
proof
  fix E c p w
  show "w_db (snd (glpi_dispatch E c p w)) = w_db w" "fst (glpi_dispatch E c p w) \<noteq> Panic"
    "prefix (w_http w) (w_http (snd (glpi_dispatch E c p w)))"
    by (cases rule: glpi_dispatch_effect [of E c p w]; simp)+
next
  fix E c p w r w'
  assume "glpi_dispatch E c p w = (Ok r, w')"
  then show "\<exists>n rq rs. env_http E n rq = Inr rs \<and> is_success (hs_status rs) \<and>
    hr_body rq = Some (glpi_wrap c p) \<and> hr_method rq = ''POST'' \<and>
    rq \<in> set (drop (length (w_http w)) (w_http w'))"
  proof (cases rule: glpi_dispatch_effect [of E c p w])
    case (opened rq1 rq2 rq3 r2)
    with \<open>glpi_dispatch E c p w = (Ok r, w')\<close> show ?thesis
      by (intro exI [of _ "Suc (w_io w)"] exI [of _ rq2]) auto
  qed simp
qed

fun connector_wrap :: "connector \<Rightarrow> json \<Rightarrow> json" where
  "connector_wrap (JiraC c) p = jira_wrap c p"
| "connector_wrap (GlpiC c) p = glpi_wrap c p"
| "connector_wrap (WebhookC c) p = webhook_wrap c p"

interpretation registered: ticket_connector connector_dispatch connector_wrap
proof
  fix E c p w
  show "w_db (snd (connector_dispatch E c p w)) = w_db w"
    "fst (connector_dispatch E c p w) \<noteq> Panic"
    "prefix (w_http w) (w_http (snd (connector_dispatch E c p w)))"
    by (cases c; simp add: jira.dispatch_db glpi.dispatch_db webhook.dispatch_db
        jira.dispatch_no_panic glpi.dispatch_no_panic webhook.dispatch_no_panic
        jira.dispatch_http glpi.dispatch_http webhook.dispatch_http)+
next
  fix E c p w r w'
  assume "connector_dispatch E c p w = (Ok r, w')"
  then show "\<exists>n rq rs. env_http E n rq = Inr rs \<and> is_success (hs_status rs) \<and>
    hr_body rq = Some (connector_wrap c p) \<and> hr_method rq = ''POST'' \<and>
    rq \<in> set (drop (length (w_http w)) (w_http w'))"
    by (cases c) (simp_all add: jira.dispatch_Ok glpi.dispatch_Ok webhook.dispatch_Ok)
qed

lemmas connector_dispatch_keeps [keeps_intros] = registered.dispatch_keeps

text \<open>Whichever connector is registered, a dispatch that reports success has sent a POST
  request whose body is the payload in the target system's envelope (\<^verbatim>\<open>fields\<close> for Jira,
  \<^verbatim>\<open>input\<close> for GLPI, bare for a webhook) and got a 2xx answer to it; whatever happens, the
  database is left alone and the handler does not panic.\<close>

lemma dispatch_success_is_real:
  "w_db (snd (connector_dispatch E c p w)) = w_db w \<and> fst (connector_dispatch E c p w) \<noteq> Panic \<and>
   (\<forall>r w'. connector_dispatch E c p w = (Ok r, w') \<longrightarrow>
      (\<exists>n rq rs. env_http E n rq = Inr rs \<and> is_success (hs_status rs) \<and>
        hr_body rq = Some (connector_wrap c p) \<and> hr_method rq = ''POST'' \<and>
        rq \<in> set (drop (length (w_http w)) (w_http w'))))"
  using registered.dispatch_db registered.dispatch_no_panic registered.dispatch_Ok by blast

lemma registered_if_all:
  "(case (a, b, c) of (Some x, Some y, Some z) \<Rightarrow> m(k \<mapsto> f x y z) | _ \<Rightarrow> m) =
   (if a \<noteq> None \<and> b \<noteq> None \<and> c \<noteq> None then m(k \<mapsto> f (the a) (the b) (the c)) else m)"
  by (auto split: option.split)

text \<open>A connector is registered for a target system exactly when all its credentials are
  configured; it then serves that target system, and Freshservice never has one.\<close>

lemma registry_serves_its_target:
  "(\<forall>c. registry_get (registry_from_config cfg) target = Some c \<longrightarrow> target_system c = target) \<and>
   (registry_get (registry_from_config cfg) target \<noteq> None \<longleftrightarrow>
     (case target of
        Webhook \<Rightarrow> cc_webhook_url cfg \<noteq> None
      | Jira \<Rightarrow> cc_jira_base_url cfg \<noteq> None \<and> cc_jira_email cfg \<noteq> None \<and> cc_jira_api_token cfg \<noteq> None
      | Glpi \<Rightarrow> cc_glpi_base_url cfg \<noteq> None \<and> cc_glpi_app_token cfg \<noteq> None \<and>
                cc_glpi_user_token cfg \<noteq> None
      | Freshservice \<Rightarrow> False))"
  unfolding registry_get_def registry_from_config_def Let_def registered_if_all
  by (cases target; cases "cc_webhook_url cfg") auto

section \<open>Witnesses\<close>

definition sample_mapping :: FieldMapping where
  "sample_mapping = [(''project.key'', ''ITHD''), (''summary'', ''New device'')]"

definition sample_config :: ConnectorsConfig where
  "sample_config = \<lparr>cc_webhook_url = None, cc_webhook_bearer_token = None,
     cc_jira_base_url = Some ''https://jira/'', cc_jira_email = Some ''bot@x'',
     cc_jira_api_token = Some ''t'', cc_glpi_base_url = Some ''https://glpi'',
     cc_glpi_app_token = None, cc_glpi_user_token = None\<rparr>"

lemma sample_mapping_ok:
  "collision_free sample_mapping" "renders E0 [] sample_mapping"
  by (simp_all add: sample_mapping_def collision_free_def incomparable_def renders_def sample_env_def)

theorem render_order_independent_witness:
  "\<exists>payload. render E0 sample_mapping [] = Inr payload \<and> render E0 (rev sample_mapping) [] = Inr payload \<and>
    (\<forall>(target_field, template) \<in> set sample_mapping. \<exists>s. env_tera E0 template [] = Inr s \<and>
       json_path payload (split_on CHR ''.'' target_field) = Some (JString s))"
  by (rule render_order_independent [OF sample_mapping_ok]) simp

lemma render_fails_on_bad_template_example:
  "\<exists>f t e. (f, t) \<in> set sample_mapping \<and>
     env_tera (E0\<lparr>env_tera := \<lambda>_ _. Inl ''bad''\<rparr>) t [] = Inl e \<and>
     render (E0\<lparr>env_tera := \<lambda>_ _. Inl ''bad''\<rparr>) sample_mapping [] = Inl (Template f e)"
  by (rule render_fails_on_bad_template) (auto simp: renders_def sample_mapping_def)

lemma dispatch_success_is_real_example:
  "\<exists>r w'. connector_dispatch E0 (JiraC (jira_new ''https://jira/'' ''bot@x'' ''t'')) JNull sample_world = (Ok r, w') \<and>
     dr_external_ticket_url r = Some ''https://jira/browse/IT-1'' \<and>
     (\<exists>n rq rs. env_http E0 n rq = Inr rs \<and> is_success (hs_status rs) \<and>
        hr_body rq = Some (JObject [(''fields'', JNull)]) \<and> hr_method rq = ''POST'' \<and>
        rq \<in> set (drop (length (w_http sample_world)) (w_http w')))"
proof -
  let ?c = "JiraC (jira_new ''https://jira/'' ''bot@x'' ''t'')"
  obtain r w' where ok: "connector_dispatch E0 ?c JNull sample_world = (Ok r, w')"
    and url: "dr_external_ticket_url r = Some ''https://jira/browse/IT-1''"
    by (simp add: jira_dispatch_def io_simps http_send_def sample_env_def is_success_def get_str_def
        body_or_null_def json_get_def obj_get_def jira_new_def trim_end_slashes_def)
  show ?thesis
    using ok url dispatch_success_is_real [of E0 ?c JNull sample_world]
    by (auto simp: jira_wrap_def)
qed

lemma registry_serves_its_target_example:
  "\<exists>c. registry_get (registry_from_config sample_config) Jira = Some c \<and> target_system c = Jira \<and>
     registry_get (registry_from_config sample_config) Glpi = None"
  using registry_serves_its_target [of sample_config Jira] registry_serves_its_target [of sample_config Glpi]
  by (auto simp: sample_config_def)

end
