(* ===== verification/Approvals.thy ===== *)
theory Approvals
  imports Connectors
begin

text \<open>
  The \<^verbatim>\<open>servcat_approvals\<close> crate (\<^verbatim>\<open>src/crates/approvals/src\<close>): who has to approve
  (\<^verbatim>\<open>resolution.rs\<close>), creating and deciding approvals (\<^verbatim>\<open>service.rs\<close>), telling the approver
  (\<^verbatim>\<open>notifier.rs\<close>) and expiring approvals that nobody decided (\<^verbatim>\<open>poller.rs\<close>).

  The crate has two interfaces, and both are locales here: a notifier never fails and never
  touches the database (\<open>approval_notifier\<close>); an expiry handler restores an invariant that
  flipping an approval to expired has broken (\<open>expired_approval_handler\<close>), which is what the
  poller needs to keep it. The relay's answers, lettre's parser of addresses and chrono-tz are parameters of the environment.
\<close>

section \<open>error.rs\<close>

datatype ApprovalsError =
    Db DbError
  | RequesterHasNoManager
  | RequesterHasNoDepartment
  | NoUserWithRoleInDepartment Role
  | AlreadyDecided uuid
  | NotTheApprover uuid uuid
      \<comment> \<open>approval\_id, user\_id\<close>
  | ApprovalNotFound uuid

section \<open>notifier.rs\<close>

datatype SmtpSecurity = StartTls | ImplicitTls | NoTls

record MailerConfig =
  mc_host :: string
  mc_port :: "16 word option"
  mc_security :: SmtpSecurity
  mc_username :: "string option"
  mc_password :: "string option"
  mc_from_address :: string
  mc_from_name :: "string option"
  mc_app_base_url :: "string option"

datatype MailerBuildError = Smtp string | FromAddress string

datatype MailerSendError = InvalidAddress string | Build string | Send string

record Mailer =
  mailer_transport :: SmtpTransport
  mailer_from :: string
  mailer_app_base_url :: "string option"

text \<open>\<^verbatim>\<open>starttls_relay\<close> and \<^verbatim>\<open>relay\<close> can refuse the host's name, \<^verbatim>\<open>builder_dangerous\<close> cannot. A port
  that is not set leaves the builder's default (\<open>None\<close>).\<close>

fun smtp_builder :: "env \<Rightarrow> SmtpSecurity \<Rightarrow> string \<Rightarrow> MailerBuildError + smtp_relay" where
  "smtp_builder E StartTls host =
     (case env_smtp_relay E (StarttlsRelay host) of Inl e \<Rightarrow> Inl (Smtp e) | Inr _ \<Rightarrow> Inr (StarttlsRelay host))"
| "smtp_builder E ImplicitTls host =
     (case env_smtp_relay E (Relay host) of Inl e \<Rightarrow> Inl (Smtp e) | Inr _ \<Rightarrow> Inr (Relay host))"
| "smtp_builder E NoTls host = Inr (BuilderDangerous host)"

definition mailer_new :: "env \<Rightarrow> MailerConfig \<Rightarrow> MailerBuildError + Mailer" where
  "mailer_new E cfg =
     (case smtp_builder E (mc_security cfg) (mc_host cfg) of
        Inl e \<Rightarrow> Inl e
      | Inr relay \<Rightarrow>
          (let transport =
             \<lparr>tr_relay = relay, tr_port = mc_port cfg,
              tr_credentials = (case (mc_username cfg, mc_password cfg) of
                  (Some username, Some password) \<Rightarrow> Some (username, password)
                | _ \<Rightarrow> None)\<rparr>;
             sender = (case mc_from_name cfg of
                  Some name \<Rightarrow> name @ '' <'' @ mc_from_address cfg @ ''>''
                | None \<Rightarrow> mc_from_address cfg)
           in case env_mailbox_parse E sender of
                Inl e \<Rightarrow> Inl (FromAddress e)
              | Inr mailbox \<Rightarrow> Inr
                  \<lparr>mailer_transport = transport, mailer_from = mailbox,
                   mailer_app_base_url = mc_app_base_url cfg\<rparr>))"

definition send_plain_text ::
    "env \<Rightarrow> Mailer \<Rightarrow> string \<Rightarrow> string \<Rightarrow> string \<Rightarrow> (MailerSendError, unit) act" where
  "send_plain_text E mailer recipient subject body =
     bindM (map_err InvalidAddress (lift_sum (env_mailbox_parse E recipient))) (\<lambda>mailbox.
     let message = \<lparr>ml_from = mailer_from mailer, ml_to = mailbox, ml_subject = subject, ml_body = body\<rparr> in
     bindM (map_err Build (lift_sum (env_mail_build E message))) (\<lambda>_.
     map_err Send (smtp_send E (mailer_transport mailer) message)))"

record NewApprovalNotification =
  nn_approval :: PendingApproval
  nn_approver :: User
  nn_requester :: User
  nn_catalog_item_name :: string
  nn_org_timezone :: string

datatype ApprovalNotifier = LoggingNotifier | SmtpNotifier Mailer

definition newline :: string where
  "newline = [CHR 0x0A]"

definition quote :: string where
  "quote = [CHR 0x22]"

text \<open>The expiry date in the organisation's time zone, in UTC when its name is not known.\<close>

definition format_local :: "env \<Rightarrow> timestamp \<Rightarrow> string \<Rightarrow> string" where
  "format_local E dt tz_name =
     (if env_tz_valid E tz_name then env_format_local E dt tz_name else env_format_utc E dt)"

definition notification_body :: "env \<Rightarrow> Mailer \<Rightarrow> NewApprovalNotification \<Rightarrow> string" where
  "notification_body E mailer ctx =
     u_display_name (nn_requester ctx) @ '' requested '' @ quote @ nn_catalog_item_name ctx @ quote @
       '' and it is now waiting on your approval.'' @ newline @
     (case pa_expires_at (nn_approval ctx) of
        None \<Rightarrow> ''''
      | Some expires_at \<Rightarrow>
          ''This request will automatically be rejected on '' @
          format_local E expires_at (nn_org_timezone ctx) @
          '' if it isn't decided before then.'' @ newline) @
     (case mailer_app_base_url mailer of
        None \<Rightarrow> ''''
      | Some base_url \<Rightarrow>
          newline @ ''Decide it here: '' @ trim_end_slashes base_url @ ''/approvals'' @ newline)"

definition smtp_notify :: "env \<Rightarrow> Mailer \<Rightarrow> NewApprovalNotification \<Rightarrow> ('e, unit) act" where
  "smtp_notify E mailer ctx =
     bindM (try_io (send_plain_text E mailer (u_email (nn_approver ctx))
              (''Approval needed: '' @ nn_catalog_item_name ctx) (notification_body E mailer ctx)))
       (\<lambda>_. return ())"

definition logging_notify :: "env \<Rightarrow> NewApprovalNotification \<Rightarrow> ('e, unit) act" where
  "logging_notify E ctx = return ()"

fun notify_new_approval ::
    "env \<Rightarrow> ApprovalNotifier \<Rightarrow> NewApprovalNotification \<Rightarrow> ('e, unit) act" where
  "notify_new_approval E LoggingNotifier ctx = logging_notify E ctx"
| "notify_new_approval E (SmtpNotifier mailer) ctx = smtp_notify E mailer ctx"

definition default_notifier :: ApprovalNotifier where
  "default_notifier = LoggingNotifier"

section \<open>resolution.rs\<close>

fun resolve_approver_user_id ::
    "env \<Rightarrow> User \<Rightarrow> ApproverResolution \<Rightarrow> (ApprovalsError, uuid) act" where
  "resolve_approver_user_id E requester (Static user_id) = return user_id"
| "resolve_approver_user_id E requester ManagerOfRequester =
     ok_or RequesterHasNoManager (u_manager_user_id requester)"
| "resolve_approver_user_id E requester (RoleInDepartment role) =
     bindM (ok_or RequesterHasNoDepartment (u_department_id requester)) (\<lambda>department_id.
     bindM (map_err Db (users_list_active_by_role_in_department E role department_id)) (\<lambda>candidates.
     ok_or (NoUserWithRoleInDepartment role)
       (case candidates of [] \<Rightarrow> None | u # _ \<Rightarrow> Some (u_id u))))"

section \<open>service.rs\<close>

text \<open>\<^verbatim>\<open>Utc::now() + ChronoDuration::seconds(secs)\<close> panics when the sum is out of chrono's range.\<close>

definition expiry_time :: "env \<Rightarrow> i64 option \<Rightarrow> ('e, timestamp option) act" where
  "expiry_time E timeout_seconds =
     (case timeout_seconds of
        None \<Rightarrow> return None
      | Some secs \<Rightarrow>
          bindM (utc_now E) (\<lambda>now.
          case env_add_seconds E now secs of
            None \<Rightarrow> panic
          | Some t \<Rightarrow> return (Some t)))"

text \<open>The name of the catalog item the mail shows.\<close>

definition catalog_item_name_for :: "env \<Rightarrow> uuid \<Rightarrow> (ApprovalsError, string) act" where
  "catalog_item_name_for E workflow_instance_id =
     bindM (map_err Db (instances_get_by_id E workflow_instance_id)) (\<lambda>instance.
     case instance of
       None \<Rightarrow> return ''(unknown request)''
     | Some instance \<Rightarrow>
         bindM (map_err Db (catalog_get_by_id E (wi_catalog_item_id instance))) (\<lambda>item.
         return (case item of None \<Rightarrow> ''(deleted service)'' | Some item \<Rightarrow> ci_name item)))"

definition create_for_instance ::
    "env \<Rightarrow> ApprovalNotifier \<Rightarrow> uuid \<Rightarrow> string \<Rightarrow> User \<Rightarrow> ApproverResolution \<Rightarrow> i64 option \<Rightarrow>
     (ApprovalsError, PendingApproval) act" where
  "create_for_instance E notifier workflow_instance_id step_id requester resolution timeout_seconds =
     bindM (resolve_approver_user_id E requester resolution) (\<lambda>approver_user_id.
     bindM (expiry_time E timeout_seconds) (\<lambda>expires_at.
     bindM (map_err Db (approvals_create E workflow_instance_id step_id approver_user_id expires_at)) (\<lambda>approval.
     bindM (map_err Db (users_get_by_id E approver_user_id)) (\<lambda>approver.
     case approver of
       None \<Rightarrow> return approval
     | Some approver \<Rightarrow>
         bindM (catalog_item_name_for E workflow_instance_id) (\<lambda>catalog_item_name.
         bindM (map_err Db (org_settings_get E)) (\<lambda>settings.
         bindM (notify_new_approval E notifier
                  \<lparr>nn_approval = approval, nn_approver = approver, nn_requester = requester,
                   nn_catalog_item_name = catalog_item_name,
                   nn_org_timezone = os_timezone settings\<rparr>) (\<lambda>_.
         return approval)))))))"

fun decision_status :: "ApprovalDecision \<Rightarrow> ApprovalStatus" where
  "decision_status Approve = Approved"
| "decision_status Reject = RejectedApproval"

definition decide ::
    "env \<Rightarrow> uuid \<Rightarrow> uuid \<Rightarrow> ApprovalDecision \<Rightarrow> string option \<Rightarrow> (ApprovalsError, PendingApproval) act" where
  "decide E approval_id deciding_user_id decision comment =
     bindM (map_err Db (approvals_get_by_id E approval_id)) (\<lambda>found.
     bindM (ok_or (ApprovalNotFound approval_id) found) (\<lambda>approval.
     if pa_approver_user_id approval \<noteq> deciding_user_id
     then fail (NotTheApprover approval_id deciding_user_id)
     else if pa_status approval \<noteq> Pending then fail (AlreadyDecided approval_id)
     else
       bindM (map_err Db (approvals_decide E approval_id (decision_status decision) comment)) (\<lambda>flipped.
       if \<not> flipped then fail (AlreadyDecided approval_id)
       else
         bindM (map_err Db (approvals_get_by_id E approval_id)) (\<lambda>decided.
         ok_or (ApprovalNotFound approval_id) decided))))"

section \<open>poller.rs\<close>

text \<open>\<^verbatim>\<open>poll_once\<close> over any \<^verbatim>\<open>ExpiredApprovalHandler\<close>. Resuming a workflow may not return, so the
  handler, and the loop, are runs.\<close>

definition expiry_comment :: string where
  "expiry_comment = ''auto-expired: approval timeout reached''"

fun expire_all ::
    "env \<Rightarrow> (PendingApproval \<Rightarrow> (world, DbError, unit) run) \<Rightarrow> PendingApproval list \<Rightarrow>
     (world, DbError, unit) run" where
  "expire_all E handler [] w = Some (Ok (), w)"
| "expire_all E handler (approval # expired) w =
     then_run (approvals_decide E (pa_id approval) Expired (Some expiry_comment)) (\<lambda>flipped w1.
       if flipped then
         (case handler approval w1 of
            None \<Rightarrow> None
          | Some (Ok _, w2) \<Rightarrow> expire_all E handler expired w2
          | Some (Err e, w2) \<Rightarrow> Some (Err e, w2)
          | Some (Panic, w2) \<Rightarrow> Some (Panic, w2))
       else expire_all E handler expired w1) w"

definition poll_once ::
    "env \<Rightarrow> (PendingApproval \<Rightarrow> (world, DbError, unit) run) \<Rightarrow> (world, DbError, unit) run" where
  "poll_once E handler = then_run (approvals_list_expired E) (expire_all E handler)"

section \<open>Notifiers\<close>

text \<open>The contract of \<^verbatim>\<open>ApprovalNotifier\<close>: implementations swallow their own failures.\<close>

locale approval_notifier =
  fixes notify :: "env \<Rightarrow> 'n \<Rightarrow> NewApprovalNotification \<Rightarrow> ('e, unit) act"
  assumes notify_Ok: "fst (notify E n ctx w) = Ok ()"
    and notify_db: "w_db (snd (notify E n ctx w)) = w_db w"
begin

lemma notify_keeps: "keeps (\<lambda>w. I (w_db w)) (notify E n ctx)"
  by (rule keepsI) (simp add: notify_db)

lemma notify_then: "\<exists>w'. w_db w' = w_db w \<and> bindM (notify E n ctx) f w = f () w'"
  using notify_Ok [of E n ctx w] notify_db [of E n ctx w]
  by (cases "notify E n ctx w") (auto simp: bindM_def)

end

text \<open>Whatever becomes of a mail, sending it touches no table and does not panic.\<close>

lemma send_plain_text_effect:
  "fst (send_plain_text E mailer recipient subject body w) \<noteq> Panic \<and>
   w_db (snd (send_plain_text E mailer recipient subject body w)) = w_db w"
  by (cases "env_mailbox_parse E recipient")
    (auto simp: send_plain_text_def smtp_send_def io_simps Let_def lift_sum_def split: sum.split)

interpretation smtp_notifier: approval_notifier smtp_notify
proof
  fix E mailer ctx w
  show "fst (smtp_notify E mailer ctx w) = Ok ()" "w_db (snd (smtp_notify E mailer ctx w)) = w_db w"
    using send_plain_text_effect [of E mailer "u_email (nn_approver ctx)"
        "''Approval needed: '' @ nn_catalog_item_name ctx" "notification_body E mailer ctx" w]
    by (auto simp: smtp_notify_def io_simps try_io_def split: res.splits prod.splits)
qed

interpretation logging_notifier: approval_notifier "\<lambda>E (u :: unit). logging_notify E"
  by unfold_locales (simp_all add: logging_notify_def)

interpretation notifier: approval_notifier notify_new_approval
proof
  fix E n ctx w
  show "fst (notify_new_approval E n ctx w) = Ok ()"
    "w_db (snd (notify_new_approval E n ctx w)) = w_db w"
    by (cases n; simp add: logging_notify_def smtp_notifier.notify_Ok smtp_notifier.notify_db)+
qed

lemmas notify_new_approval_keeps [keeps_intros] = notifier.notify_keeps

section \<open>Who approves\<close>

lemma resolve_keeps [keeps_intros]: "keeps (\<lambda>w. I (w_db w)) (resolve_approver_user_id E requester res)"
  by (cases res) (auto intro!: keeps_intros)

lemma order_by_hd:
  assumes "order_by key rows = u # us"
  shows "u \<in> set rows \<and> (\<forall>v \<in> set rows. key u \<le> key v)"
proof -
  have "set rows = set (u # us)" using assms set_order_by by metis
  moreover have "sorted (map key (u # us))" using assms by (metis order_by_def sorted_sort_key)
  ultimately show ?thesis by auto
qed

text \<open>The approver a step resolves to is the one its rule names: the fixed user, the
  requester's manager, or, for a role in the requester's department, an active user with
  that role in that department whose display name sorts first among all of them.\<close>

lemma resolved_approver:
  assumes "resolve_approver_user_id E requester resolution w = (Ok approver, w')"
  shows "case resolution of
      Static user_id \<Rightarrow> approver = user_id
    | ManagerOfRequester \<Rightarrow> u_manager_user_id requester = Some approver
    | RoleInDepartment role \<Rightarrow>
        (\<exists>dept u. u_department_id requester = Some dept \<and> u \<in> set (db_users (w_db w)) \<and>
          u_id u = approver \<and> u_is_active u \<and> u_role u = role \<and> u_department_id u = Some dept \<and>
          (\<forall>v \<in> set (db_users (w_db w)).
             u_is_active v \<and> u_role v = role \<and> u_department_id v = Some dept \<longrightarrow>
             env_collate E (u_display_name u) \<le> env_collate E (u_display_name v)))"
proof (cases resolution)
  case (RoleInDepartment role)
  obtain dept where dept: "u_department_id requester = Some dept"
    using assms RoleInDepartment by (cases "u_department_id requester") auto
  then obtain cs w1 where cs: "users_list_active_by_role_in_department E role dept w = (Ok cs, w1)"
    and "ok_or (NoUserWithRoleInDepartment role)
       (case cs of [] \<Rightarrow> None | u # _ \<Rightarrow> Some (u_id u)) w1 = (Ok approver, w')"
    using assms RoleInDepartment by (auto elim!: bindM_OkE)
  then obtain u us where u: "cs = u # us" "u_id u = approver" by (cases cs) auto
  have "cs = order_by (\<lambda>r. env_collate E (u_display_name r))
      (filter (\<lambda>r. u_role r = role \<and> u_department_id r = Some dept \<and> u_is_active r) (db_users (w_db w)))"
    using sql_query_Ok [OF cs [unfolded users_list_active_by_role_in_department_def]] by simp
  then have "order_by (\<lambda>r. env_collate E (u_display_name r))
      (filter (\<lambda>r. u_role r = role \<and> u_department_id r = Some dept \<and> u_is_active r) (db_users (w_db w))) = u # us"
    using u by simp
  from order_by_hd [OF this] show ?thesis
    using RoleInDepartment dept u(2) by (auto intro!: exI [of _ u])
qed (use assms in \<open>auto simp: ok_or_def split: option.splits\<close>)

section \<open>Deciding\<close>

lemma expiry_time_keeps [keeps_intros]: "keeps I (expiry_time E t)"
  by (auto simp: expiry_time_def intro!: keeps_intros split: option.split)

lemma catalog_item_name_for_keeps [keeps_intros]: "keeps (\<lambda>w. I (w_db w)) (catalog_item_name_for E i)"
  unfolding catalog_item_name_for_def by (intro keeps_intros)

lemma create_for_instance_via_steps [keeps_intros]:
  "keeps (\<lambda>w. (db_step E)\<^sup>*\<^sup>* d0 (w_db w)) (create_for_instance E n i s rq res t)"
  unfolding create_for_instance_def by (intro keeps_intros)

lemma decide_via_steps [keeps_intros]:
  "keeps (\<lambda>w. (db_step E)\<^sup>*\<^sup>* d0 (w_db w)) (decide E a u dec c)"
  unfolding decide_def by (intro keeps_intros)

lemma approvals_get_Ok:
  "approvals_get_by_id E i w = (Ok x, w') \<Longrightarrow>
   x = find_row (\<lambda>r. pa_id r = i) (db_approvals (w_db w)) \<and> w_db w' = w_db w"
  unfolding approvals_get_by_id_def by (drule sql_query_Ok) simp

text \<open>C17: a decision that is reported as recorded was taken by the approver of that very approval
  while it was pending; the row returned is the pending row with the decided status, the
  comment and a decision time, and nothing else in the database has changed.\<close>

theorem decide_effect:
  assumes "decide E approval_id user_id decision comment w = (Ok a, w')"
  shows "\<exists>old \<in> set (db_approvals (w_db w)). \<exists>now.
    pa_id old = approval_id \<and> pa_approver_user_id old = user_id \<and> pa_status old = Pending \<and>
    a = old\<lparr>pa_status := decision_status decision, pa_comment := comment, pa_decided_at := Some now\<rparr> \<and>
    w_db w' = (w_db w)\<lparr>db_approvals := update_rows (\<lambda>r. pa_id r = approval_id \<and> pa_status r = Pending)
      (\<lambda>r. r\<lparr>pa_status := decision_status decision, pa_comment := comment, pa_decided_at := Some now\<rparr>)
      (db_approvals (w_db w))\<rparr>"
proof -
  let ?P = "\<lambda>r. pa_id r = approval_id \<and> pa_status r = Pending"
  obtain old w1 where old: "approvals_get_by_id E approval_id w = (Ok (Some old), w1)"
    and appr: "pa_approver_user_id old = user_id" and pend: "pa_status old = Pending"
    and rest: "bindM (map_err Db (approvals_decide E approval_id (decision_status decision) comment)) (\<lambda>flipped.
       if \<not> flipped then fail (AlreadyDecided approval_id)
       else bindM (map_err Db (approvals_get_by_id E approval_id)) (\<lambda>decided.
         ok_or (ApprovalNotFound approval_id) decided)) w1 = (Ok a, w')"
    using assms unfolding decide_def
    by (auto elim!: bindM_OkE simp: ok_or_def split: option.splits if_splits)
  have o: "find_row (\<lambda>r. pa_id r = approval_id) (db_approvals (w_db w)) = Some old" "w_db w1 = w_db w"
    using approvals_get_Ok [OF old] by auto
  obtain flipped w2 where dec: "approvals_decide E approval_id (decision_status decision) comment w1 = (Ok flipped, w2)"
    and rest2: "bindM (map_err Db (approvals_get_by_id E approval_id)) (ok_or (ApprovalNotFound approval_id)) w2 = (Ok a, w')"
    using rest by (auto elim!: bindM_OkE split: if_splits intro: bindM_Ok)
  define now where "now = env_time E (w_io w1)"
  let ?f = "\<lambda>r. r\<lparr>pa_status := decision_status decision, pa_comment := comment, pa_decided_at := Some now\<rparr>"
  have d2: "w_db w2 = (w_db w)\<lparr>db_approvals := update_rows ?P ?f (db_approvals (w_db w))\<rparr>"
    using dec o(2) unfolding approvals_decide_def
    by (auto elim!: bindM_OkE sql_OkE simp: approvals_decide_stmt_def Let_def now_def)
  obtain x where "approvals_get_by_id E approval_id w2 = (Ok x, w')" "x = Some a"
    using rest2 by (auto elim!: bindM_OkE simp: ok_or_def split: option.splits)
  then have fin: "find_row (\<lambda>r. pa_id r = approval_id) (update_rows ?P ?f (db_approvals (w_db w))) = Some a"
    "w_db w' = w_db w2"
    using approvals_get_Ok d2 by fastforce+
  have "find_row (\<lambda>r. pa_id r = approval_id) t = Some old \<Longrightarrow>
      find_row (\<lambda>r. pa_id r = approval_id) (update_rows ?P ?f t) = Some (?f old)" for t
    using pend by (induction t) (auto split: if_splits)
  with fin(1) o(1) have "a = ?f old" by simp
  then show ?thesis
    using find_row_SomeD [OF o(1)] appr pend d2 fin(2) by (intro bexI [of _ old] exI [of _ now]) simp_all
qed

text \<open>C18: nobody but the approver can decide, and nobody can decide twice: for any other user, or
  when the approval is not pending any more, the call is refused and the database is left
  exactly as it was.\<close>

theorem decide_refused:
  assumes "\<forall>a \<in> set (db_approvals (w_db w)). pa_id a = approval_id \<longrightarrow>
      pa_approver_user_id a \<noteq> user_id \<or> pa_status a \<noteq> Pending"
  shows "(\<nexists>a. fst (decide E approval_id user_id decision comment w) = Ok a) \<and>
    w_db (snd (decide E approval_id user_id decision comment w)) = w_db w"
proof (cases "approvals_get_by_id E approval_id w")
  case (Pair r w1)
  have db: "w_db w1 = w_db w"
    using sql_query_db [of E _ w] Pair unfolding approvals_get_by_id_def by (metis snd_conv)
  show ?thesis
  proof (cases r)
    case (Ok x)
    have x: "x = find_row (\<lambda>r. pa_id r = approval_id) (db_approvals (w_db w))"
      using approvals_get_Ok Pair Ok by blast
    show ?thesis
    proof (cases x)
      case None
      then show ?thesis using Pair Ok db by (simp add: decide_def io_simps)
    next
      case (Some a)
      then have "pa_approver_user_id a \<noteq> user_id \<or> pa_status a \<noteq> Pending"
        using assms find_row_SomeD [OF x [symmetric, unfolded Some]] by blast
      then show ?thesis using Some Pair Ok db by (auto simp: decide_def io_simps)
    qed
  qed (use Pair db in \<open>auto simp: decide_def io_simps\<close>)
qed

section \<open>Expiring\<close>

lemma approvals_persist:
  assumes "(db_step E)\<^sup>*\<^sup>* d d'" "a \<in> set (db_approvals d)"
  shows "\<exists>b \<in> set (db_approvals d'). same_request a b"
  using assms
proof (induction rule: rtranclp_induct)
  case base
  then show ?case by (intro bexI [of _ a]) simp_all
next
  case (step y z)
  then obtain b where "b \<in> set (db_approvals y)" "same_request a b" by blast
  with approval_step [OF step.hyps(2)] show ?case by (fastforce simp: same_request_def)
qed


text \<open>The contract of \<^verbatim>\<open>ExpiredApprovalHandler\<close>. \<open>inv\<close> holds between polls; flipping a pending
  approval to expired gives \<open>mid a\<close>, and the handler for \<open>a\<close> turns that back into \<open>inv\<close>. The
  poller hands over the row it read before its loop started; since the handler acts only
  through statements of the server, what that row says of the request is still true.\<close>

locale expired_approval_handler =
  fixes handle :: "env \<Rightarrow> 'h \<Rightarrow> PendingApproval \<Rightarrow> (world, DbError, unit) run"
    and good :: "env \<Rightarrow> bool"
    and inv :: "env \<Rightarrow> db \<Rightarrow> bool"
    and mid :: "env \<Rightarrow> PendingApproval \<Rightarrow> db \<Rightarrow> bool"
  assumes inv_keys: "inv E d \<Longrightarrow> uniq pa_id (db_approvals d)"
    and flip: "inv E d \<Longrightarrow> r \<in> set (db_approvals d) \<Longrightarrow> pa_status r = Pending \<Longrightarrow> same_request a r \<Longrightarrow>
      mid E a (snd (approvals_decide_stmt (pa_id a) Expired (Some expiry_comment) now d))"
    and mid_inv: "mid E a d \<Longrightarrow> inv E d"
    and handled: "good E \<Longrightarrow> mid E a (w_db w) \<Longrightarrow> handle E h a w = Some (q, w') \<Longrightarrow> inv E (w_db w')"
    and handle_steps: "handle E h a w = Some (q, w') \<Longrightarrow> (db_step E)\<^sup>*\<^sup>* (w_db w) (w_db w')"
begin

lemma flip_inv:
  assumes inv: "inv E d" and b: "b \<in> set (db_approvals d)" "same_request a b"
  shows "if \<exists>r \<in> set (db_approvals d). pa_id r = pa_id a \<and> pa_status r = Pending
    then mid E a (snd (approvals_decide_stmt (pa_id a) Expired (Some expiry_comment) now d))
    else snd (approvals_decide_stmt (pa_id a) Expired (Some expiry_comment) now d) = d"
proof (cases "\<exists>r \<in> set (db_approvals d). pa_id r = pa_id a \<and> pa_status r = Pending")
  case True
  then obtain r where r: "r \<in> set (db_approvals d)" "pa_id r = pa_id a" "pa_status r = Pending" by blast
  moreover have "r = b"
    using uniq_eqD [OF inv_keys [OF inv] r(1) b(1)] r(2) b(2) by (simp add: same_request_def)
  ultimately show ?thesis using True flip [OF inv r(1,3)] b(2) by simp
next
  case False
  then show ?thesis using decide_not_pending [of d "pa_id a"] by auto
qed

lemma approvals_decide_run:
  assumes "inv E (w_db w)" "b \<in> set (db_approvals (w_db w))" "same_request a b"
    and "approvals_decide E (pa_id a) Expired (Some expiry_comment) w = (r, w1)"
  shows "inv E (w_db w1) \<and> (db_step E)\<^sup>*\<^sup>* (w_db w) (w_db w1) \<and> (r = Ok True \<longrightarrow> mid E a (w_db w1))"
proof -
  let ?s = "approvals_decide_stmt (pa_id a) Expired (Some expiry_comment)" and ?n = "env_time E (w_io w)"
  have steps: "(db_step E)\<^sup>*\<^sup>* (w_db w) (w_db w1)"
    using assms(4) keepsD [OF write_ops_via_steps(18), of E "w_db w" w "pa_id a" Expired "Some expiry_comment"] by simp
  have w1: "w_db w1 = w_db w \<or> w_db w1 = snd (?s ?n (w_db w))"
    "r = Ok True \<Longrightarrow> w_db w1 = snd (?s ?n (w_db w)) \<and>
       filter (\<lambda>r. pa_id r = pa_id a \<and> pa_status r = Pending) (db_approvals (w_db w)) \<noteq> []"
    using assms(4) by (auto simp: approvals_decide_def io_simps sql_def Let_def
        approvals_decide_stmt_def split: fault.splits if_splits)
  show ?thesis
    using flip_inv [OF assms(1-3), of ?n] w1 steps assms(1) mid_inv
    by (auto simp: filter_empty_conv split: if_splits)
qed

lemma expire_all_inv:
  assumes "good E"
  shows "inv E (w_db w) \<Longrightarrow> \<forall>a \<in> set rows. \<exists>b \<in> set (db_approvals (w_db w)). same_request a b \<Longrightarrow>
    expire_all E (handle E h) rows w = Some (r, w') \<Longrightarrow> inv E (w_db w')"
proof (induction rows arbitrary: w)
  case (Cons a rest)
  obtain q w1 where dec: "approvals_decide E (pa_id a) Expired (Some expiry_comment) w = (q, w1)"
    by fastforce
  obtain b where b: "b \<in> set (db_approvals (w_db w))" "same_request a b" using Cons.prems(2) by auto
  note one = approvals_decide_run [OF Cons.prems(1) b dec]
  have later: "\<forall>a \<in> set rest. \<exists>b \<in> set (db_approvals d). same_request a b"
    if "(db_step E)\<^sup>*\<^sup>* (w_db w) d" for d
  proof
    fix c assume "c \<in> set rest"
    then obtain e where e: "e \<in> set (db_approvals (w_db w))" "same_request c e" using Cons.prems(2) by auto
    from approvals_persist [OF that e(1)] e(2) show "\<exists>b \<in> set (db_approvals d). same_request c b"
      by (fastforce simp: same_request_def)
  qed
  show ?case
  proof (cases "q = Ok True")
    case True
    then obtain hr w2 where h: "handle E h a w1 = Some (hr, w2)"
      using Cons.prems(3) dec by (auto simp: io_simps split: option.splits)
    have inv2: "inv E (w_db w2)" using handled [OF assms _ h] one True by simp
    have "(db_step E)\<^sup>*\<^sup>* (w_db w) (w_db w2)" using one handle_steps [OF h] by auto
    from Cons.IH [OF inv2 later [OF this]] show ?thesis
      using Cons.prems(3) dec True h inv2 by (cases hr) (auto simp: io_simps)
  next
    case False
    then show ?thesis
      using Cons.IH [of w1] later [of "w_db w1"] one Cons.prems(3) dec
      by (cases q) (auto simp: io_simps)
  qed
qed simp

lemma poll_once_inv:
  assumes "good E" "inv E (w_db w)" "poll_once E (handle E h) w = Some (r, w')"
  shows "inv E (w_db w')"
proof -
  obtain q w1 where l: "approvals_list_expired E w = (q, w1)" by fastforce
  have "w_db (snd (approvals_list_expired E w)) = w_db w" by (simp add: approvals_list_expired_def)
  with l have db: "w_db w1 = w_db w" by simp
  show ?thesis
  proof (cases q)
    case (Ok rows)
    then have "set rows \<subseteq> set (db_approvals (w_db w))"
      using sql_query_Ok [OF l [unfolded Ok approvals_list_expired_def]] by auto
    then have "\<forall>a \<in> set rows. \<exists>b \<in> set (db_approvals (w_db w1)). same_request a b"
      using db by (metis same_request_refl subsetD)
    then show ?thesis
      using expire_all_inv [OF assms(1), of w1 rows] assms(2,3) l Ok db
      by (auto simp: poll_once_def io_simps)
  qed (use assms l db in \<open>auto simp: poll_once_def io_simps\<close>)
qed

end

section \<open>Witnesses\<close>

lemma resolved_approver_example:
  "u_manager_user_id sample_requester = Some 1"
  using resolved_approver [of E0 sample_requester ManagerOfRequester sample_world 1 sample_world]
  by (simp add: sample_requester_def)

theorem decide_effect_witness:
  "\<exists>a w'. decide E0 6 1 Approve (Some ''fine'') sample_world = (Ok a, w') \<and>
     pa_status a = Approved \<and> pa_comment a = Some ''fine'' \<and>
     db_instances (w_db w') = [sample_instance]"
proof -
  obtain a w' where ok: "decide E0 6 1 Approve (Some ''fine'') sample_world = (Ok a, w')"
    by (simp add: decide_def approvals_get_by_id_def approvals_decide_def approvals_decide_stmt_def
        io_simps sql_def query_def sample_world_def sample_defs sample_env_def)
  show ?thesis
    using ok decide_effect [OF ok] by (auto simp: sample_world_def sample_db_def)
qed

theorem decide_refused_witness:
  "(\<nexists>a. fst (decide E0 6 2 Approve None sample_world) = Ok a) \<and>
    w_db (snd (decide E0 6 2 Approve None sample_world)) = w_db sample_world"
  by (rule decide_refused) (simp add: sample_world_def sample_defs)

end
