(* ===== verification/Workflow_Engine.thy ===== *)
theory Workflow_Engine
  imports Model
begin

text \<open>
  The \<^verbatim>\<open>servcat_workflow_engine\<close> crate (\<^verbatim>\<open>src/crates/workflow-engine/src/lib.rs\<close>): the pure
  interpreter of a workflow graph. \<open>auto_advance\<close> is the bounded loop that resolves
  branches; \<open>start\<close>, \<open>engine_submit_answer\<close>, \<open>engine_resume_after_approval\<close> and
  \<open>resume_after_ticket_dispatch\<close> are the four entry points. \<^verbatim>\<open>answers: &mut Answers\<close> is
  returned beside the result.

  The lemmas relate the loop to a relation without a bound (\<open>reaches\<close>: follow branches
  until a step that needs the outside world), show when the bound of 256 steps is enough,
  and that a graph whose references all resolve gives no error but the bound.
\<close>

type_synonym Answers = json_map

datatype EngineError =
    UnknownStep string
  | WrongStepKind string string string
      \<comment> \<open>step\_id, expected, found\<close>
  | UnexpectedField string string string
      \<comment> \<open>step\_id, expected\_field\_key, actual\_field\_key\<close>
  | EmptyGraph
  | TooManySteps nat

datatype Outcome =
    AwaitingAnswer string
  | AwaitingApproval ApproverResolution "i64 option"
  | ReadyToSubmitTicket
  | Finished EndOutcome

definition MAX_AUTO_STEPS :: nat where
  "MAX_AUTO_STEPS = 256"

definition find :: "WorkflowGraph \<Rightarrow> string \<Rightarrow> EngineError + Step" where
  "find graph step_id =
     (case graph_step graph step_id of None \<Rightarrow> Inl (UnknownStep step_id) | Some s \<Rightarrow> Inr s)"

fun kind_name :: "StepKind \<Rightarrow> string" where
  "kind_name (Question _ _ _ _ _) = ''question''"
| "kind_name (Branch _ _ _) = ''branch''"
| "kind_name (WaitForApproval _ _ _ _) = ''wait_for_approval''"
| "kind_name (SubmitTicket _) = ''submit_ticket''"
| "kind_name (End _) = ''end''"

fun eval_condition :: "Condition \<Rightarrow> Answers \<Rightarrow> bool" where
  "eval_condition (Equals field_key value) answers = (obj_get answers field_key = Some value)"
| "eval_condition (NotEquals field_key value) answers = (obj_get answers field_key \<noteq> Some value)"
| "eval_condition (Exists field_key) answers = (obj_get answers field_key \<noteq> None)"
| "eval_condition (In field_key values) answers =
     (case obj_get answers field_key of None \<Rightarrow> False | Some v \<Rightarrow> v \<in> set values)"
| "eval_condition (And conditions) answers = list_all (\<lambda>c. eval_condition c answers) conditions"
| "eval_condition (Or conditions) answers = list_ex (\<lambda>c. eval_condition c answers) conditions"
| "eval_condition (Not condition) answers = (\<not> eval_condition condition answers)"

text \<open>The body of the \<^verbatim>\<open>for _ in 0..MAX_AUTO_STEPS\<close> loop; the first argument counts the
  iterations that are left.\<close>

fun auto_loop :: "nat \<Rightarrow> WorkflowGraph \<Rightarrow> string \<Rightarrow> Answers \<Rightarrow> EngineError + (string \<times> Outcome)" where
  "auto_loop 0 graph step_id answers = Inl (TooManySteps MAX_AUTO_STEPS)"
| "auto_loop (Suc n) graph step_id answers =
     (case find graph step_id of
        Inl e \<Rightarrow> Inl e
      | Inr step \<Rightarrow>
          (case s_kind step of
             Question field_key _ _ _ _ \<Rightarrow> Inr (step_id, AwaitingAnswer field_key)
           | Branch condition on_true on_false \<Rightarrow>
               auto_loop n graph (if eval_condition condition answers then on_true else on_false)
                 answers
           | WaitForApproval resolution _ _ timeout_seconds \<Rightarrow>
               Inr (step_id, AwaitingApproval resolution timeout_seconds)
           | SubmitTicket _ \<Rightarrow> Inr (step_id, ReadyToSubmitTicket)
           | End outcome \<Rightarrow> Inr (step_id, Finished outcome)))"

definition auto_advance :: "WorkflowGraph \<Rightarrow> string \<Rightarrow> Answers \<Rightarrow> EngineError + (string \<times> Outcome)" where
  "auto_advance graph step_id answers = auto_loop MAX_AUTO_STEPS graph step_id answers"

definition start :: "WorkflowGraph \<Rightarrow> EngineError + (string \<times> Outcome)" where
  "start graph =
     (if graph_step graph (g_entry_step_id graph) = None then Inl EmptyGraph
      else auto_advance graph (g_entry_step_id graph) [])"

definition engine_submit_answer ::
  "WorkflowGraph \<Rightarrow> string \<Rightarrow> Answers \<Rightarrow> string \<Rightarrow> json \<Rightarrow>
   (EngineError + (string \<times> Outcome)) \<times> Answers" where
  "engine_submit_answer graph current_step_id answers field_key value =
     (case find graph current_step_id of
        Inl e \<Rightarrow> (Inl e, answers)
      | Inr step \<Rightarrow>
          (case s_kind step of
             Question expected_field_key _ _ _ next \<Rightarrow>
               if field_key \<noteq> expected_field_key
               then (Inl (UnexpectedField current_step_id expected_field_key field_key), answers)
               else let answers' = obj_insert field_key value answers
                    in (auto_advance graph next answers', answers')
           | kind \<Rightarrow>
               (Inl (WrongStepKind current_step_id ''question'' (kind_name kind)), answers)))"

definition engine_resume_after_approval ::
  "WorkflowGraph \<Rightarrow> string \<Rightarrow> Answers \<Rightarrow> ApprovalDecision \<Rightarrow> EngineError + (string \<times> Outcome)" where
  "engine_resume_after_approval graph current_step_id answers decision =
     (case find graph current_step_id of
        Inl e \<Rightarrow> Inl e
      | Inr step \<Rightarrow>
          (case s_kind step of
             WaitForApproval _ on_approve on_reject _ \<Rightarrow>
               auto_advance graph
                 (case decision of Approve \<Rightarrow> on_approve | Reject \<Rightarrow> on_reject) answers
           | kind \<Rightarrow> Inl (WrongStepKind current_step_id ''wait_for_approval'' (kind_name kind))))"

definition resume_after_ticket_dispatch ::
  "WorkflowGraph \<Rightarrow> string \<Rightarrow> Answers \<Rightarrow> EngineError + (string \<times> Outcome)" where
  "resume_after_ticket_dispatch graph current_step_id answers =
     (case find graph current_step_id of
        Inl e \<Rightarrow> Inl e
      | Inr step \<Rightarrow>
          (case s_kind step of
             SubmitTicket next \<Rightarrow> auto_advance graph next answers
           | kind \<Rightarrow> Inl (WrongStepKind current_step_id ''submit_ticket'' (kind_name kind))))"

section \<open>Reference semantics\<close>

text \<open>The outcome of a step that stops the walk; \<open>None\<close> for a branch, which never does.\<close>

fun outcome_of :: "StepKind \<Rightarrow> Outcome option" where
  "outcome_of (Question field_key _ _ _ _) = Some (AwaitingAnswer field_key)"
| "outcome_of (Branch _ _ _) = None"
| "outcome_of (WaitForApproval resolution _ _ timeout) = Some (AwaitingApproval resolution timeout)"
| "outcome_of (SubmitTicket _) = Some ReadyToSubmitTicket"
| "outcome_of (End outcome) = Some (Finished outcome)"

text \<open>A resting point: a step of the graph together with the outcome its kind demands.\<close>

definition rests_at :: "WorkflowGraph \<Rightarrow> string \<Rightarrow> Outcome \<Rightarrow> bool" where
  "rests_at graph step_id outcome \<longleftrightarrow>
     (\<exists>s. graph_step graph step_id = Some s \<and> outcome_of (s_kind s) = Some outcome)"

inductive branch_step :: "WorkflowGraph \<Rightarrow> Answers \<Rightarrow> string \<Rightarrow> string \<Rightarrow> bool"
  for graph :: WorkflowGraph and answers :: Answers where
  "graph_step graph step_id = Some s \<Longrightarrow> s_kind s = Branch c t f \<Longrightarrow>
   branch_step graph answers step_id (if eval_condition c answers then t else f)"

inductive_simps branch_step_iff: "branch_step graph answers step_id next"

text \<open>The walk without a bound on its length.\<close>

definition reaches :: "WorkflowGraph \<Rightarrow> Answers \<Rightarrow> string \<Rightarrow> string \<Rightarrow> Outcome \<Rightarrow> bool" where
  "reaches graph answers step_id step_id' outcome \<longleftrightarrow>
     (branch_step graph answers)\<^sup>*\<^sup>* step_id step_id' \<and> rests_at graph step_id' outcome"

text \<open>A cycle of branches that the walk from a step runs into.\<close>

definition branch_cycle :: "WorkflowGraph \<Rightarrow> Answers \<Rightarrow> string \<Rightarrow> bool" where
  "branch_cycle graph answers step_id \<longleftrightarrow>
     (\<exists>x. (branch_step graph answers)\<^sup>*\<^sup>* step_id x \<and> (branch_step graph answers)\<^sup>+\<^sup>+ x x)"

definition step_ids :: "WorkflowGraph \<Rightarrow> string set" where
  "step_ids graph = s_id ` set (g_steps graph)"

text \<open>The documented validity of a graph: the entry step and every referenced step exist.\<close>

fun successors :: "StepKind \<Rightarrow> string list" where
  "successors (Question _ _ _ _ next) = [next]"
| "successors (Branch _ on_true on_false) = [on_true, on_false]"
| "successors (WaitForApproval _ on_approve on_reject _) = [on_approve, on_reject]"
| "successors (SubmitTicket next) = [next]"
| "successors (End _) = []"

definition graph_wf :: "WorkflowGraph \<Rightarrow> bool" where
  "graph_wf graph \<longleftrightarrow> g_entry_step_id graph \<in> step_ids graph \<and>
     (\<forall>s \<in> set (g_steps graph). set (successors (s_kind s)) \<subseteq> step_ids graph)"

section \<open>Lemmas\<close>

lemma graph_step_Some: "graph_step g sid = Some s \<Longrightarrow> s \<in> set (g_steps g) \<and> s_id s = sid"
  by (auto simp: graph_step_def find_Some_iff in_set_conv_nth)

lemma graph_step_None_iff: "graph_step g sid = None \<longleftrightarrow> sid \<notin> step_ids g"
  by (auto simp: graph_step_def find_None_iff step_ids_def)

lemma graph_step_in_ids: "graph_step g sid = Some s \<Longrightarrow> sid \<in> step_ids g"
  using graph_step_None_iff [of g sid] by auto

lemma find_simps [simp]:
  "graph_step g sid = Some s \<Longrightarrow> find g sid = Inr s"
  "graph_step g sid = None \<Longrightarrow> find g sid = Inl (UnknownStep sid)"
  by (simp_all add: find_def)

lemma find_Inr_iff [simp]: "find g sid = Inr s \<longleftrightarrow> graph_step g sid = Some s"
  by (auto simp: find_def split: option.splits)

lemma find_Inl_iff [simp]: "find g sid = Inl e \<longleftrightarrow> e = UnknownStep sid \<and> graph_step g sid = None"
  by (auto simp: find_def split: option.splits)

lemma branch_step_det: "branch_step g a x y \<Longrightarrow> branch_step g a x z \<Longrightarrow> y = z"
  by (auto simp: branch_step_iff)

lemma branch_step_source: "branch_step g a x y \<Longrightarrow> x \<in> step_ids g"
  by (auto simp: branch_step_iff dest: graph_step_in_ids)

lemma rests_at_no_branch: "rests_at g sid out \<Longrightarrow> \<not> branch_step g a sid y"
  by (auto simp: rests_at_def branch_step_iff)

lemma rests_at_in_ids: "rests_at g sid out \<Longrightarrow> sid \<in> step_ids g"
  by (auto simp: rests_at_def dest: graph_step_in_ids)

text \<open>One iteration of the loop: unknown step, resting point, or one branch step.\<close>

lemma auto_loop_Suc:
  "auto_loop (Suc n) g sid a =
     (case graph_step g sid of
        None \<Rightarrow> Inl (UnknownStep sid)
      | Some s \<Rightarrow>
          (case s_kind s of
             Branch c t f \<Rightarrow> auto_loop n g (if eval_condition c a then t else f) a
           | k \<Rightarrow> Inr (sid, the (outcome_of k))))"
  by (auto simp: find_def split: option.split StepKind.split)

lemma auto_loop_rest: "rests_at g sid out \<Longrightarrow> auto_loop (Suc n) g sid a = Inr (sid, out)"
  by (auto simp: rests_at_def auto_loop_Suc simp del: auto_loop.simps split: StepKind.split)

lemma auto_loop_branch: "branch_step g a sid y \<Longrightarrow> auto_loop (Suc n) g sid a = auto_loop n g y a"
  by (auto simp: branch_step_iff)

lemma step_cases:
  obtains (unknown) "graph_step g sid = None"
    | (rest) out where "rests_at g sid out"
    | (branch) y where "branch_step g a sid y"
proof (cases "graph_step g sid")
  case None
  then show ?thesis by (rule unknown)
next
  case (Some s)
  then show ?thesis
    by (cases "s_kind s") (auto simp: rests_at_def branch_step_iff intro: rest branch)
qed

lemma auto_loop_reaches: "auto_loop n g sid a = Inr (sid', out) \<Longrightarrow> reaches g a sid sid' out"
proof (induction n arbitrary: sid)
  case 0
  then show ?case by simp
next
  case (Suc n)
  show ?case
  proof (cases rule: step_cases [where g = g and sid = sid and a = a])
    case unknown
    with Suc.prems show ?thesis by simp
  next
    case (rest out')
    with Suc.prems show ?thesis by (simp add: auto_loop_rest reaches_def del: auto_loop.simps)
  next
    case (branch y)
    with Suc show ?thesis
      by (auto simp: auto_loop_branch reaches_def simp del: auto_loop.simps
          intro: converse_rtranclp_into_rtranclp)
  qed
qed

lemma auto_advance_rests: "auto_advance g sid a = Inr (sid', out) \<Longrightarrow> rests_at g sid' out"
  unfolding auto_advance_def by (drule auto_loop_reaches) (simp add: reaches_def)

subsection \<open>The bound of the loop\<close>

text \<open>The loop gives up after \<open>n\<close> iterations exactly when \<open>n\<close> branch steps can be taken.\<close>

lemma auto_loop_TooManySteps_iff:
  "auto_loop n g sid a = Inl (TooManySteps m) \<longleftrightarrow>
     m = MAX_AUTO_STEPS \<and> (\<exists>y. (branch_step g a ^^ n) sid y)"
proof (induction n arbitrary: sid)
  case 0
  then show ?case by auto
next
  case (Suc n)
  show ?case
  proof (cases rule: step_cases [where g = g and sid = sid and a = a])
    case unknown
    then have "\<not> branch_step g a sid z" for z
      by (auto simp: branch_step_iff)
    then have "\<not> (branch_step g a ^^ Suc n) sid y" for y
      by (blast elim: relpowp_Suc_E2)
    with unknown show ?thesis by simp
  next
    case (rest out')
    then have "\<not> (branch_step g a ^^ Suc n) sid y" for y
      using rests_at_no_branch by (blast elim: relpowp_Suc_E2)
    with rest show ?thesis by (simp add: auto_loop_rest del: auto_loop.simps)
  next
    case (branch y)
    have "(\<exists>z. (branch_step g a ^^ Suc n) sid z) \<longleftrightarrow> (\<exists>z. (branch_step g a ^^ n) y z)"
      using branch branch_step_det by (blast elim: relpowp_Suc_E2 intro: relpowp_Suc_I2)
    with Suc branch show ?thesis by (simp add: auto_loop_branch del: auto_loop.simps)
  qed
qed

lemma auto_loop_after_steps:
  "(branch_step g a ^^ k) sid y \<Longrightarrow> auto_loop (k + n) g sid a = auto_loop n g y a"
proof (induction k arbitrary: sid)
  case 0
  then show ?case by simp
next
  case (Suc k)
  then obtain z where z: "branch_step g a sid z" "(branch_step g a ^^ k) z y"
    by (blast elim: relpowp_Suc_E2)
  from Suc.IH [OF z(2)] z(1) show ?case
    by (simp add: auto_loop_branch del: auto_loop.simps)
qed

text \<open>A walk of \<open>k\<close> steps without repetition visits \<open>k\<close> different steps of the graph.\<close>

lemma finite_step_ids [simp]: "finite (step_ids g)"
  by (simp add: step_ids_def)

lemma walk_repeats_or_short:
  assumes walk: "(branch_step g a ^^ k) sid y"
  obtains (cycle) "branch_cycle g a sid"
    | (distinct) A where "A \<subseteq> step_ids g" "card A = k" "\<forall>x \<in> A. \<exists>z. branch_step g a x z"
proof -
  obtain f where f: "f 0 = sid" "f k = y" "\<And>i. i < k \<Longrightarrow> branch_step g a (f i) (f (Suc i))"
    using walk by (auto simp: relpowp_fun_conv)
  have path: "j \<le> k \<Longrightarrow> i \<le> j \<Longrightarrow> (branch_step g a)\<^sup>*\<^sup>* (f i) (f j)" for i j
  proof (induction j)
    case (Suc j)
    then show ?case
      using f(3) [of j] by (cases "i = Suc j") (auto intro: rtranclp.rtrancl_into_rtrancl)
  qed simp
  show thesis
  proof (cases "inj_on f {..<k}")
    case True
    have "f ` {..<k} \<subseteq> step_ids g" using f(3) branch_step_source by blast
    moreover have "card (f ` {..<k}) = k" using True by (simp add: card_image)
    ultimately show thesis using f(3) by (intro distinct [of "f ` {..<k}"]) auto
  next
    case False
    then obtain i j where ij: "i < j" "j < k" "f i = f j"
      unfolding inj_on_def by (metis lessThan_iff linorder_neqE_nat)
    have "branch_step g a (f i) (f (Suc i))" using f(3) [of i] ij(1,2) by linarith
    moreover have "(branch_step g a)\<^sup>*\<^sup>* (f (Suc i)) (f j)" using path ij by simp
    ultimately have "(branch_step g a)\<^sup>+\<^sup>+ (f i) (f i)"
      using ij(3) by (metis rtranclp_into_tranclp2)
    moreover have "(branch_step g a)\<^sup>*\<^sup>* sid (f i)" using path [of i 0] ij f(1) by simp
    ultimately show thesis by (intro cycle) (auto simp: branch_cycle_def)
  qed
qed

lemma branch_cycle_step:
  assumes "branch_cycle g a x"
  obtains y where "branch_step g a x y" "branch_cycle g a y"
proof -
  obtain c where c: "(branch_step g a)\<^sup>*\<^sup>* x c" "(branch_step g a)\<^sup>+\<^sup>+ c c"
    using assms by (auto simp: branch_cycle_def)
  then have "(branch_step g a)\<^sup>+\<^sup>+ x c" by (rule rtranclp_tranclp_tranclp)
  then obtain y where y: "branch_step g a x y" "(branch_step g a)\<^sup>*\<^sup>* y c"
    by (blast dest: tranclpD)
  moreover from y(2) c(2) have "branch_cycle g a y" unfolding branch_cycle_def by blast
  ultimately show thesis using that by blast
qed

lemma branch_cycle_next:
  assumes "branch_step g a x y" "branch_cycle g a x"
  shows "branch_cycle g a y"
proof -
  obtain z where "branch_step g a x z" "branch_cycle g a z"
    using assms(2) by (rule branch_cycle_step)
  with assms(1) show ?thesis using branch_step_det [of g a x y z] by simp
qed

lemma branch_cycle_walks: "branch_cycle g a x \<Longrightarrow> \<exists>y. (branch_step g a ^^ n) x y"
proof (induction n arbitrary: x)
  case 0
  then show ?case by auto
next
  case (Suc n)
  obtain y where "branch_step g a x y" "branch_cycle g a y"
    using Suc.prems by (rule branch_cycle_step)
  with Suc.IH show ?case by (blast intro: relpowp_Suc_I2)
qed

lemma rest_no_cycle:
  assumes "reaches g a sid sid' out"
  shows "\<not> branch_cycle g a sid"
proof
  assume cycle: "branch_cycle g a sid"
  have "(branch_step g a)\<^sup>*\<^sup>* sid sid'" using assms by (simp add: reaches_def)
  then have "branch_cycle g a sid'"
    using cycle by (induction rule: rtranclp_induct) (auto intro: branch_cycle_next)
  then obtain y where "branch_step g a sid' y" by (rule branch_cycle_step)
  with assms show False using rests_at_no_branch by (auto simp: reaches_def)
qed

text \<open>C1: a walk that needs no more branch steps than the graph has steps is found by the
  loop, so on a graph of at most 256 steps \<^verbatim>\<open>auto_advance\<close> is the unbounded semantics: it
  returns a step and an outcome exactly when following branches from the given step
  reaches that step and its kind demands that outcome.\<close>

theorem auto_advance_iff_reaches:
  assumes "card (step_ids graph) \<le> 256"
  shows "auto_advance graph step_id answers = Inr (step_id', outcome) \<longleftrightarrow>
    reaches graph answers step_id step_id' outcome"
proof
  show "auto_advance graph step_id answers = Inr (step_id', outcome) \<Longrightarrow>
    reaches graph answers step_id step_id' outcome"
    unfolding auto_advance_def by (rule auto_loop_reaches)
next
  assume r: "reaches graph answers step_id step_id' outcome"
  then obtain k where k: "(branch_step graph answers ^^ k) step_id step_id'"
    and rest: "rests_at graph step_id' outcome"
    by (auto simp: reaches_def rtranclp_power)
  have "k < 256"
  proof (cases rule: walk_repeats_or_short [OF k])
    case 1
    with rest_no_cycle [OF r] show ?thesis by simp
  next
    case (2 A)
    with rest have "step_id' \<notin> A" using rests_at_no_branch by blast
    moreover have "finite A" using 2 finite_subset [OF _ finite_step_ids] by blast
    ultimately have "card (insert step_id' A) = Suc k" using 2 by simp
    moreover have "insert step_id' A \<subseteq> step_ids graph" using 2 rests_at_in_ids [OF rest] by simp
    then have "card (insert step_id' A) \<le> card (step_ids graph)" by (simp add: card_mono)
    ultimately show ?thesis using assms by simp
  qed
  then obtain n where "256 = k + Suc n" by (metis add_Suc_right less_iff_Suc_add)
  then show "auto_advance graph step_id answers = Inr (step_id', outcome)"
    using auto_loop_after_steps [OF k, of "Suc n"] auto_loop_rest [OF rest]
    by (simp add: auto_advance_def MAX_AUTO_STEPS_def del: auto_loop.simps)
qed

lemma TooManySteps_iff_cycle:
  assumes "card (step_ids graph) < 256"
  shows "auto_advance graph step_id answers = Inl (TooManySteps m) \<longleftrightarrow>
    m = 256 \<and> branch_cycle graph answers step_id"
proof -
  have "branch_cycle graph answers step_id"
    if "(branch_step graph answers ^^ 256) step_id y" for y
  proof (cases rule: walk_repeats_or_short [OF that])
    case (2 A)
    then have "256 \<le> card (step_ids graph)" by (metis card_mono finite_step_ids)
    with assms show ?thesis by simp
  qed
  then show ?thesis
    using branch_cycle_walks [of graph answers step_id 256]
    by (auto simp: auto_advance_def auto_loop_TooManySteps_iff MAX_AUTO_STEPS_def)
qed

section \<open>Graphs whose references resolve\<close>

lemma graph_wf_step:
  assumes "graph_wf g" "graph_step g sid = Some s" "x \<in> set (successors (s_kind s))"
  shows "x \<in> step_ids g"
  using assms graph_step_Some [of g sid s] by (auto simp: graph_wf_def)

lemma graph_wf_branch:
  assumes "graph_wf g" "branch_step g a x y"
  shows "y \<in> step_ids g"
proof -
  obtain s c t f where "graph_step g x = Some s" "s_kind s = Branch c t f"
    "y = (if eval_condition c a then t else f)"
    using assms(2) by (auto simp: branch_step_iff)
  then show ?thesis using assms(1) graph_wf_step [of g x s y] by auto
qed

lemma auto_loop_wf:
  assumes "graph_wf g"
  shows "sid \<in> step_ids g \<Longrightarrow>
    (\<exists>sid' out. auto_loop n g sid a = Inr (sid', out) \<and> rests_at g sid' out) \<or>
    auto_loop n g sid a = Inl (TooManySteps 256)"
proof (induction n arbitrary: sid)
  case 0
  then show ?case by (simp add: MAX_AUTO_STEPS_def)
next
  case (Suc n)
  show ?case
  proof (cases rule: step_cases [where g = g and sid = sid and a = a])
    case unknown
    with Suc.prems show ?thesis by (simp add: graph_step_None_iff)
  next
    case (rest out)
    then show ?thesis by (simp add: auto_loop_rest del: auto_loop.simps)
  next
    case (branch y)
    then show ?thesis
      using Suc.IH [OF graph_wf_branch [OF assms branch]]
      by (simp add: auto_loop_branch del: auto_loop.simps)
  qed
qed

lemma auto_advance_wf:
  "graph_wf g \<Longrightarrow> sid \<in> step_ids g \<Longrightarrow>
    (\<exists>sid' out. auto_advance g sid a = Inr (sid', out) \<and> rests_at g sid' out) \<or>
    auto_advance g sid a = Inl (TooManySteps 256)"
  unfolding auto_advance_def by (rule auto_loop_wf)

section \<open>Runs of the engine\<close>

text \<open>One event of the outside world, as the handlers deliver it to the engine, and its effect
  on the step, the answers and the outcome the engine stopped with.\<close>

datatype event = Answered string json | Decided ApprovalDecision | Dispatched

fun deliver :: "WorkflowGraph \<Rightarrow> string \<Rightarrow> Answers \<Rightarrow> event \<Rightarrow>
    (EngineError + (string \<times> Outcome)) \<times> Answers" where
  "deliver graph step_id answers (Answered key value) =
     engine_submit_answer graph step_id answers key value"
| "deliver graph step_id answers (Decided decision) =
     (engine_resume_after_approval graph step_id answers decision, answers)"
| "deliver graph step_id answers Dispatched =
     (resume_after_ticket_dispatch graph step_id answers, answers)"

text \<open>The event an outcome asks for.\<close>

fun asked_for :: "Outcome \<Rightarrow> event \<Rightarrow> bool" where
  "asked_for (AwaitingAnswer key) (Answered key' _) = (key = key')"
| "asked_for (AwaitingApproval _ _) (Decided _) = True"
| "asked_for ReadyToSubmitTicket Dispatched = True"
| "asked_for _ _ = False"

inductive engine_run :: "WorkflowGraph \<Rightarrow> string \<Rightarrow> Answers \<Rightarrow> Outcome \<Rightarrow> bool"
  for graph :: WorkflowGraph where
  run_start: "start graph = Inr (sid, out) \<Longrightarrow> engine_run graph sid [] out"
| run_event: "engine_run graph sid a out \<Longrightarrow> deliver graph sid a ev = (Inr (sid', out'), a') \<Longrightarrow>
    engine_run graph sid' a' out'"

definition question_keys :: "WorkflowGraph \<Rightarrow> string set" where
  "question_keys graph =
     {key. \<exists>s \<in> set (g_steps graph). \<exists>i r opts nxt. s_kind s = Question key i r opts nxt}"

lemma submit_answer_Inr:
  assumes "engine_submit_answer g sid a k v = (Inr r, a')"
  shows "a' = obj_insert k v a \<and>
    (\<exists>s i req opts nxt. graph_step g sid = Some s \<and> s_kind s = Question k i req opts nxt \<and>
       auto_advance g nxt a' = Inr r)"
proof (cases "graph_step g sid")
  case None
  with assms show ?thesis by (simp add: engine_submit_answer_def)
next
  case (Some s)
  with assms show ?thesis
    by (cases "s_kind s") (auto simp: engine_submit_answer_def Let_def split: if_splits)
qed

lemma deliver_Inr:
  assumes "deliver g sid a ev = (Inr (sid', out'), a')"
  shows "rests_at g sid' out' \<and>
    (case ev of Answered k v \<Rightarrow> a' = obj_insert k v a \<and> k \<in> question_keys g | _ \<Rightarrow> a' = a)"
proof (cases ev)
  case (Answered k v)
  with assms have "engine_submit_answer g sid a k v = (Inr (sid', out'), a')" by simp
  from submit_answer_Inr [OF this] show ?thesis
    using Answered graph_step_Some [of g sid]
    by (fastforce simp: question_keys_def dest: auto_advance_rests)
next
  case (Decided d)
  with assms show ?thesis
    by (cases "graph_step g sid")
      (auto simp: engine_resume_after_approval_def dest: auto_advance_rests split: StepKind.splits)
next
  case Dispatched
  with assms show ?thesis
    by (cases "graph_step g sid")
      (auto simp: resume_after_ticket_dispatch_def dest: auto_advance_rests split: StepKind.splits)
qed

lemma start_Inr: "start g = Inr (sid, out) \<Longrightarrow> rests_at g sid out"
  by (auto simp: start_def dest: auto_advance_rests split: if_splits)

lemma obj_get_keys: "obj_get (obj_insert k v m) x \<noteq> None \<longleftrightarrow> x = k \<or> obj_get m x \<noteq> None"
  by simp

text \<open>C4: whatever sequence of events the engine accepts, it always stops at a step of the
  graph whose kind demands exactly the outcome it reports (never at a branch), and the
  answers it has collected are a well-formed JSON object whose keys are all field keys of
  question steps of the graph.\<close>

theorem engine_run_rests:
  assumes "engine_run graph step_id answers outcome"
  shows "rests_at graph step_id outcome \<and> obj_wf answers \<and>
    (\<forall>key. obj_get answers key \<noteq> None \<longrightarrow> key \<in> question_keys graph)"
  using assms
proof induction
  case (run_start sid out)
  then show ?case by (simp add: start_Inr)
next
  case (run_event sid a out ev sid' out' a')
  then show ?case
    using deliver_Inr [OF run_event.hyps(2)]
    by (cases ev) (auto simp: obj_wf_insert split: if_splits)
qed

lemma deliver_asked:
  assumes "graph_step g sid = Some s" "outcome_of (s_kind s) = Some out" "asked_for out ev"
  obtains x a' where "x \<in> set (successors (s_kind s))" "fst (deliver g sid a ev) = auto_advance g x a'"
proof (cases ev)
  case (Answered k v)
  then show ?thesis
    using assms that by (cases "s_kind s") (auto simp: engine_submit_answer_def Let_def)
next
  case (Decided d)
  then show ?thesis
    using assms that
    by (cases "s_kind s"; cases d) (auto simp: engine_resume_after_approval_def)
next
  case Dispatched
  then show ?thesis
    using assms that by (cases "s_kind s") (auto simp: resume_after_ticket_dispatch_def)
qed

text \<open>C2: on a graph whose entry step and references resolve, the engine takes the event it
  asked for: it moves on to the next resting point, and the only error it can report is
  that it walked 256 branches without finding one.\<close>

theorem engine_takes_the_event_it_asked_for:
  assumes wf: "graph_wf graph" and rest: "rests_at graph step_id outcome"
    and asked: "asked_for outcome event"
  shows "(\<exists>step_id' outcome'. fst (deliver graph step_id answers event) = Inr (step_id', outcome')
            \<and> rests_at graph step_id' outcome') \<or>
         fst (deliver graph step_id answers event) = Inl (TooManySteps 256)"
proof -
  obtain s where s: "graph_step graph step_id = Some s" "outcome_of (s_kind s) = Some outcome"
    using rest by (auto simp: rests_at_def)
  obtain x a' where x: "x \<in> set (successors (s_kind s))"
    "fst (deliver graph step_id answers event) = auto_advance graph x a'"
    using s asked by (rule deliver_asked)
  then show ?thesis using auto_advance_wf [OF wf graph_wf_step [OF wf s(1) x(1)]] by simp
qed

text \<open>C3: an event the current step did not ask for is refused: the engine reports an error
  and leaves the answers as they were.\<close>

theorem engine_refuses_other_events:
  assumes rest: "rests_at graph step_id outcome" and "\<not> asked_for outcome event"
  shows "(\<exists>e. fst (deliver graph step_id answers event) = Inl e) \<and>
    snd (deliver graph step_id answers event) = answers"
proof -
  obtain s where s: "graph_step graph step_id = Some s" "outcome_of (s_kind s) = Some outcome"
    using rest by (auto simp: rests_at_def)
  then show ?thesis
    using assms(2)
    by (cases "s_kind s"; cases event)
      (auto simp: engine_submit_answer_def engine_resume_after_approval_def
        resume_after_ticket_dispatch_def)
qed

text \<open>C5: on a graph of fewer than 256 steps whose references resolve, \<^verbatim>\<open>start\<close> reports
  \<^verbatim>\<open>TooManySteps\<close> exactly when the branches taken with no answers run into a cycle, and
  stops at a resting point otherwise.\<close>

theorem start_stops_iff_no_cycle:
  assumes "graph_wf graph" "card (step_ids graph) < 256"
  shows "if branch_cycle graph [] (g_entry_step_id graph)
    then start graph = Inl (TooManySteps 256)
    else \<exists>step_id outcome. start graph = Inr (step_id, outcome) \<and> rests_at graph step_id outcome"
proof -
  have entry: "g_entry_step_id graph \<in> step_ids graph" using assms(1) by (simp add: graph_wf_def)
  then have "start graph = auto_advance graph (g_entry_step_id graph) []"
    by (simp add: start_def graph_step_None_iff)
  then show ?thesis
    using auto_advance_wf [OF assms(1) entry] TooManySteps_iff_cycle [OF assms(2)] by fastforce
qed

section \<open>Witnesses\<close>

text \<open>The sample graph of the crate's own tests: a question, a branch on its answer that leads
  to an approval for laptops and straight to the ticket otherwise.\<close>

definition sample_graph :: WorkflowGraph where
  "sample_graph =
     \<lparr>g_entry_step_id = ''ask'',
      g_steps =
        [\<lparr>s_id = ''ask'', s_label = ''What device?'',
          s_kind = Question ''device'' ISelect True [] ''check''\<rparr>,
         \<lparr>s_id = ''check'', s_label = ''Is it a laptop?'',
          s_kind = Branch (Equals ''device'' (JString ''laptop'')) ''approve'' ''submit''\<rparr>,
         \<lparr>s_id = ''approve'', s_label = ''Manager approval'',
          s_kind = WaitForApproval ManagerOfRequester ''submit'' ''end_rejected'' None\<rparr>,
         \<lparr>s_id = ''submit'', s_label = ''Submit'', s_kind = SubmitTicket ''end_ok''\<rparr>,
         \<lparr>s_id = ''end_ok'', s_label = ''Done'', s_kind = End EndCompleted\<rparr>,
         \<lparr>s_id = ''end_rejected'', s_label = ''Rejected'', s_kind = End EndRejected\<rparr>]\<rparr>"

lemma sample_graph_wf: "graph_wf sample_graph"
  by (simp add: graph_wf_def sample_graph_def step_ids_def)

lemma sample_graph_small: "card (step_ids sample_graph) = 6"
  by (simp add: sample_graph_def step_ids_def)

lemma sample_graph_rests:
  "rests_at sample_graph ''ask'' (AwaitingAnswer ''device'')"
  "rests_at sample_graph ''approve'' (AwaitingApproval ManagerOfRequester None)"
  by (simp_all add: rests_at_def sample_graph_def graph_step_def)

lemma sample_graph_start: "start sample_graph = Inr (''ask'', AwaitingAnswer ''device'')"
  by code_simp

theorem auto_advance_iff_reaches_witness:
  "card (step_ids sample_graph) \<le> 256 \<and>
   reaches sample_graph [(''device'', JString ''laptop'')] ''check'' ''approve''
     (AwaitingApproval ManagerOfRequester None)"
proof
  show small: "card (step_ids sample_graph) \<le> 256" by (simp add: sample_graph_small)
  have "auto_advance sample_graph ''check'' [(''device'', JString ''laptop'')] =
    Inr (''approve'', AwaitingApproval ManagerOfRequester None)" by code_simp
  then show "reaches sample_graph [(''device'', JString ''laptop'')] ''check'' ''approve''
     (AwaitingApproval ManagerOfRequester None)"
    by (simp only: auto_advance_iff_reaches [OF small])
qed

theorem engine_run_rests_witness:
  "rests_at sample_graph ''approve'' (AwaitingApproval ManagerOfRequester None) \<and>
   obj_wf [(''device'', JString ''laptop'')] \<and> ''device'' \<in> question_keys sample_graph"
proof -
  have "deliver sample_graph ''ask'' [] (Answered ''device'' (JString ''laptop'')) =
    (Inr (''approve'', AwaitingApproval ManagerOfRequester None), [(''device'', JString ''laptop'')])"
    by code_simp
  then have "engine_run sample_graph ''approve'' [(''device'', JString ''laptop'')]
    (AwaitingApproval ManagerOfRequester None)"
    by (rule run_event [OF run_start [OF sample_graph_start]])
  from engine_run_rests [OF this] show ?thesis by (auto simp: obj_get_def)
qed

theorem engine_takes_the_event_it_asked_for_witness:
  "(\<exists>sid out. fst (deliver sample_graph ''approve'' [] (Decided Reject)) = Inr (sid, out)
      \<and> rests_at sample_graph sid out) \<or>
   fst (deliver sample_graph ''approve'' [] (Decided Reject)) = Inl (TooManySteps 256)"
  by (rule engine_takes_the_event_it_asked_for [OF sample_graph_wf sample_graph_rests(2)]) simp

theorem engine_refuses_other_events_witness:
  "(\<exists>e. fst (deliver sample_graph ''ask'' [] (Answered ''size'' JNull)) = Inl e) \<and>
    snd (deliver sample_graph ''ask'' [] (Answered ''size'' JNull)) = []"
  by (rule engine_refuses_other_events [OF sample_graph_rests(1)]) simp

theorem start_stops_iff_no_cycle_witness:
  "if branch_cycle sample_graph [] (g_entry_step_id sample_graph)
    then start sample_graph = Inl (TooManySteps 256)
    else \<exists>sid out. start sample_graph = Inr (sid, out) \<and> rests_at sample_graph sid out"
  by (rule start_stops_iff_no_cycle [OF sample_graph_wf]) (simp add: sample_graph_small)

end
