(* ===== verification/Api_Error.thy ===== *)
theory Api_Error
  imports Approvals Workflow_Engine
begin

text \<open>
  \<^verbatim>\<open>src/crates/server/src/error.rs\<close>: the error every handler returns, its HTTP status and
  message, and the conversions (\<^verbatim>\<open>From\<close>) the \<^verbatim>\<open>?\<close> operator applies to the errors of the lower
  crates. Shown: what a client is told of a database, connector or graph error is the same
  text whatever the error was, so no internal detail leaks.
\<close>

datatype ApiError =
    BadRequest string
  | Unauthorized
  | Forbidden
  | ApiNotFound string
  | Conflict string
  | Internal

fun api_status :: "ApiError \<Rightarrow> nat" where
  "api_status (BadRequest _) = 400"
| "api_status Unauthorized = 401"
| "api_status Forbidden = 403"
| "api_status (ApiNotFound _) = 404"
| "api_status (Conflict _) = 409"
| "api_status Internal = 500"

fun api_message :: "ApiError \<Rightarrow> string" where
  "api_message (BadRequest s) = s"
| "api_message Unauthorized = ''authentication required''"
| "api_message Forbidden = ''you do not have permission to do that''"
| "api_message (ApiNotFound s) = s"
| "api_message (Conflict s) = s"
| "api_message Internal = ''internal error''"

text \<open>The status and the JSON body of the response.\<close>

definition api_into_response :: "ApiError \<Rightarrow> nat \<times> json" where
  "api_into_response e = (api_status e, JObject [(''error'', JString (api_message e))])"

fun api_of_db :: "DbError \<Rightarrow> ApiError" where
  "api_of_db (NotFound entity i) = ApiNotFound (entity @ '' '' @ i @ '' not found'')"
| "api_of_db _ = Internal"

definition routing_message :: string where
  "routing_message =
     ''this request can't be routed for approval -- the requester's manager/department/role '' @
     ''setup is incomplete; contact an administrator''"

fun api_of_approvals :: "env \<Rightarrow> ApprovalsError \<Rightarrow> ApiError" where
  "api_of_approvals E (Db inner) = api_of_db inner"
| "api_of_approvals E (ApprovalNotFound i) =
     ApiNotFound (''approval '' @ env_uuid_str E i @ '' not found'')"
| "api_of_approvals E (AlreadyDecided _) =
     Conflict ''this approval was already decided or has expired''"
| "api_of_approvals E (NotTheApprover _ _) = Forbidden"
| "api_of_approvals E RequesterHasNoManager = Conflict routing_message"
| "api_of_approvals E RequesterHasNoDepartment = Conflict routing_message"
| "api_of_approvals E (NoUserWithRoleInDepartment _) = Conflict routing_message"

text \<open>The \<^verbatim>\<open>Display\<close> text of an engine error, as far as a client sees it.\<close>

definition tick :: string where
  "tick = [CHR 0x27]"

fun api_of_engine :: "EngineError \<Rightarrow> ApiError" where
  "api_of_engine (UnexpectedField step_id expected_field_key actual_field_key) =
     BadRequest (''step '' @ tick @ step_id @ tick @ '' expects an answer for field '' @ tick @
       expected_field_key @ tick @ '', got '' @ tick @ actual_field_key @ tick)"
| "api_of_engine (WrongStepKind _ _ _) =
     Conflict ''this request is not currently waiting on that kind of input''"
| "api_of_engine (UnknownStep _) = Internal"
| "api_of_engine EmptyGraph = Internal"
| "api_of_engine (TooManySteps _) = Internal"

definition api_of_connector :: "ConnectorError \<Rightarrow> ApiError" where
  "api_of_connector e = Internal"

text \<open>The response to a failed database statement, a corrupt stored definition, a connector
  failure or a broken workflow graph is always status 500 with the body
  \<^verbatim>\<open>{"error": "internal error"}\<close>: nothing of the error's own text reaches the client.\<close>

lemma internal_errors_do_not_leak:
  "\<forall>e \<in> {api_of_db (Sqlx s), api_of_db (CorruptJson entity i), api_of_approvals E (Db (Sqlx s)),
        api_of_connector c, api_of_engine (UnknownStep x), api_of_engine (TooManySteps n)}.
     api_into_response e = (500, JObject [(''error'', JString ''internal error'')])"
  by (simp add: api_into_response_def api_of_connector_def)

end
