(* ===== verification/Orchestrator.thy ===== *)
theory Orchestrator
  imports Api_Error
begin

text \<open>
  \<^verbatim>\<open>src/crates/server/src/orchestrator.rs\<close> and \<^verbatim>\<open>expiry_handler.rs\<close>: the glue between the pure
  engine and its side effects. \<open>apply_outcome\<close> is a loop without a bound (a ticket step may
  lead to another ticket step), so it is a partial function and \<open>None\<close> is a request that
  never returns.
\<close>

record Deps =
  deps_notifier :: ApprovalNotifier
  deps_connectors :: ConnectorRegistry

definition answers_map :: "json \<Rightarrow> Answers" where
  "answers_map value = (case as_object value of None \<Rightarrow> [] | Some m \<Rightarrow> m)"

fun end_status :: "EndOutcome \<Rightarrow> InstanceStatus" where
  "end_status EndCompleted = Completed"
| "end_status EndRejected = Rejected"
| "end_status EndCancelled = Cancelled"

definition dispatch_ticket ::
    "env \<Rightarrow> Deps \<Rightarrow> WorkflowDefinition \<Rightarrow> uuid \<Rightarrow> uuid \<Rightarrow> Answers \<Rightarrow> (ApiError, unit) act" where
  "dispatch_ticket E deps definition instance_id requester_user_id answers =
     bindM (ok_or Internal (wd_target_system definition)) (\<lambda>target.
     bindM (ok_or Internal (wd_field_mapping definition)) (\<lambda>mapping.
     bindM (ok_or Internal (registry_get (deps_connectors deps) target)) (\<lambda>connector.
     bindM (map_err api_of_db (users_get_by_id E requester_user_id)) (\<lambda>r.
     bindM (ok_or Internal r) (\<lambda>requester.
     bindM (map_err api_of_db (instances_get_by_id E instance_id)) (\<lambda>i.
     bindM (ok_or Internal i) (\<lambda>instance.
     bindM (map_err api_of_db (catalog_get_by_id E (wi_catalog_item_id instance))) (\<lambda>c.
     bindM (ok_or Internal c) (\<lambda>item.
     let ctx = template_context_new (JObject answers) (u_email requester)
           (u_display_name requester) (env_uuid_str E instance_id) (ci_name item) in
     bindM (map_err (\<lambda>_. Internal) (lift_sum (render E mapping ctx))) (\<lambda>payload.
     bindM (map_err api_of_db (tickets_create E instance_id target payload)) (\<lambda>ticket.
     bindM (try_io (connector_dispatch E connector payload)) (\<lambda>result.
     case result of
       Inr res \<Rightarrow>
         map_err api_of_db (tickets_mark_sent E (t_id ticket) (dr_external_ticket_id res)
           (dr_external_ticket_url res))
     | Inl err \<Rightarrow>
         bindM (map_err api_of_db
                  (tickets_mark_failed E (t_id ticket) (connector_error_display err))) (\<lambda>_.
         fail (api_of_connector err))))))))))))))"

text \<open>\<^verbatim>\<open>return instances::save_progress(..).await?.ok_or(ApiError::Internal);\<close>\<close>

definition finish_with ::
    "env \<Rightarrow> uuid \<Rightarrow> string \<Rightarrow> Answers \<Rightarrow> InstanceStatus \<Rightarrow> (ApiError, WorkflowInstance) act" where
  "finish_with E instance_id step_id answers status =
     bindM (map_err api_of_db (save_progress E instance_id step_id (JObject answers) status))
       (ok_or Internal)"

text \<open>The \<^verbatim>\<open>AwaitingApproval\<close> arm of the loop, and the failure exit of the \<^verbatim>\<open>ReadyToSubmitTicket\<close> arm.\<close>

definition await_approval ::
    "env \<Rightarrow> Deps \<Rightarrow> uuid \<Rightarrow> uuid \<Rightarrow> Answers \<Rightarrow> string \<Rightarrow> ApproverResolution \<Rightarrow> i64 option \<Rightarrow>
     (ApiError, WorkflowInstance) act" where
  "await_approval E deps instance_id requester_user_id answers step_id resolution timeout_seconds =
     bindM (map_err api_of_db (users_get_by_id E requester_user_id)) (\<lambda>r.
     bindM (ok_or Internal r) (\<lambda>requester.
     bindM (map_err (api_of_approvals E)
              (create_for_instance E (deps_notifier deps) instance_id step_id requester
                 resolution timeout_seconds)) (\<lambda>_.
     finish_with E instance_id step_id answers AwaitingApprovalStatus)))"

definition fail_instance ::
    "env \<Rightarrow> uuid \<Rightarrow> string \<Rightarrow> Answers \<Rightarrow> ApiError \<Rightarrow> (ApiError, WorkflowInstance) act" where
  "fail_instance E instance_id step_id answers err =
     bindM (map_err api_of_db (save_progress E instance_id step_id (JObject answers) Failed))
       (\<lambda>_. fail err)"

partial_function (option) apply_outcome ::
    "env \<Rightarrow> Deps \<Rightarrow> WorkflowDefinition \<Rightarrow> uuid \<Rightarrow> uuid \<Rightarrow> Answers \<Rightarrow> string \<Rightarrow> Outcome \<Rightarrow>
     (world, ApiError, WorkflowInstance) run" where
  "apply_outcome E deps definition instance_id requester_user_id answers step_id outcome w =
     (case outcome of
        AwaitingAnswer _ \<Rightarrow> Some (finish_with E instance_id step_id answers InProgress w)
      | AwaitingApproval resolution timeout_seconds \<Rightarrow>
          Some (await_approval E deps instance_id requester_user_id answers step_id resolution
            timeout_seconds w)
      | ReadyToSubmitTicket \<Rightarrow>
          (case dispatch_ticket E deps definition instance_id requester_user_id answers w of
             (Ok _, w') \<Rightarrow>
               (case resume_after_ticket_dispatch (wd_graph definition) step_id answers of
                  Inl e \<Rightarrow> Some (Err (api_of_engine e), w')
                | Inr (next_step_id, next_outcome) \<Rightarrow>
                    apply_outcome E deps definition instance_id requester_user_id answers
                      next_step_id next_outcome w')
           | (Err err, w') \<Rightarrow>
               Some (fail_instance E instance_id step_id answers err w')
           | (Panic, w') \<Rightarrow> Some (Panic, w'))
      | Finished end_outcome \<Rightarrow>
          Some (finish_with E instance_id step_id answers (end_status end_outcome) w))"

definition start_instance :: "env \<Rightarrow> Deps \<Rightarrow> uuid \<Rightarrow> User \<Rightarrow> (world, ApiError, WorkflowInstance) run" where
  "start_instance E deps catalog_item_id requester =
     then_run
       (bindM (map_err api_of_db (catalog_get_by_id E catalog_item_id)) (\<lambda>i.
        bindM (ok_or (ApiNotFound ''service catalog item not found'') i) (\<lambda>item.
        if \<not> ci_is_active item then fail (Conflict ''this service is not currently offered'')
        else
          bindM (map_err api_of_db (definitions_get_by_id E (ci_workflow_definition_id item))) (\<lambda>d.
          bindM (ok_or Internal d) (\<lambda>definition.
          bindM (map_err api_of_engine (lift_sum (start (wd_graph definition)))) (\<lambda>(step_id, outcome).
          bindM (map_err api_of_db
                   (instances_create E (wd_id definition) (ci_id item) (u_id requester) step_id)) (\<lambda>instance.
          return (definition, instance, step_id, outcome)))))))) (\<lambda>(definition, instance, step_id, outcome).
     apply_outcome E deps definition (wi_id instance) (u_id requester)
       (answers_map (wi_answers_json instance)) step_id outcome)"

definition submit_answer ::
    "env \<Rightarrow> Deps \<Rightarrow> uuid \<Rightarrow> User \<Rightarrow> string \<Rightarrow> json \<Rightarrow> (world, ApiError, WorkflowInstance) run" where
  "submit_answer E deps instance_id requester field_key value =
     then_run
       (bindM (map_err api_of_db (instances_get_by_id E instance_id)) (\<lambda>i.
        bindM (ok_or (ApiNotFound ''request not found'') i) (\<lambda>instance.
        if wi_requester_user_id instance \<noteq> u_id requester then fail Forbidden
        else if wi_status instance \<noteq> InProgress
        then fail (Conflict ''this request is not currently awaiting input'')
        else
          bindM (map_err api_of_db
                   (definitions_get_by_id E (wi_workflow_definition_id instance))) (\<lambda>d.
          bindM (ok_or Internal d) (\<lambda>definition.
          let (result, answers) = engine_submit_answer (wd_graph definition)
                (wi_current_step_id instance) (answers_map (wi_answers_json instance)) field_key value
          in bindM (map_err api_of_engine (lift_sum result)) (\<lambda>(step_id, outcome).
             return (definition, instance, answers, step_id, outcome)))))))
       (\<lambda>(definition, instance, answers, step_id, outcome).
     apply_outcome E deps definition (wi_id instance) (u_id requester) answers step_id outcome)"

definition resume_after_approval ::
    "env \<Rightarrow> Deps \<Rightarrow> uuid \<Rightarrow> string \<Rightarrow> ApprovalDecision \<Rightarrow> (world, ApiError, WorkflowInstance) run" where
  "resume_after_approval E deps instance_id step_id decision =
     then_run
       (bindM (map_err api_of_db (instances_get_by_id E instance_id)) (\<lambda>i.
        bindM (ok_or Internal i) (\<lambda>instance.
        bindM (map_err api_of_db
                 (definitions_get_by_id E (wi_workflow_definition_id instance))) (\<lambda>d.
        bindM (ok_or Internal d) (\<lambda>definition.
        let answers = answers_map (wi_answers_json instance)
        in bindM (map_err api_of_engine (lift_sum
                    (engine_resume_after_approval (wd_graph definition) step_id answers decision)))
             (\<lambda>(next_step_id, outcome).
             return (definition, instance, answers, next_step_id, outcome)))))))
       (\<lambda>(definition, instance, answers, next_step_id, outcome).
     apply_outcome E deps definition (wi_id instance) (wi_requester_user_id instance) answers
       next_step_id outcome)"

section \<open>expiry\_handler.rs and the decision routes\<close>

text \<open>An error of the resumed workflow is only logged; a panic unwinds into the poller's task.\<close>

definition handle_expired :: "env \<Rightarrow> Deps \<Rightarrow> PendingApproval \<Rightarrow> (world, DbError, unit) run" where
  "handle_expired E deps approval w =
     (case resume_after_approval E deps (pa_workflow_instance_id approval) (pa_step_id approval)
             Reject w of
        None \<Rightarrow> None
      | Some (Panic, w') \<Rightarrow> Some (Panic, w')
      | Some (_, w') \<Rightarrow> Some (Ok (), w'))"

text \<open>\<^verbatim>\<open>POST /approvals/{id}/decide\<close> (\<^verbatim>\<open>routes/approvals.rs\<close>), for the authenticated user.\<close>

definition approvals_route_decide ::
    "env \<Rightarrow> Deps \<Rightarrow> User \<Rightarrow> uuid \<Rightarrow> ApprovalDecision \<Rightarrow> string option \<Rightarrow>
     (world, ApiError, WorkflowInstance) run" where
  "approvals_route_decide E deps user approval_id decision comment =
     then_run (map_err (api_of_approvals E) (decide E approval_id (u_id user) decision comment)) (\<lambda>approval.
     resume_after_approval E deps (pa_workflow_instance_id approval) (pa_step_id approval) decision)"

section \<open>The loop\<close>

text \<open>A rule for the loop of \<open>apply_outcome\<close>: \<open>J\<close> holds at its head, every way out leads to \<open>R\<close>.\<close>

lemma apply_outcome_rule:
  assumes ask: "\<And>s. hoare J (finish_with E i s answers InProgress) (\<lambda>_. R) R"
    and wait: "\<And>s res t. hoare J (await_approval E deps i rid answers s res t) (\<lambda>_. R) R"
    and disp: "hoare J (dispatch_ticket E deps definition i rid answers) (\<lambda>_. J) J"
    and failed: "\<And>s err. hoare J (fail_instance E i s answers err) (\<lambda>_. R) R"
    and finished: "\<And>s eo. hoare J (finish_with E i s answers (end_status eo)) (\<lambda>_. R) R"
    and out: "\<And>w. J w \<Longrightarrow> R w"
  shows "ends_in J (apply_outcome E deps definition i rid answers step_id outcome) R"
proof -
  let ?P = "\<lambda>E' deps' def' i' rid' answers' (s :: string) (o' :: Outcome) w rw.
    E' = E \<and> deps' = deps \<and> def' = definition \<and> i' = i \<and> rid' = rid \<and> answers' = answers \<and> J w \<longrightarrow>
    R (snd rw)"
  have "?P E deps definition i rid answers step_id outcome w rw"
    if "apply_outcome E deps definition i rid answers step_id outcome w = Some rw" for w rw
  proof (rule apply_outcome.raw_induct [where P = ?P, OF _ that], rule impI, elim conjE)
    fix f E' deps' def' i' rid' answers' s oc w' rw'
    assume IH: "\<And>E' deps' def' i' rid' answers' s oc w rw.
        f E' deps' def' i' rid' answers' s oc w = Some rw \<Longrightarrow> ?P E' deps' def' i' rid' answers' s oc w rw"
      and J: "J w'"
      and eqs: "E' = E" "deps' = deps" "def' = definition" "i' = i" "rid' = rid" "answers' = answers"
      and body: "(case oc of
        AwaitingAnswer _ \<Rightarrow> Some (finish_with E' i' s answers' InProgress w')
      | AwaitingApproval resolution timeout_seconds \<Rightarrow>
          Some (await_approval E' deps' i' rid' answers' s resolution timeout_seconds w')
      | ReadyToSubmitTicket \<Rightarrow>
          (case dispatch_ticket E' deps' def' i' rid' answers' w' of
             (Ok _, w1) \<Rightarrow>
               (case resume_after_ticket_dispatch (wd_graph def') s answers' of
                  Inl e \<Rightarrow> Some (Err (api_of_engine e), w1)
                | Inr (next_step_id, next_outcome) \<Rightarrow>
                    f E' deps' def' i' rid' answers' next_step_id next_outcome w1)
           | (Err err, w1) \<Rightarrow> Some (fail_instance E' i' s answers' err w1)
           | (Panic, w1) \<Rightarrow> Some (Panic, w1))
      | Finished end_outcome \<Rightarrow>
          Some (finish_with E' i' s answers' (end_status end_outcome) w')) = Some rw'"
    have via: "R (snd (m w2))" if "J w2" "hoare J m (\<lambda>_. R) R"
      for m :: "(ApiError, WorkflowInstance) act" and w2
      using that(2,1) by (rule hoareD)
    show "R (snd rw')"
    proof (cases oc)
      case ReadyToSubmitTicket
      obtain q w1 where q: "dispatch_ticket E deps definition i rid answers w' = (q, w1)" by fastforce
      have "J (snd (dispatch_ticket E deps definition i rid answers w'))"
        by (rule hoareD [OF disp J])
      then have J1: "J w1" using q by simp
      have again: "R (snd rw')" if "f E deps definition i rid answers s2 oc2 w1 = Some rw'" for s2 oc2
        using IH [OF that] J1 by simp
      show ?thesis
      proof (cases q)
        case (Ok u)
        then show ?thesis
          using body q ReadyToSubmitTicket out [OF J1] again
          by (cases "resume_after_ticket_dispatch (wd_graph definition) s answers")
            (auto simp: eqs)
      qed (use body q ReadyToSubmitTicket J1 out via [OF J1 failed] in \<open>auto simp: eqs\<close>)
    qed (use body via [OF J ask] via [OF J wait] via [OF J finished] in \<open>auto simp: eqs\<close>)
  qed
  then show ?thesis by (force simp: ends_in_def)
qed


section \<open>What the handlers of a request write\<close>

text \<open>The handlers of a request send seven writing statements. Whatever these keep true of the
  database, every handler built on them keeps, wherever it stops: proved once here, for the
  statements' own steps, for the absence of cycles and for the tables they never write.\<close>

locale request_writes =
  fixes I :: "db \<Rightarrow> bool"
  assumes creates: "stmt_keeps I (instances_create_stmt i wid cid uid s)"
    and saves: "stmt_keeps I (save_progress_stmt i s j st)"
    and asks: "stmt_keeps I (approvals_create_stmt i rid s uid x)"
    and decides: "stmt_keeps I (approvals_decide_stmt i ast cm)"
    and opens: "stmt_keeps I (tickets_create_stmt i rid ts j)"
    and sends: "stmt_keeps I (tickets_mark_sent_stmt i xid url)"
    and fails: "stmt_keeps I (tickets_mark_failed_stmt i err)"
begin

lemmas writes = creates saves asks decides opens sends fails

lemma ops_keep:
  "keeps (\<lambda>w. I (w_db w)) (instances_create E wid cid uid s)"
  "keeps (\<lambda>w. I (w_db w)) (save_progress E i s j st)"
  "keeps (\<lambda>w. I (w_db w)) (approvals_create E rid s uid x)"
  "keeps (\<lambda>w. I (w_db w)) (approvals_decide E i ast cm)"
  "keeps (\<lambda>w. I (w_db w)) (tickets_create E rid ts j)"
  "keeps (\<lambda>w. I (w_db w)) (tickets_mark_sent E i xid url)"
  "keeps (\<lambda>w. I (w_db w)) (tickets_mark_failed E i err)"
  unfolding instances_create_def save_progress_def approvals_create_def approvals_decide_def
    tickets_create_def tickets_mark_sent_def tickets_mark_failed_def
  by (intro keeps_intros writes)+

lemma parts_keep:
  "keeps (\<lambda>w. I (w_db w)) (dispatch_ticket E deps wd i rid answers)"
  "keeps (\<lambda>w. I (w_db w)) (finish_with E i s answers st)"
  "keeps (\<lambda>w. I (w_db w)) (await_approval E deps i rid answers s res t)"
  "keeps (\<lambda>w. I (w_db w)) (fail_instance E i s answers err)"
  "keeps (\<lambda>w. I (w_db w)) (decide E i uid dec cm)"
  unfolding dispatch_ticket_def finish_with_def await_approval_def fail_instance_def decide_def
    create_for_instance_def
  by (intro keeps_intros ops_keep)+

lemma apply_outcome_keeps:
  "ends_in (\<lambda>w. I (w_db w)) (apply_outcome E deps wd i rid answers s oc) (\<lambda>w. I (w_db w))"
  by (rule apply_outcome_rule) (simp_all add: hoare_keeps parts_keep)

lemma start_instance_keeps:
  "ends_in (\<lambda>w. I (w_db w)) (start_instance E deps i user) (\<lambda>w. I (w_db w))"
  unfolding start_instance_def
  by (rule ends_in_then_run [OF hoare_keeps]; (intro keeps_intros ops_keep)?)
    (auto intro: apply_outcome_keeps)

lemma submit_answer_keeps:
  "ends_in (\<lambda>w. I (w_db w)) (submit_answer E deps i user k v) (\<lambda>w. I (w_db w))"
  unfolding submit_answer_def
  by (rule ends_in_then_run [OF hoare_keeps]; (intro keeps_intros)?)
    (auto intro: apply_outcome_keeps)

lemma resume_after_approval_keeps:
  "ends_in (\<lambda>w. I (w_db w)) (resume_after_approval E deps i s dec) (\<lambda>w. I (w_db w))"
  unfolding resume_after_approval_def
  by (rule ends_in_then_run [OF hoare_keeps]; (intro keeps_intros)?)
    (auto intro: apply_outcome_keeps)

lemma route_decide_keeps:
  "ends_in (\<lambda>w. I (w_db w)) (approvals_route_decide E deps user i dec cm) (\<lambda>w. I (w_db w))"
  unfolding approvals_route_decide_def
  by (rule ends_in_then_run [OF hoare_keeps]; (intro keeps_intros parts_keep)?)
    (auto intro: resume_after_approval_keeps)

lemma handle_expired_keeps:
  "ends_in (\<lambda>w. I (w_db w)) (handle_expired E deps a) (\<lambda>w. I (w_db w))"
  using resume_after_approval_keeps [of E deps "pa_workflow_instance_id a" "pa_step_id a" Reject]
  by (fastforce simp: ends_in_def handle_expired_def split: option.splits prod.splits res.splits)

lemma expire_all_keeps:
  "ends_in (\<lambda>w. I (w_db w)) (expire_all E (handle_expired E deps) expired) (\<lambda>w. I (w_db w))"
proof (induction expired)
  case (Cons a expired)
  have step: "I (w_db w2)" if "I (w_db w1)" "handle_expired E deps a w1 = Some (q, w2)" for q w1 w2
    using ends_inD [OF handle_expired_keeps that] .
  have rest: "I (w_db w2)" if "I (w_db w1)" "expire_all E (handle_expired E deps) expired w1 = Some (q, w2)" for q w1 w2
    using ends_inD [OF Cons.IH that] .
  have "ends_in (\<lambda>w. I (w_db w)) (\<lambda>w. if flipped then
         (case handle_expired E deps a w of
            None \<Rightarrow> None
          | Some (Ok _, w2) \<Rightarrow> expire_all E (handle_expired E deps) expired w2
          | Some (Err e, w2) \<Rightarrow> Some (Err e, w2)
          | Some (Panic, w2) \<Rightarrow> Some (Panic, w2))
       else expire_all E (handle_expired E deps) expired w) (\<lambda>w. I (w_db w))" for flipped
    unfolding ends_in_def
    by (auto split: if_splits option.splits prod.splits res.splits dest: step rest)
  then show ?case
    unfolding expire_all.simps(2) [abs_def]
    by (intro ends_in_then_run [OF hoare_keeps [OF ops_keep(4)]]) auto
qed (simp add: ends_in_def)

lemma poll_once_keeps:
  "ends_in (\<lambda>w. I (w_db w)) (poll_once E (handle_expired E deps)) (\<lambda>w. I (w_db w))"
  unfolding poll_once_def
  by (rule ends_in_then_run [OF hoare_keeps]; (intro keeps_intros)?) (rule expire_all_keeps)

end

interpretation via_statements: request_writes "(db_step E)\<^sup>*\<^sup>* d0" for E d0
  by unfold_locales (rule stmt_intros)+

section \<open>Who may act, and when\<close>

text \<open>C16: only the requester can answer, and only while the request is in progress: for anybody
  else, or for a request that waits for an approval or is finished, the handler returns an
  error and leaves the database as it was, whatever calls of the database fail.\<close>

theorem submit_answer_refused:
  assumes "\<forall>r \<in> set (db_instances (w_db w)). wi_id r = instance_id \<longrightarrow>
      wi_requester_user_id r \<noteq> u_id user \<or> wi_status r \<noteq> InProgress"
  shows "\<exists>e w'. submit_answer E deps instance_id user field_key v w = Some (Err e, w') \<and> w_db w' = w_db w"
proof (cases rule: sql_query_cases
    [of E "\<lambda>now d. find_row (\<lambda>r. wi_id r = instance_id) (db_instances d)" w])
  case (answered w1)
  show ?thesis
  proof (cases "find_row (\<lambda>r. wi_id r = instance_id) (db_instances (w_db w))")
    case None
    then show ?thesis using answered by (simp add: submit_answer_def instances_get_by_id_def io_simps)
  next
    case (Some r)
    from find_row_SomeD [OF this] have "wi_requester_user_id r \<noteq> u_id user \<or> wi_status r \<noteq> InProgress" using assms by blast
    then show ?thesis using answered Some
      by (cases "wi_requester_user_id r = u_id user") (simp_all add: submit_answer_def instances_get_by_id_def io_simps)
  qed
next
  case (failed e w1)
  then show ?thesis by (simp add: submit_answer_def instances_get_by_id_def io_simps)
qed

text \<open>A service that is not in the catalog or has been deactivated cannot be requested: the
  handler returns an error and no row is created.\<close>

lemma start_instance_refused:
  assumes "\<forall>c \<in> set (db_items (w_db w)). ci_id c = item_id \<longrightarrow> \<not> ci_is_active c"
  shows "\<exists>e w'. start_instance E deps item_id user w = Some (Err e, w') \<and> w_db w' = w_db w"
proof (cases rule: sql_query_cases
    [of E "\<lambda>now d. find_row (\<lambda>r. ci_id r = item_id) (db_items d)" w])
  case (answered w1)
  show ?thesis
  proof (cases "find_row (\<lambda>r. ci_id r = item_id) (db_items (w_db w))")
    case None
    then show ?thesis using answered by (simp add: start_instance_def catalog_get_by_id_def io_simps)
  next
    case (Some r)
    from find_row_SomeD [OF this] have "\<not> ci_is_active r" using assms by blast
    then show ?thesis using answered Some
      by (cases "ci_is_active r") (simp_all add: start_instance_def catalog_get_by_id_def io_simps)
  qed
next
  case (failed e w1)
  then show ?thesis by (simp add: start_instance_def catalog_get_by_id_def io_simps)
qed

section \<open>Termination of the loop\<close>

text \<open>The ticket steps the loop goes through for fixed answers.\<close>

definition next_ticket :: "WorkflowGraph \<Rightarrow> Answers \<Rightarrow> (string \<times> string) set" where
  "next_ticket graph answers =
     {(s', s). resume_after_ticket_dispatch graph s answers = Inr (s', ReadyToSubmitTicket)}"

text \<open>The orchestrator's loop returns whenever no chain of ticket steps goes on for ever: if
  the relation from a ticket step to the ticket step it leads to is well-founded for the
  collected answers, every call of \<^verbatim>\<open>apply_outcome\<close> returns.\<close>

lemma apply_outcome_returns:
  assumes "wf (next_ticket (wd_graph definition) answers)"
  shows "\<exists>rw. apply_outcome E deps definition i rid answers step_id outcome w = Some rw"
  using assms
proof (induction step_id arbitrary: outcome w rule: wf_induct_rule)
  case (less s)
  show ?case
  proof (cases outcome)
    case ReadyToSubmitTicket
    obtain q w1 where q: "dispatch_ticket E deps definition i rid answers w = (q, w1)" by fastforce
    show ?thesis
    proof (cases q)
      case (Ok u)
      show ?thesis
      proof (cases "resume_after_ticket_dispatch (wd_graph definition) s answers")
        case (Inr p)
        obtain s' oc where p: "p = (s', oc)" by fastforce
        have "\<exists>rw. apply_outcome E deps definition i rid answers s' oc w1 = Some rw"
        proof (cases "oc = ReadyToSubmitTicket")
          case True
          then have "(s', s) \<in> next_ticket (wd_graph definition) answers"
            using Inr p by (simp add: next_ticket_def)
          then show ?thesis by (rule less.IH)
        next
          case False
          then show ?thesis by (subst apply_outcome.simps) (cases oc; simp)
        qed
        then show ?thesis
          by (subst apply_outcome.simps) (simp add: ReadyToSubmitTicket q Ok Inr p)
      qed (subst apply_outcome.simps, simp add: ReadyToSubmitTicket q Ok)
    qed (subst apply_outcome.simps, simp add: ReadyToSubmitTicket q)+
  qed (subst apply_outcome.simps, simp)+
qed

text \<open>A ticket step that leads back to itself: after a successful dispatch the loop is where it
  was before, one ticket later, so it keeps dispatching as long as dispatches succeed.\<close>

lemma ticket_cycle_redispatches:
  assumes "resume_after_ticket_dispatch (wd_graph definition) s answers = Inr (s, ReadyToSubmitTicket)"
    and "dispatch_ticket E deps definition i rid answers w = (Ok (), w')"
  shows "apply_outcome E deps definition i rid answers s ReadyToSubmitTicket w =
    apply_outcome E deps definition i rid answers s ReadyToSubmitTicket w'"
  by (subst apply_outcome.simps) (simp add: assms)

section \<open>What a dispatch leaves behind\<close>


text \<open>What is dispatched: the definition's field mapping rendered with the answers and what the
  database says of the requester, the request and its catalog item.\<close>

definition rendered_payload ::
    "env \<Rightarrow> db \<Rightarrow> WorkflowDefinition \<Rightarrow> uuid \<Rightarrow> uuid \<Rightarrow> Answers \<Rightarrow> json \<Rightarrow> bool" where
  "rendered_payload E d def i rid answers payload \<longleftrightarrow>
     (\<exists>mapping requester instance item.
        wd_field_mapping def = Some mapping \<and>
        find_row (\<lambda>r. u_id r = rid) (db_users d) = Some requester \<and>
        find_row (\<lambda>r. wi_id r = i) (db_instances d) = Some instance \<and>
        find_row (\<lambda>r. ci_id r = wi_catalog_item_id instance) (db_items d) = Some item \<and>
        render E mapping (template_context_new (JObject answers) (u_email requester)
          (u_display_name requester) (env_uuid_str E i) (ci_name item)) = Inr payload)"

definition faulted :: "env \<Rightarrow> world \<Rightarrow> world \<Rightarrow> bool" where
  "faulted E w w' \<longleftrightarrow> (\<exists>n. w_io w \<le> n \<and> n < w_io w' \<and> env_fault E n \<noteq> NoFault)"

abbreviation later :: "world \<Rightarrow> world \<Rightarrow> bool" where
  "later w w' \<equiv> w_io w \<le> w_io w'"

abbreviation still :: "world \<Rightarrow> world \<Rightarrow> bool" where
  "still w w' \<equiv> w_db w' = w_db w \<and> later w w'"

lemma sql_effect:
  obtains (took_effect) x d where "s (env_time E (w_io w)) (w_db w) = (Inr x, d)"
      "sql E s w = (Ok x, w\<lparr>w_io := Suc (w_io w), w_db := d\<rparr>)"
  | (refused) e d where "s (env_time E (w_io w)) (w_db w) = (Inl e, d)"
      "sql E s w = (Err (Sqlx e), w\<lparr>w_io := Suc (w_io w)\<rparr>)"
  | (not_sent) "env_fault E (w_io w) \<noteq> NoFault"
      "sql E s w = (Err (Sqlx ConnectionError), w\<lparr>w_io := Suc (w_io w)\<rparr>)"
  | (unanswered) x d where "env_fault E (w_io w) \<noteq> NoFault"
      "s (env_time E (w_io w)) (w_db w) = (Inr x, d)"
      "sql E s w = (Err (Sqlx ConnectionError), w\<lparr>w_io := Suc (w_io w), w_db := d\<rparr>)"
proof -
  obtain q d where q: "s (env_time E (w_io w)) (w_db w) = (q, d)" by fastforce
  show thesis
    by (cases "env_fault E (w_io w)"; cases q)
      (use q in \<open>simp_all add: sql_def Let_def took_effect refused not_sent unanswered\<close>)
qed

lemma read_effect:
  obtains (answered) "sql E (query q) w = (Ok (q (env_time E (w_io w)) (w_db w)), w\<lparr>w_io := Suc (w_io w)\<rparr>)"
  | (failed) e w' where "sql E (query q) w = (Err e, w')" "still w w'"
      "env_fault E (w_io w) \<noteq> NoFault" "w_io w' = Suc (w_io w)"
  by (cases rule: sql_effect [of "query q" E w]) (auto simp: query_def)

text \<open>The second half of \<open>dispatch_ticket\<close>, once the payload is rendered.\<close>

abbreviation deliver_payload ::
    "env \<Rightarrow> uuid \<Rightarrow> TargetSystem \<Rightarrow> connector \<Rightarrow> json \<Rightarrow> (ApiError, unit) act" where
  "deliver_payload E i target connector payload \<equiv>
     bindM (map_err api_of_db (tickets_create E i target payload)) (\<lambda>ticket.
     bindM (try_io (connector_dispatch E connector payload)) (\<lambda>result.
     case result of
       Inr res \<Rightarrow>
         map_err api_of_db (tickets_mark_sent E (t_id ticket) (dr_external_ticket_id res)
           (dr_external_ticket_url res))
     | Inl err \<Rightarrow>
         bindM (map_err api_of_db
                  (tickets_mark_failed E (t_id ticket) (connector_error_display err))) (\<lambda>_.
         fail (api_of_connector err))))"

lemma bind_ok_or:
  assumes "bindM (ok_or e x) f w = (r, w')"
  obtains (missing) "r = Err e" "w' = w" | (present) y where "x = Some y" "f y w = (r, w')"
  using assms by (cases x) auto

lemma bind_read:
  assumes "bindM (map_err g (sql E (query (\<lambda>now. q)))) (\<lambda>x. bindM (ok_or e x) f) w = (r, w')"
  obtains (missing) e' where "r = Err e'" "still w w'"
  | (present) y w1 where "q (w_db w) = Some y" "still w w1" "f y w1 = (r, w')"
proof (cases rule: read_effect [of E "\<lambda>now. q" w])
  case answered
  show ?thesis
  proof (cases "q (w_db w)")
    case None
    then show ?thesis using answered assms missing by (auto simp: io_simps)
  next
    case (Some y)
    then show ?thesis using answered assms present [OF Some, of "w\<lparr>w_io := Suc (w_io w)\<rparr>"] by (simp add: io_simps)
  qed
next
  case failed
  then show ?thesis using assms missing by (auto simp: io_simps)
qed

lemma dispatch_prepares:
  assumes "dispatch_ticket E deps def i rid answers w = (r, w')"
  obtains (early) e where "r = Err e" "still w w'"
  | (ready) target connector payload w1 where
      "wd_target_system def = Some target" "registry_get (deps_connectors deps) target = Some connector"
      "rendered_payload E (w_db w) def i rid answers payload" "still w w1"
      "deliver_payload E i target connector payload w1 = (r, w')"
proof -
  note read = users_get_by_id_def instances_get_by_id_def catalog_get_by_id_def
  show thesis
    using assms unfolding dispatch_ticket_def read Let_def
  proof (elim bind_ok_or)
    fix target mapping connector
    assume t: "wd_target_system def = Some target" "wd_field_mapping def = Some mapping"
        "registry_get (deps_connectors deps) target = Some connector"
      and run: "bindM (map_err api_of_db (sql E (query (\<lambda>now d. find_row (\<lambda>r. u_id r = rid) (db_users d))))) (\<lambda>r.
          bindM (ok_or Internal r) (\<lambda>requester.
          bindM (map_err api_of_db (sql E (query (\<lambda>now d. find_row (\<lambda>r. wi_id r = i) (db_instances d))))) (\<lambda>r.
          bindM (ok_or Internal r) (\<lambda>inst.
          bindM (map_err api_of_db (sql E (query (\<lambda>now d. find_row (\<lambda>r. ci_id r = wi_catalog_item_id inst) (db_items d))))) (\<lambda>c.
          bindM (ok_or Internal c) (\<lambda>item.
          bindM (map_err (\<lambda>_. Internal) (lift_sum (render E mapping (template_context_new (JObject answers)
             (u_email requester) (u_display_name requester) (env_uuid_str E i) (ci_name item)))))
            (\<lambda>payload. deliver_payload E i target connector payload))))))) w = (r, w')"
    from run show thesis
    proof (elim bind_read)
      fix requester w1 inst w2 item w3
      assume found: "find_row (\<lambda>r. u_id r = rid) (db_users (w_db w)) = Some requester"
          "find_row (\<lambda>r. wi_id r = i) (db_instances (w_db w1)) = Some inst"
          "find_row (\<lambda>r. ci_id r = wi_catalog_item_id inst) (db_items (w_db w2)) = Some item"
        and at: "still w w1" "still w1 w2" "still w2 w3"
        and rest: "bindM (map_err (\<lambda>_. Internal) (lift_sum (render E mapping (template_context_new (JObject answers)
             (u_email requester) (u_display_name requester) (env_uuid_str E i) (ci_name item)))))
            (\<lambda>payload. deliver_payload E i target connector payload) w3 = (r, w')"
      show thesis
      proof (cases "render E mapping (template_context_new (JObject answers)
             (u_email requester) (u_display_name requester) (env_uuid_str E i) (ci_name item))")
        case (Inl e)
        then show ?thesis using rest at early by (auto simp: io_simps)
      next
        case (Inr payload)
        then have "rendered_payload E (w_db w) def i rid answers payload"
          using found at t by (auto simp: rendered_payload_def)
        moreover have "deliver_payload E i target connector payload w3 = (r, w')"
          using rest Inr by (simp add: bindM_apply [of _ _ w3] map_err_apply)
        moreover have "still w w3" using at by simp
        ultimately show ?thesis using t ready by blast
      qed
    qed (auto intro: early)
  qed (auto intro: early)
qed

lemma mark_new_ticket:
  assumes "t_id t \<notin> t_id ` set ts"
  shows "update_rows (\<lambda>r. t_id r = t_id t) f (ts @ [t]) = ts @ [f t]"
  using assms by (induction ts) auto

lemmas touched_ticket =
  touched_proj [where g = t_id] touched_proj [where g = t_workflow_instance_id]
  touched_proj [where g = t_target_system] touched_proj [where g = t_dispatch_status]
  touched_proj [where g = t_external_ticket_id] touched_proj [where g = t_last_error]
  touched_proj [where g = t_rendered_payload_json] touched_proj [where g = t_external_ticket_url]

definition ticket_for :: "uuid \<Rightarrow> TargetSystem \<Rightarrow> json \<Rightarrow> Ticket \<Rightarrow> bool" where
  "ticket_for i target payload t \<longleftrightarrow> t_workflow_instance_id t = i \<and> t_target_system t = target \<and>
     t_rendered_payload_json t = payload"

abbreviation with_ticket :: "world \<Rightarrow> Ticket \<Rightarrow> world \<Rightarrow> bool" where
  "with_ticket w t w' \<equiv> w_db w' = (w_db w)\<lparr>db_tickets := db_tickets (w_db w) @ [t]\<rparr> \<and> later w w' \<and>
     t_id t \<notin> t_id ` set (db_tickets (w_db w))"

lemma faulted_at: "env_fault E n \<noteq> NoFault \<Longrightarrow> w_io w \<le> n \<Longrightarrow> n < w_io w' \<Longrightarrow> faulted E w w'"
  by (auto simp: faulted_def)

lemma create_effect:
  assumes "tickets_create E i target payload w = (r, w')"
  obtains (created) t where "r = Ok t" "ticket_for i target payload t" "t_dispatch_status t = DPending"
      "t_external_ticket_id t = None" "with_ticket w t w'"
  | (unchanged) e where "r = Err e" "still w w'"
  | (lost) e t where "r = Err e" "ticket_for i target payload t" "t_dispatch_status t = DPending"
      "t_external_ticket_id t = None" "with_ticket w t w'" "faulted E w w'"
proof -
  define w1 where "w1 = snd (new_uuid E w)"
  have w1: "new_uuid E w = (Ok (env_uuid E (w_uuids w)), w1)" "w_db w1 = w_db w" "w_io w1 = w_io w"
    by (simp_all add: w1_def new_uuid_def)
  let ?j = "env_uuid E (w_uuids w)"
  let ?s = "tickets_create_stmt ?j i target payload" and ?g = "\<lambda>now :: timestamp. \<lambda>d. find_row (\<lambda>r. t_id r = ?j) (db_tickets d)"
  have inserted: "\<exists>t. d = (w_db w)\<lparr>db_tickets := db_tickets (w_db w) @ [t]\<rparr> \<and> t_id t = ?j \<and>
      ?j \<notin> t_id ` set (db_tickets (w_db w)) \<and> ticket_for i target payload t \<and> t_dispatch_status t = DPending \<and>
      t_external_ticket_id t = None"
    if "?s (env_time E (w_io w1)) (w_db w1) = (Inr x, d)" for x d
    using that by (auto simp: tickets_create_stmt_def insert_if_def w1 ticket_for_def split: if_splits)
  note eval = tickets_create_def tickets_get_by_id_def io_simps w1
  show thesis
  proof (cases rule: sql_effect [of ?s E w1])
    case (took_effect x d)
    then obtain t where t: "d = (w_db w)\<lparr>db_tickets := db_tickets (w_db w) @ [t]\<rparr>" "t_id t = ?j"
      "?j \<notin> t_id ` set (db_tickets (w_db w))" "ticket_for i target payload t" "t_dispatch_status t = DPending"
      "t_external_ticket_id t = None" using inserted by blast
    let ?w2 = "w1\<lparr>w_io := Suc (w_io w1), w_db := d\<rparr>"
    show ?thesis
    proof (cases rule: read_effect [of E ?g ?w2])
      case answered
      have "find_row (\<lambda>r. t_id r = ?j) (db_tickets d) = Some t"
        using t by (simp add: find_row_append find_row_fresh)
      then show ?thesis using created [OF _ t(4-6)] took_effect answered assms t by (auto simp: eval)
    next
      case (failed e w3)
      then show ?thesis
        using lost [OF _ t(4-6) _ faulted_at [of E "w_io ?w2"]] took_effect assms t by (auto simp: eval)
    qed
  next
    case (refused e d)
    then have "(r, w') = (Err (Sqlx e), w1\<lparr>w_io := Suc (w_io w1)\<rparr>)" using assms by (simp add: eval)
    then show ?thesis by (intro unchanged [of "Sqlx e"]) (simp_all add: w1)
  next
    case not_sent
    then show ?thesis using unchanged [of "Sqlx ConnectionError"] assms by (auto simp: eval)
  next
    case (unanswered x d)
    then obtain t where t: "d = (w_db w)\<lparr>db_tickets := db_tickets (w_db w) @ [t]\<rparr>" "t_id t = ?j"
      "?j \<notin> t_id ` set (db_tickets (w_db w))" "ticket_for i target payload t" "t_dispatch_status t = DPending"
      "t_external_ticket_id t = None" using inserted by blast
    then show ?thesis
      using lost [OF _ t(4-6) _ faulted_at [of E "w_io w1"]] unanswered assms by (auto simp: eval)
  qed
qed

lemma mark_effect:
  assumes "sql E s w = (r, w')" "with_ticket w0 t w"
    and "\<And>now d. s now d = (Inr (), d\<lparr>db_tickets := update_rows (\<lambda>r. t_id r = t_id t) (f now) (db_tickets d)\<rparr>)"
    and "\<And>now. t_id (f now t) = t_id t"
  obtains (marked) now where "r = Ok ()" "with_ticket w0 (f now t) w'" "later w w'"
  | (unsure) e now t' where "r = Err e" "faulted E w0 w'" "t' = t \<or> t' = f now t" "with_ticket w0 t' w'"
proof -
  have moved: "update_rows (\<lambda>r. t_id r = t_id t) g (db_tickets (w_db w0) @ [t]) = db_tickets (w_db w0) @ [g t]" for g
    using assms(2) by (simp add: mark_new_ticket)
  show thesis
  proof (cases rule: sql_effect [of s E w])
    case (took_effect x d)
    then show ?thesis using assms marked [of "env_time E (w_io w)"] moved by auto
  next
    case (refused e d)
    then show ?thesis using assms(3) by simp
  next
    case not_sent
    then show ?thesis using assms unsure [of _ t 0] faulted_at [OF not_sent(1), of w0 w'] by auto
  next
    case (unanswered x d)
    then show ?thesis
      using assms unsure [of _ "f (env_time E (w_io w)) t" "env_time E (w_io w)"] moved
        faulted_at [OF unanswered(1), of w0 w'] by auto
  qed
qed

lemma http_send_later [keeps_intros]: "keeps (\<lambda>w. n \<le> w_io w) (http_send E rq)"
  by (rule keepsI) (simp add: http_send_def)

lemma new_uuid_later [keeps_intros]: "keeps (\<lambda>w. n \<le> w_io w) (new_uuid E)"
  by (rule keepsI) (simp add: new_uuid_def)

lemma connector_later: "keeps (\<lambda>w. n \<le> w_io w) (connector_dispatch E c p)"
  by (cases c; simp only: connector_dispatch.simps jira_dispatch_def glpi_dispatch_def webhook_dispatch_def
      init_session_def glpi_create_ticket_def kill_session_def Let_def; intro keeps_intros)

definition handed_over :: "env \<Rightarrow> world \<Rightarrow> uuid \<Rightarrow> TargetSystem \<Rightarrow> connector \<Rightarrow> json \<Rightarrow>
    (ConnectorError, DispatchResult) res \<Rightarrow> world \<Rightarrow> bool" where
  "handed_over E w i target connector payload reply w' \<longleftrightarrow>
     (\<exists>v t. connector_dispatch E connector payload v = (reply, w') \<and> later w v \<and>
        w_db v = (w_db w)\<lparr>db_tickets := db_tickets (w_db w) @ [t]\<rparr> \<and>
        ticket_for i target payload t \<and> t_dispatch_status t = DPending)"

lemma deliver_effect:
  assumes "deliver_payload E i target connector payload w = (r, w')"
  obtains (sent) res v t where "r = Ok ()" "handed_over E w i target connector payload (Ok res) v" "later v w'"
      "ticket_for i target payload t" "with_ticket w t w'" "t_dispatch_status t = Sent"
      "t_external_ticket_id t = Some (dr_external_ticket_id res)"
      "t_external_ticket_url t = dr_external_ticket_url res" "t_last_error t = None"
  | (unchanged) e where "r = Err e" "still w w'"
  | (rejected) err v t where "r = Err (api_of_connector err)"
      "handed_over E w i target connector payload (Err err) v" "later v w'"
      "ticket_for i target payload t" "with_ticket w t w'" "t_dispatch_status t = DFailed"
      "t_external_ticket_id t = None" "t_last_error t = Some (connector_error_display err)"
  | (lost) e t where "r = Err e" "faulted E w w'" "ticket_for i target payload t" "with_ticket w t w'"
proof -
  obtain q w1 where q: "tickets_create E i target payload w = (q, w1)" by fastforce
  from q show thesis
  proof (cases rule: create_effect)
    case (unchanged e)
    then show ?thesis using assms q that(2) by (auto simp: io_simps)
  next
    case (lost e t)
    then show ?thesis using assms q that(4) by (auto simp: io_simps)
  next
    case (created t)
    have known: "handed_over E w i target connector payload reply v" "with_ticket w t v" "later w1 v"
      if "connector_dispatch E connector payload w1 = (reply, v)" for reply v
      using created that registered.dispatch_db [of E connector payload w1]
        keepsD [OF connector_later, of "w_io w1" w1 E connector payload]
      by (auto simp: handed_over_def)
    show ?thesis
    proof (cases rule: registered.dispatch_cases [of E connector payload w1])
      case (1 res v)
      let ?f = "\<lambda>now. touched ticket_stamp now (\<lambda>r. r\<lparr>t_dispatch_status := Sent,
           t_external_ticket_id := Some (dr_external_ticket_id res), t_external_ticket_url := dr_external_ticket_url res,
           t_last_error := None\<rparr>)"
      obtain x w2 where x: "tickets_mark_sent E (t_id t) (dr_external_ticket_id res) (dr_external_ticket_url res) v = (x, w2)"
        by fastforce
      have run: "(r, w') = (case x of Ok u \<Rightarrow> Ok u | Err e \<Rightarrow> Err (api_of_db e) | Panic \<Rightarrow> Panic, w2)"
        using assms q created 1 x by (auto simp: io_simps split: res.splits)
      have stmt: "tickets_mark_sent_stmt (t_id t) (dr_external_ticket_id res) (dr_external_ticket_url res) now d =
          (Inr (), d\<lparr>db_tickets := update_rows (\<lambda>r. t_id r = t_id t) (?f now) (db_tickets d)\<rparr>)" for now d
        by (simp add: tickets_mark_sent_stmt_def)
      have "t_id (?f now t) = t_id t" for now by (simp add: touched_ticket)
      from x [unfolded tickets_mark_sent_def] known(2) [OF 1(1)] stmt this show ?thesis
      proof (cases rule: mark_effect)
        case (marked now)
        then show ?thesis
          using that(1) [OF _ known(1) [OF 1(1)], of "?f now t"] created run by (simp add: ticket_for_def touched_ticket)
      next
        case (unsure e now t')
        then have "ticket_for i target payload t'" using created by (auto simp: ticket_for_def touched_ticket)
        then show ?thesis using that(4) [of "api_of_db e" t'] unsure run by simp
      qed
    next
      case (2 err v)
      let ?g = "\<lambda>now. touched ticket_stamp now
          (\<lambda>r. r\<lparr>t_dispatch_status := DFailed, t_last_error := Some (connector_error_display err)\<rparr>)"
      obtain x w2 where x: "tickets_mark_failed E (t_id t) (connector_error_display err) v = (x, w2)" by fastforce
      have run: "(r, w') = (case x of Ok u \<Rightarrow> Err (api_of_connector err) | Err e \<Rightarrow> Err (api_of_db e) | Panic \<Rightarrow> Panic, w2)"
        using assms q created 2 x by (auto simp: io_simps split: res.splits)
      have stmt: "tickets_mark_failed_stmt (t_id t) (connector_error_display err) now d =
          (Inr (), d\<lparr>db_tickets := update_rows (\<lambda>r. t_id r = t_id t) (?g now) (db_tickets d)\<rparr>)" for now d
        by (simp add: tickets_mark_failed_stmt_def)
      have "t_id (?g now t) = t_id t" for now by (simp add: touched_ticket)
      from x [unfolded tickets_mark_failed_def] known(2) [OF 2(1)] stmt this show ?thesis
      proof (cases rule: mark_effect)
        case (marked now)
        then show ?thesis
          using that(3) [OF _ known(1) [OF 2(1)], of "?g now t"] created run by (simp add: ticket_for_def touched_ticket)
      next
        case (unsure e now t')
        then have "ticket_for i target payload t'" using created by (auto simp: ticket_for_def touched_ticket)
        then show ?thesis using that(4) [of "api_of_db e" t'] unsure run by simp
      qed
    qed
  qed
qed


section \<open>The stored request is a state of the engine\<close>

text \<open>The status a resting point of the engine is stored with.\<close>

fun resting_status :: "Outcome \<Rightarrow> InstanceStatus option" where
  "resting_status (AwaitingAnswer _) = Some InProgress"
| "resting_status (AwaitingApproval _ _) = Some AwaitingApprovalStatus"
| "resting_status ReadyToSubmitTicket = None"
| "resting_status (Finished eo) = Some (end_status eo)"

text \<open>The stored row is a state of the engine on this graph: its step, answers and status are
  those of a run of the pure engine that waits for an answer, for an approval or is done.\<close>

definition engine_state :: "WorkflowGraph \<Rightarrow> WorkflowInstance \<Rightarrow> bool" where
  "engine_state graph r \<longleftrightarrow>
     (\<exists>oc. engine_run graph (wi_current_step_id r) (answers_map (wi_answers_json r)) oc \<and>
        resting_status oc = Some (wi_status r))"

lemma answers_map_object [simp]: "answers_map (JObject m) = m"
  by (simp add: answers_map_def)

lemma finish_with_Ok:
  assumes "finish_with E i s answers st w = (Ok r, w')"
  shows "r \<in> set (db_instances (w_db w')) \<and> wi_id r = i \<and> wi_current_step_id r = s \<and>
    wi_answers_json r = JObject answers \<and> wi_status r = st"
proof -
  let ?f = "progress_row s (JObject answers) st (env_time E (w_io w))"
  let ?t = "update_rows (\<lambda>r. wi_id r = i) ?f (db_instances (w_db w))"
  obtain x w1 where x: "save_progress E i s (JObject answers) st w = (Ok x, w1)"
    and "ok_or Internal x w1 = (Ok r, w')"
    using assms unfolding finish_with_def by (elim bindM_OkE) simp
  then have r: "x = Some r" "w1 = w'" by (cases x; simp)+
  obtain w2 where w2: "sql E (save_progress_stmt i s (JObject answers) st) w = (Ok (), w2)"
    and get: "instances_get_by_id E i w2 = (Ok (Some r), w')"
    using x r unfolding save_progress_def by (auto elim: bindM_OkE)
  have t: "db_instances (w_db w2) = ?t"
    using w2 by (auto elim!: sql_OkE simp: save_progress_stmt_def)
  have fr: "find_row (\<lambda>r. wi_id r = i) ?t = Some r" "db_instances (w_db w') = ?t"
    using sql_query_Ok [OF get [unfolded instances_get_by_id_def]] t by auto
  then obtain old where "find_row (\<lambda>r. wi_id r = i) (db_instances (w_db w)) = Some old" "r = ?f old"
    by (auto simp: find_row_update_same)
  then show ?thesis
    using find_row_SomeD [OF fr(1)] fr(2) by simp
qed

lemma await_approval_Ok:
  assumes "await_approval E deps i rid answers s res t w = (Ok r, w')"
  obtains w1 where "finish_with E i s answers AwaitingApprovalStatus w1 = (Ok r, w')"
  using assms unfolding await_approval_def by (elim bindM_OkE) auto

text \<open>What the loop leaves when it returns an instance: the way out it took.\<close>

lemma apply_outcome_Ok:
  assumes "apply_outcome E deps definition i rid answers s oc w = Some (Ok r, w')" "P s oc"
    and step: "\<And>s s' oc'. P s ReadyToSubmitTicket \<Longrightarrow>
      resume_after_ticket_dispatch (wd_graph definition) s answers = Inr (s', oc') \<Longrightarrow> P s' oc'"
  shows "\<exists>s' oc' st w1. P s' oc' \<and> resting_status oc' = Some st \<and>
    finish_with E i s' answers st w1 = (Ok r, w')"
    (is "?way")
proof -
  let ?P = "\<lambda>E' deps' def' i' rid' answers' (s :: string) (oc :: Outcome) (w :: world) rw.
    E' = E \<and> deps' = deps \<and> def' = definition \<and> i' = i \<and> rid' = rid \<and> answers' = answers \<and>
    P s oc \<and> rw = (Ok r, w') \<longrightarrow> ?way"
  have "?P E deps definition i rid answers s oc w rw"
    if "apply_outcome E deps definition i rid answers s oc w = Some rw" for s oc w rw
  proof (rule apply_outcome.raw_induct [where P = ?P, OF _ that], rule impI, elim conjE)
    fix f E' deps' def' i' rid' answers' s oc w rw
    assume IH: "\<And>E' deps' def' i' rid' answers' s oc w rw.
        f E' deps' def' i' rid' answers' s oc w = Some rw \<Longrightarrow> ?P E' deps' def' i' rid' answers' s oc w rw"
      and P: "P s oc" and rw: "rw = (Ok r, w')"
      and eqs: "E' = E" "deps' = deps" "def' = definition" "i' = i" "rid' = rid" "answers' = answers"
      and body: "(case oc of
        AwaitingAnswer _ \<Rightarrow> Some (finish_with E' i' s answers' InProgress w)
      | AwaitingApproval resolution timeout_seconds \<Rightarrow>
          Some (await_approval E' deps' i' rid' answers' s resolution timeout_seconds w)
      | ReadyToSubmitTicket \<Rightarrow>
          (case dispatch_ticket E' deps' def' i' rid' answers' w of
             (Ok _, w1) \<Rightarrow>
               (case resume_after_ticket_dispatch (wd_graph def') s answers' of
                  Inl e \<Rightarrow> Some (Err (api_of_engine e), w1)
                | Inr (next_step_id, next_outcome) \<Rightarrow>
                    f E' deps' def' i' rid' answers' next_step_id next_outcome w1)
           | (Err err, w1) \<Rightarrow> Some (fail_instance E' i' s answers' err w1)
           | (Panic, w1) \<Rightarrow> Some (Panic, w1))
      | Finished end_outcome \<Rightarrow>
          Some (finish_with E' i' s answers' (end_status end_outcome) w)) = Some rw"
    have failed: "fail_instance E i s answers err w2 \<noteq> (Ok r, w')" for err w2
      by (auto simp: fail_instance_def elim!: bindM_OkE)
    have out: ?way if "resting_status oc = Some st" "finish_with E i s answers st w1 = (Ok r, w')" for st w1
      using P that by blast
    show ?way
    proof (cases oc)
      case (AwaitingApproval res t)
      then have "await_approval E deps i rid answers s res t w = (Ok r, w')"
        using body rw by (simp add: eqs)
      then show ?thesis using out AwaitingApproval by (auto elim: await_approval_Ok)
    next
      case ReadyToSubmitTicket
      obtain q w1 where q: "dispatch_ticket E deps definition i rid answers w = (q, w1)" by fastforce
      show ?thesis
      proof (cases q)
        case (Ok u)
        then obtain s' oc' where nxt: "resume_after_ticket_dispatch (wd_graph definition) s answers = Inr (s', oc')"
          and again: "f E deps definition i rid answers s' oc' w1 = Some rw"
          using body q ReadyToSubmitTicket rw
          by (cases "resume_after_ticket_dispatch (wd_graph definition) s answers") (auto simp: eqs)
        have "P s' oc'" using P step nxt ReadyToSubmitTicket by blast
        then show ?thesis using IH [OF again] rw by simp
      qed (use body q ReadyToSubmitTicket rw failed in \<open>simp_all add: eqs\<close>)
    qed (use body rw out in \<open>auto simp: eqs\<close>)
  qed
  from this [OF assms(1)] show ?thesis using assms(2) by simp
qed

text \<open>One theorem for the three handlers: what the loop returns continues the engine's run.\<close>

lemma apply_outcome_engine_state:
  assumes "apply_outcome E deps definition i rid answers s oc w = Some (Ok r, w')"
    and "engine_run (wd_graph definition) s answers oc"
  shows "r \<in> set (db_instances (w_db w')) \<and> wi_id r = i \<and> wi_answers_json r = JObject answers \<and>
    engine_state (wd_graph definition) r"
proof -
  let ?run = "\<lambda>s oc. engine_run (wd_graph definition) s answers oc"
  have step: "?run s' oc'" if "?run s ReadyToSubmitTicket"
    "resume_after_ticket_dispatch (wd_graph definition) s answers = Inr (s', oc')" for s s' oc'
    using run_event [OF that(1), of Dispatched] that(2) by simp
  obtain s' oc' st w1 where run: "?run s' oc'" and st: "resting_status oc' = Some st"
    and fin: "finish_with E i s' answers st w1 = (Ok r, w')"
    using apply_outcome_Ok [where P = ?run, OF assms] step by blast
  show ?thesis using finish_with_Ok [OF fin] st run by (auto simp: engine_state_def)
qed

lemma instances_get_OkD:
  "instances_get_by_id E i w = (Ok x, w1) \<Longrightarrow>
   find_row (\<lambda>r. wi_id r = i) (db_instances (w_db w)) = x \<and> w_db w1 = w_db w"
  unfolding instances_get_by_id_def by (drule sql_query_Ok) simp

lemma catalog_get_OkD:
  "catalog_get_by_id E i w = (Ok x, w1) \<Longrightarrow>
   find_row (\<lambda>c. ci_id c = i) (db_items (w_db w)) = x \<and> w_db w1 = w_db w"
  unfolding catalog_get_by_id_def by (drule sql_query_Ok) simp

lemma definitions_get_OkD:
  assumes "definitions_get_by_id E i w = (Ok (Some m), w1)"
  shows "(\<exists>row. find_row (\<lambda>d. wr_id d = i) (db_definitions (w_db w)) = Some row \<and>
    row_into_model E row = Inr m) \<and> w_db w1 = w_db w"
proof -
  obtain x w2 where x: "sql E (query (\<lambda>now d. find_row (\<lambda>r. wr_id r = i) (db_definitions d))) w = (Ok x, w2)"
    and rest: "(case x of None \<Rightarrow> return None
      | Some r \<Rightarrow> bindM (lift_sum (row_into_model E r)) (\<lambda>m. return (Some m))) w2 = (Ok (Some m), w1)"
    using assms unfolding definitions_get_by_id_def by (elim bindM_OkE)
  note x = sql_query_Ok [OF x]
  show ?thesis
  proof (cases x)
    case (Some row)
    then show ?thesis using x rest by (cases "row_into_model E row") auto
  qed (use rest in simp)
qed

lemma instances_create_answers:
  "instances_create E a b c s w = (Ok r, w') \<Longrightarrow> wi_answers_json r = JObject []"
  unfolding instances_create_def instances_get_by_id_def
  by (drule instances_table.create_returns_row [of E "(a, b, c, s)", simplified]) (simp add: instance_row_def)

text \<open>C13: starting a request begins a run of the engine: the row the handler returns is stored,
  and its step, answers and status are a state the pure engine reaches on the graph of the
  active catalog item's definition, with no dispatch left to do.\<close>

theorem start_instance_refines_engine:
  assumes "start_instance E deps item_id user w = Some (Ok r, w')"
  shows "r \<in> set (db_instances (w_db w')) \<and>
    (\<exists>c row def. find_row (\<lambda>c. ci_id c = item_id) (db_items (w_db w)) = Some c \<and> ci_is_active c \<and>
       find_row (\<lambda>d. wr_id d = ci_workflow_definition_id c) (db_definitions (w_db w)) = Some row \<and>
       row_into_model E row = Inr def \<and> engine_state (wd_graph def) r)"
proof -
  from assms obtain c def i s oc w1 w2 w3 w4 where c: "catalog_get_by_id E item_id w = (Ok (Some c), w1)"
    "ci_is_active c" and def: "definitions_get_by_id E (ci_workflow_definition_id c) w1 = (Ok (Some def), w2)"
    and st: "start (wd_graph def) = Inr (s, oc)"
    and i: "instances_create E (wd_id def) (ci_id c) (u_id user) s w3 = (Ok i, w4)"
    and run: "apply_outcome E deps def (wi_id i) (u_id user) (answers_map (wi_answers_json i)) s oc w4 = Some (Ok r, w')"
    unfolding start_instance_def
    by (auto elim!: then_run_OkE bindM_OkE dest!: ok_or_OkD lift_sum_OkD split: if_splits)
  have "engine_run (wd_graph def) s (answers_map (wi_answers_json i)) oc"
    using st instances_create_answers [OF i] by (simp add: run_start)
  from apply_outcome_engine_state [OF run this] show ?thesis
    using catalog_get_OkD [OF c(1)] c(2) definitions_get_OkD [OF def] by auto
qed

text \<open>C12: answering continues the run: when the stored request was a state of the engine, the
  row \<^verbatim>\<open>submit_answer\<close> returns is stored and again one, and it carries the answer.\<close>

theorem submit_answer_refines_engine:
  assumes "submit_answer E deps i user key v w = Some (Ok r, w')"
    and "find_row (\<lambda>r. wi_id r = i) (db_instances (w_db w)) = Some old"
    and "find_row (\<lambda>d. wr_id d = wi_workflow_definition_id old) (db_definitions (w_db w)) = Some row"
    and "row_into_model E row = Inr def"
    and "engine_state (wd_graph def) old"
  shows "r \<in> set (db_instances (w_db w')) \<and> wi_id r = i \<and> engine_state (wd_graph def) r \<and>
    answers_map (wi_answers_json r) = obj_insert key v (answers_map (wi_answers_json old))"
proof -
  from assms(1) obtain old' def' res answers s oc w1 w2 where
    i: "instances_get_by_id E i w = (Ok (Some old'), w1)"
    and def: "definitions_get_by_id E (wi_workflow_definition_id old') w1 = (Ok (Some def'), w2)"
    and sub: "engine_submit_answer (wd_graph def') (wi_current_step_id old')
      (answers_map (wi_answers_json old')) key v = (Inr (s, oc), answers)"
    and run: "apply_outcome E deps def' (wi_id old') (u_id user) answers s oc w2 = Some (Ok r, w')"
    unfolding submit_answer_def Let_def
    by (auto elim!: then_run_OkE bindM_OkE dest!: ok_or_OkD lift_sum_OkD split: if_splits prod.splits)
  have [simp]: "old' = old" "def' = def" "wi_id old = i"
    using instances_get_OkD [OF i] definitions_get_OkD [OF def] assms(2-4)
      find_row_SomeD [OF assms(2)] by auto
  obtain oc0 where "engine_run (wd_graph def) (wi_current_step_id old) (answers_map (wi_answers_json old)) oc0"
    using assms(5) by (auto simp: engine_state_def)
  then have "engine_run (wd_graph def) s answers oc"
    by (rule run_event [of _ _ _ _ "Answered key v"]) (use sub in simp)
  then show ?thesis
    using apply_outcome_engine_state [OF run] submit_answer_Inr [OF sub] by simp
qed

text \<open>C14: so does resuming after a decision or an expiry: when the stored request waits at the
  approval step, the row \<^verbatim>\<open>resume_after_approval\<close> returns is stored, keeps the answers and is
  again a state of the engine.\<close>

theorem resume_after_approval_refines_engine:
  assumes "resume_after_approval E deps i (wi_current_step_id old) decision w = Some (Ok r, w')"
    and "find_row (\<lambda>r. wi_id r = i) (db_instances (w_db w)) = Some old"
    and "find_row (\<lambda>d. wr_id d = wi_workflow_definition_id old) (db_definitions (w_db w)) = Some row"
    and "row_into_model E row = Inr def"
    and "engine_state (wd_graph def) old"
  shows "r \<in> set (db_instances (w_db w')) \<and> wi_id r = i \<and> engine_state (wd_graph def) r \<and>
    answers_map (wi_answers_json r) = answers_map (wi_answers_json old)"
proof -
  from assms(1) obtain old' def' s oc w1 w2 where
    i: "instances_get_by_id E i w = (Ok (Some old'), w1)"
    and def: "definitions_get_by_id E (wi_workflow_definition_id old') w1 = (Ok (Some def'), w2)"
    and sub: "engine_resume_after_approval (wd_graph def') (wi_current_step_id old)
      (answers_map (wi_answers_json old')) decision = Inr (s, oc)"
    and run: "apply_outcome E deps def' (wi_id old') (wi_requester_user_id old')
      (answers_map (wi_answers_json old')) s oc w2 = Some (Ok r, w')"
    unfolding resume_after_approval_def Let_def
    by (auto elim!: then_run_OkE bindM_OkE dest!: ok_or_OkD lift_sum_OkD)
  have [simp]: "old' = old" "def' = def" "wi_id old = i"
    using instances_get_OkD [OF i] definitions_get_OkD [OF def] assms(2-4)
      find_row_SomeD [OF assms(2)] by auto
  obtain oc0 where "engine_run (wd_graph def) (wi_current_step_id old) (answers_map (wi_answers_json old)) oc0"
    using assms(5) by (auto simp: engine_state_def)
  then have "engine_run (wd_graph def) s (answers_map (wi_answers_json old)) oc"
    by (rule run_event [of _ _ _ _ "Decided decision"]) (use sub in simp)
  then show ?thesis using apply_outcome_engine_state [OF run] by simp
qed

section \<open>A failed dispatch\<close>

lemma dispatch_keeps_instances:
  "dispatch_ticket E deps def i rid answers w = (r, w') \<Longrightarrow> db_instances (w_db w') = db_instances (w_db w)"
  by (erule dispatch_prepares, simp, erule deliver_effect) auto

text \<open>A request whose ticket cannot be dispatched ends as failed: when no call of the database
  fails and the request exists, the loop returns the dispatch's error and leaves the request
  failed at the ticket step with its answers and a completion time.\<close>

lemma failed_dispatch_fails_request:
  assumes "fault_free E" "i \<in> instance_ids (w_db w)"
    and "dispatch_ticket E deps def i rid answers w = (Err err, w1)"
  shows "\<exists>w'. apply_outcome E deps def i rid answers s ReadyToSubmitTicket w = Some (Err err, w') \<and>
    db_tickets (w_db w') = db_tickets (w_db w1) \<and>
    (\<exists>r \<in> set (db_instances (w_db w')). wi_id r = i \<and> wi_status r = Failed \<and>
       wi_current_step_id r = s \<and> wi_answers_json r = JObject answers \<and> wi_completed_at r \<noteq> None)"
proof -
  obtain old where "old \<in> set (db_instances (w_db w1))" "wi_id old = i"
    using assms(2) dispatch_keeps_instances [OF assms(3)] by auto
  then have "\<exists>r \<in> set (update_rows (\<lambda>r. wi_id r = i) (progress_row s (JObject answers) Failed now)
      (db_instances (w_db w1))). wi_id r = i \<and> wi_status r = Failed \<and>
       wi_current_step_id r = s \<and> wi_answers_json r = JObject answers \<and> wi_completed_at r \<noteq> None" for now
    by (auto simp: set_update_rows intro!: bexI [of _ "progress_row s (JObject answers) Failed now old"])
  then show ?thesis
    by (subst apply_outcome.simps)
      (simp add: assms(3) fail_instance_def save_progress_def instances_get_by_id_def io_simps
        save_progress_stmt_def query_def sql_fault_free [OF assms(1)])
qed

section \<open>Witnesses\<close>

abbreviation E1 :: env where
  "E1 \<equiv> sample_env sample_graph sample_mapping"

definition sample_deps :: Deps where
  "sample_deps = \<lparr>deps_notifier = LoggingNotifier, deps_connectors = registry_from_config sample_config\<rparr>"

text \<open>The sample database with the request still at its first question.\<close>

definition asking :: WorkflowInstance where
  "asking = sample_instance\<lparr>wi_status := InProgress, wi_current_step_id := ''ask'',
     wi_answers_json := JObject []\<rparr>"

definition asking_world :: world where
  "asking_world = sample_world\<lparr>w_db := sample_db\<lparr>db_instances := [asking]\<rparr>\<rparr>"

theorem submit_answer_refused_witness:
  "\<exists>e w'. submit_answer E1 sample_deps 5 sample_manager ''device'' JNull sample_world = Some (Err e, w') \<and>
     w_db w' = w_db sample_world"
  by (rule submit_answer_refused) (simp add: sample_world_def sample_defs)

lemma start_instance_refused_example:
  "\<exists>e w'. start_instance E1 sample_deps 77 sample_requester sample_world = Some (Err e, w') \<and>
     w_db w' = w_db sample_world"
  by (rule start_instance_refused) (simp add: sample_world_def sample_defs)

lemma next_ticket_sample: "next_ticket sample_graph answers = {}"
  by (auto simp: next_ticket_def resume_after_ticket_dispatch_def find_def graph_step_def sample_graph_def
      auto_advance_def MAX_AUTO_STEPS_def numeral_eq_Suc split: if_splits)

definition sample_model :: WorkflowDefinition where
  "sample_model = \<lparr>wd_id = 3, wd_name = ''Device'', wd_version = 1, wd_graph = sample_graph,
     wd_field_mapping = Some sample_mapping, wd_target_system = Some Jira, wd_is_published = True,
     wd_created_by = Some 1, wd_created_at = 0, wd_updated_at = 0\<rparr>"

lemma sample_row_model: "row_into_model E1 sample_definition = Inr sample_model"
  by (simp add: row_into_model_def sample_definition_def sample_model_def sample_env_def)

lemma apply_outcome_returns_example:
  "\<exists>rw. apply_outcome E1 sample_deps sample_model 5 2 [] ''submit'' ReadyToSubmitTicket sample_world = Some rw"
  by (rule apply_outcome_returns) (simp add: next_ticket_sample sample_model_def)

lemmas world_eval = sample_world_def sample_defs asking_world_def asking_def sql_def query_def
  sample_env_def io_simps new_uuid_def insert_if_def instances_get_by_id_def users_get_by_id_def catalog_get_by_id_def
  definitions_get_by_id_def tickets_create_def tickets_get_by_id_def tickets_create_stmt_def
  tickets_mark_sent_def tickets_mark_sent_stmt_def save_progress_def save_progress_stmt_def

lemma sample_connector:
  "registry_get (deps_connectors sample_deps) Jira = Some (JiraC (jira_new ''https://jira/'' ''bot@x'' ''t''))"
  by (simp add: sample_deps_def sample_config_def registry_get_def registry_from_config_def)

lemmas dispatch_eval = dispatch_ticket_def sample_connector render_def sample_mapping_def
  jira_dispatch_def http_send_def is_success_def get_str_def body_or_null_def json_get_def
  obj_get_def jira_new_def trim_end_slashes_def template_context_new_def


lemmas engine_eval = find_def graph_step_def sample_graph_def auto_advance_def MAX_AUTO_STEPS_def
  numeral_eq_Suc

lemma sample_submit:
  "engine_submit_answer sample_graph ''ask'' [] ''device'' (JString ''mouse'') =
     (Inr (''submit'', ReadyToSubmitTicket), [(''device'', JString ''mouse'')])"
  by (simp add: engine_submit_answer_def engine_eval obj_get_def eval_condition.simps)

lemma asking_state: "engine_state sample_graph asking"
  using run_start [OF sample_graph_start] by (force simp: engine_state_def asking_def)

theorem start_instance_refines_engine_witness:
  "\<exists>r w'. start_instance E1 sample_deps 4 sample_requester sample_world = Some (Ok r, w') \<and>
     r \<in> set (db_instances (w_db w')) \<and> engine_state sample_graph r"
proof -
  obtain r w' where run: "start_instance E1 sample_deps 4 sample_requester sample_world = Some (Ok r, w')"
    by (simp add: start_instance_def sample_graph_start world_eval instances_create_def instances_create_stmt_def
        row_into_model_def apply_outcome.simps finish_with_def)
  show ?thesis
    using run start_instance_refines_engine [OF run] sample_row_model
    by (auto simp: sample_world_def sample_defs sample_model_def split: if_splits)
qed

theorem submit_answer_refines_engine_witness:
  "\<exists>r w'. submit_answer E1 sample_deps 5 sample_requester ''device'' (JString ''mouse'') asking_world =
       Some (Ok r, w') \<and> r \<in> set (db_instances (w_db w')) \<and> engine_state sample_graph r \<and>
     answers_map (wi_answers_json r) = [(''device'', JString ''mouse'')]"
proof -
  have "\<exists>r w'. submit_answer E1 sample_deps 5 sample_requester ''device'' (JString ''mouse'') asking_world =
      Some (Ok r, w')"
    by (simp add: submit_answer_def sample_submit world_eval row_into_model_def)
      (simp add: apply_outcome.simps finish_with_def resume_after_ticket_dispatch_def engine_eval
        dispatch_eval world_eval sample_model_def)
  then obtain r w' where run: "submit_answer E1 sample_deps 5 sample_requester ''device'' (JString ''mouse'')
      asking_world = Some (Ok r, w')" by blast
  show ?thesis
    using run submit_answer_refines_engine [OF run, of asking sample_definition sample_model]
      sample_row_model asking_state
    by (simp add: asking_world_def sample_world_def sample_defs sample_model_def asking_def)
qed

lemma sample_state: "engine_state sample_graph sample_instance"
proof -
  have "deliver sample_graph ''ask'' [] (Answered ''device'' (JString ''laptop'')) =
      (Inr (''approve'', AwaitingApproval ManagerOfRequester None), [(''device'', JString ''laptop'')])"
    by (simp add: engine_submit_answer_def engine_eval obj_get_def eval_condition.simps)
  from run_event [OF run_start [OF sample_graph_start] this] show ?thesis
    by (force simp: engine_state_def sample_instance_def)
qed

theorem resume_after_approval_refines_engine_witness:
  "\<exists>r w'. resume_after_approval E1 sample_deps 5 ''approve'' Reject sample_world = Some (Ok r, w') \<and>
     r \<in> set (db_instances (w_db w')) \<and> engine_state sample_graph r"
proof -
  have "\<exists>r w'. resume_after_approval E1 sample_deps 5 (wi_current_step_id sample_instance) Reject sample_world =
      Some (Ok r, w')"
    by (simp add: resume_after_approval_def Let_def engine_resume_after_approval_def engine_eval world_eval
        row_into_model_def apply_outcome.simps finish_with_def)
  then obtain r w' where run: "resume_after_approval E1 sample_deps 5 (wi_current_step_id sample_instance)
      Reject sample_world = Some (Ok r, w')" by blast
  show ?thesis
    using run resume_after_approval_refines_engine [OF run, of sample_definition sample_model]
      sample_row_model sample_state
    by (simp add: sample_world_def sample_defs sample_model_def)
qed

lemma failed_dispatch_fails_request_example:
  "\<exists>w'. apply_outcome E1 sample_deps (sample_model\<lparr>wd_target_system := Some Glpi\<rparr>) 5 2 [] ''submit''
      ReadyToSubmitTicket sample_world = Some (Err Internal, w') \<and>
    db_tickets (w_db w') = [] \<and>
    (\<exists>r \<in> set (db_instances (w_db w')). wi_id r = 5 \<and> wi_status r = Failed \<and>
       wi_current_step_id r = ''submit'' \<and> wi_answers_json r = JObject [] \<and> wi_completed_at r \<noteq> None)"
proof -
  have "dispatch_ticket E1 sample_deps (sample_model\<lparr>wd_target_system := Some Glpi\<rparr>) 5 2 [] sample_world =
      (Err Internal, sample_world)"
    by (simp add: dispatch_ticket_def sample_model_def sample_deps_def sample_config_def registry_get_def
        registry_from_config_def)
  from failed_dispatch_fails_request [OF _ _ this, of "''submit''"] show ?thesis
    by (simp add: fault_free_def sample_env_def sample_world_def sample_db_def sample_instance_def empty_db_def)
qed

end
