(* ===== verification/System.thy ===== *)
theory System
  imports Orchestrator
begin

text \<open>
  The life of requests under the server's handlers: starting a request, answering a
  question, deciding an approval, polling for expired approvals, and the administrative
  operations in between.

  \<open>sys_inv\<close> says that an approval waits exactly where its request waits: every pending
  approval belongs to a request that awaits approval at that approval's step, a request has
  at most one pending approval, and \<^verbatim>\<open>completed_at\<close> is set exactly for terminal requests. \<open>F\<close>
  is a set of finished requests, none of which may change any more. Inside a handler that
  drives request \<open>i\<close>, \<open>idle_inv\<close> holds (no pending approval for \<open>i\<close>, \<open>i\<close> not finished), and
  between creating the approval and storing the new status, \<open>asked_inv\<close>.

  The invariant is that of handlers that run one after the other while the database does
  not fail; the properties of single statements and of \<open>db_step\<close> in theory Repositories need
  neither.
\<close>

section \<open>The invariant\<close>

definition awaits :: "db \<Rightarrow> PendingApproval \<Rightarrow> bool" where
  "awaits d a \<longleftrightarrow> (\<exists>r \<in> set (db_instances d). wi_id r = pa_workflow_instance_id a \<and>
     wi_status r = AwaitingApprovalStatus \<and> wi_current_step_id r = pa_step_id a)"

definition one_pending :: "db \<Rightarrow> bool" where
  "one_pending d \<longleftrightarrow> (\<forall>a \<in> set (db_approvals d). \<forall>b \<in> set (db_approvals d).
     pa_status a = Pending \<and> pa_status b = Pending \<and>
     pa_workflow_instance_id a = pa_workflow_instance_id b \<longrightarrow> a = b)"

definition base_inv :: "env \<Rightarrow> WorkflowInstance set \<Rightarrow> db \<Rightarrow> bool" where
  "base_inv E F d \<longleftrightarrow> db_wf E d \<and> db_org_settings d \<noteq> None \<and> one_pending d \<and>
     (\<forall>r \<in> set (db_instances d). wi_completed_at r \<noteq> None \<longleftrightarrow> is_terminal (wi_status r)) \<and>
     F \<subseteq> set (db_instances d) \<and> (\<forall>r \<in> F. is_terminal (wi_status r))"

definition sys_inv :: "env \<Rightarrow> WorkflowInstance set \<Rightarrow> db \<Rightarrow> bool" where
  "sys_inv E F d \<longleftrightarrow> base_inv E F d \<and>
     (\<forall>a \<in> set (db_approvals d). pa_status a = Pending \<longrightarrow> awaits d a)"

definition live :: "uuid \<Rightarrow> db \<Rightarrow> bool" where
  "live i d \<longleftrightarrow> (\<forall>r \<in> set (db_instances d). wi_id r = i \<longrightarrow> \<not> is_terminal (wi_status r))"

definition asked_inv :: "env \<Rightarrow> WorkflowInstance set \<Rightarrow> uuid \<Rightarrow> string \<Rightarrow> db \<Rightarrow> bool" where
  "asked_inv E F i s d \<longleftrightarrow> base_inv E F d \<and> live i d \<and>
     (\<forall>a \<in> set (db_approvals d). pa_status a = Pending \<longrightarrow>
        (if pa_workflow_instance_id a = i then pa_step_id a = s else awaits d a))"

definition idle_inv :: "env \<Rightarrow> WorkflowInstance set \<Rightarrow> uuid \<Rightarrow> db \<Rightarrow> bool" where
  "idle_inv E F i d \<longleftrightarrow> sys_inv E F d \<and> live i d \<and>
     (\<forall>a \<in> set (db_approvals d). pa_workflow_instance_id a = i \<longrightarrow> pa_status a \<noteq> Pending)"

lemma idle_sys: "idle_inv E F i d \<Longrightarrow> sys_inv E F d"
  by (simp add: idle_inv_def)

lemma idle_asked: "idle_inv E F i d \<Longrightarrow> asked_inv E F i s d"
  by (auto simp: idle_inv_def asked_inv_def sys_inv_def)

section \<open>Statements\<close>

lemma inv_other_tables:
  assumes "db_wf E d'" "db_org_settings d' \<noteq> None" "db_instances d' = db_instances d"
    "db_approvals d' = db_approvals d"
  shows "sys_inv E F d \<Longrightarrow> sys_inv E F d'" "idle_inv E F i d \<Longrightarrow> idle_inv E F i d'"
    "asked_inv E F i s d \<Longrightarrow> asked_inv E F i s d'"
  using assms
  by (auto simp: sys_inv_def idle_inv_def asked_inv_def base_inv_def live_def awaits_def one_pending_def)

lemma sys_inv_wf: "sys_inv E F d \<Longrightarrow> db_wf E d"
  by (simp add: sys_inv_def base_inv_def)

lemma idle_inv_wf: "idle_inv E F i d \<Longrightarrow> db_wf E d"
  by (auto simp: idle_inv_def dest: sys_inv_wf)

lemma idle_frame:
  assumes "stmt_keeps (db_wf E) s"
    and "\<And>now d. db_instances (snd (s now d)) = db_instances d \<and>
      db_approvals (snd (s now d)) = db_approvals d \<and> db_org_settings (snd (s now d)) = db_org_settings d"
  shows "stmt_keeps (idle_inv E F i) s"
proof (rule stmt_keepsI)
  fix now d assume idle: "idle_inv E F i d"
  then have "db_org_settings d \<noteq> None" by (simp add: idle_inv_def sys_inv_def base_inv_def)
  then show "idle_inv E F i (snd (s now d))"
    using assms(2) [of now d] stmt_keepsD [OF assms(1) idle_inv_wf [OF idle], of now]
    by (intro inv_other_tables(2) [OF _ _ _ _ idle]) simp_all
qed

lemma idle_tickets [stmt_intros]:
  "stmt_keeps (idle_inv E F i) (tickets_create_stmt t a ts j)"
  "stmt_keeps (idle_inv E F i) (tickets_mark_sent_stmt t x u)"
  "stmt_keeps (idle_inv E F i) (tickets_mark_failed_stmt t err)"
  by (rule idle_frame [OF tickets_create_wf] idle_frame [OF tickets_mark_sent_wf]
      idle_frame [OF tickets_mark_failed_wf],
      simp add: tickets_create_stmt_def tickets_mark_sent_stmt_def tickets_mark_failed_stmt_def
        insert_if_snd)+

lemma save_progress_base:
  assumes "base_inv E F d" "live i d"
  shows "base_inv E F (snd (save_progress_stmt i s j st now d))"
proof -
  have F: "F \<subseteq> set (update_rows (\<lambda>r. wi_id r = i) (progress_row s j st now) (db_instances d))"
  proof
    fix r assume "r \<in> F"
    then have "r \<in> set (db_instances d)" "is_terminal (wi_status r)" using assms(1) by (auto simp: base_inv_def)
    then have "wi_id r \<noteq> i" using assms(2) by (auto simp: live_def)
    then show "r \<in> set (update_rows (\<lambda>r. wi_id r = i) (progress_row s j st now) (db_instances d))"
      using update_rows_mem [OF \<open>r \<in> set (db_instances d)\<close>, of "\<lambda>r. wi_id r = i"] by simp
  qed
  have "db_wf E (snd (save_progress_stmt i s j st now d))"
    using assms(1) by (intro stmt_keepsD [OF save_progress_wf]) (simp add: base_inv_def)
  moreover have "\<forall>r \<in> set (update_rows (\<lambda>r. wi_id r = i) (progress_row s j st now) (db_instances d)).
      wi_completed_at r \<noteq> None \<longleftrightarrow> is_terminal (wi_status r)"
    using assms by (auto simp: ball_update_rows base_inv_def live_def)
  ultimately show ?thesis
    using assms(1) F by (simp add: base_inv_def save_progress_stmt_def one_pending_def)
qed

lemma save_progress_awaits:
  assumes "awaits d a" "pa_workflow_instance_id a \<noteq> i"
  shows "awaits (snd (save_progress_stmt i s j st now d)) a"
proof -
  obtain r where r: "r \<in> set (db_instances d)" "wi_id r = pa_workflow_instance_id a"
    "wi_status r = AwaitingApprovalStatus" "wi_current_step_id r = pa_step_id a"
    using assms(1) by (auto simp: awaits_def)
  then have "r \<in> set (db_instances (snd (save_progress_stmt i s j st now d)))"
    using update_rows_mem [OF r(1), of "\<lambda>r. wi_id r = i" "progress_row s j st now"] assms(2)
    by (simp add: save_progress_stmt_def)
  with r show ?thesis by (auto simp: awaits_def)
qed

lemma save_progress_idle:
  assumes "idle_inv E F i d"
  shows "sys_inv E F (snd (save_progress_stmt i s j st now d))"
  using assms save_progress_base [of E F d i s j st now] save_progress_awaits [of d _ i s j st now]
  by (auto simp: idle_inv_def sys_inv_def) (auto simp: save_progress_stmt_def)

lemma save_progress_asked:
  assumes "asked_inv E F i s d"
  shows "sys_inv E F (snd (save_progress_stmt i s j AwaitingApprovalStatus now d))"
proof -
  let ?d = "snd (save_progress_stmt i s j AwaitingApprovalStatus now d)"
  have base: "base_inv E F d" "live i d" using assms by (auto simp: asked_inv_def)
  have "awaits ?d a" if a: "a \<in> set (db_approvals d)" "pa_status a = Pending" for a
  proof (cases "pa_workflow_instance_id a = i")
    case True
    have "i \<in> instance_ids d"
      using a True base(1) by (auto simp: base_inv_def db_wf_def approvals_ok_def)
    then obtain r where r: "r \<in> set (db_instances d)" "wi_id r = i" by auto
    have "progress_row s j AwaitingApprovalStatus now r \<in> set (db_instances ?d)"
      using update_rows_mem [OF r(1), of "\<lambda>r. wi_id r = i" "progress_row s j AwaitingApprovalStatus now"] r(2)
      by (simp add: save_progress_stmt_def)
    moreover have "pa_step_id a = s" using assms a True by (auto simp: asked_inv_def)
    ultimately show ?thesis
      using r(2) True unfolding awaits_def
      by (intro bexI [of _ "progress_row s j AwaitingApprovalStatus now r"]) simp_all
  next
    case False
    then show ?thesis using assms a by (auto simp: asked_inv_def intro: save_progress_awaits)
  qed
  then show ?thesis
    using save_progress_base [OF base] by (simp add: sys_inv_def save_progress_stmt_def)
qed

lemma approvals_create_idle:
  assumes "idle_inv E F i d" "approvals_create_stmt u i s b x now d = (Inr (), d')"
  shows "asked_inv E F i s d'"
proof -
  have d': "d' = snd (approvals_create_stmt u i s b x now d)" using assms(2) by simp
  have wf: "db_wf E d'"
    unfolding d' using assms(1) by (intro stmt_keepsD [OF approvals_create_wf]) (rule idle_inv_wf)
  show ?thesis
    using assms wf
    by (auto simp: approvals_create_stmt_def insert_if_Inr idle_inv_def asked_inv_def sys_inv_def
        base_inv_def one_pending_def live_def awaits_def)
qed

lemma instances_create_sys:
  assumes "sys_inv E F d" "instances_create_stmt u a b c s now d = (Inr (), d')"
  shows "idle_inv E F u d'"
proof -
  have d': "d' = snd (instances_create_stmt u a b c s now d)" using assms(2) by simp
  have wf: "db_wf E d'"
    unfolding d' using assms(1) by (intro stmt_keepsD [OF instances_create_wf]) (rule sys_inv_wf)
  have fresh: "\<forall>p \<in> set (db_approvals d). pa_workflow_instance_id p \<noteq> u" "u \<notin> instance_ids d"
    using assms by (auto simp: instances_create_stmt_def insert_if_Inr sys_inv_def base_inv_def
        db_wf_def approvals_ok_def)
  show ?thesis
    using assms wf fresh
    by (auto simp: instances_create_stmt_def insert_if_Inr idle_inv_def sys_inv_def
        base_inv_def one_pending_def live_def awaits_def)
qed

lemma decide_still_pending:
  assumes "b \<in> set (db_approvals (snd (approvals_decide_stmt i st c now d)))" "pa_status b = Pending"
    "st \<noteq> Pending"
  shows "b \<in> set (db_approvals d) \<and> pa_id b \<noteq> i"
  using assms by (auto simp: approvals_decide_stmt_def Let_def set_update_rows split: if_splits)

lemma decide_sys:
  assumes "sys_inv E F d" "st \<noteq> Pending"
  shows "sys_inv E F (snd (approvals_decide_stmt i st c now d))"
proof -
  let ?d = "snd (approvals_decide_stmt i st c now d)"
  have "db_wf E ?d"
    using assms(1) by (intro stmt_keepsD [OF approvals_decide_wf]) (rule sys_inv_wf)
  moreover have "db_instances ?d = db_instances d" "db_org_settings ?d = db_org_settings d"
    by (simp_all add: approvals_decide_stmt_def Let_def)
  moreover have "one_pending ?d"
    using assms decide_still_pending [of _ i st c now d]
    unfolding sys_inv_def base_inv_def one_pending_def by blast
  ultimately show ?thesis
    using assms decide_still_pending [of _ i st c now d]
    by (auto simp: sys_inv_def base_inv_def awaits_def)
qed

text \<open>Flipping the pending approval of a request leaves that request idle.\<close>

lemma decide_idle:
  assumes inv: "sys_inv E F d" and a: "a \<in> set (db_approvals d)" "pa_status a = Pending"
    and st: "st \<noteq> Pending"
  shows "idle_inv E F (pa_workflow_instance_id a) (snd (approvals_decide_stmt (pa_id a) st c now d))"
proof -
  let ?i = "pa_workflow_instance_id a"
  have "awaits d a" using inv a by (auto simp: sys_inv_def)
  then have live: "live ?i d"
    using inv by (auto simp: awaits_def live_def sys_inv_def base_inv_def db_wf_def instances_ok_def
        dest: uniq_eqD)
  have "\<forall>b \<in> set (db_approvals d). pa_workflow_instance_id b = ?i \<and> pa_status b = Pending \<longrightarrow> b = a"
    using inv a by (auto simp: sys_inv_def base_inv_def one_pending_def)
  then have none: "\<forall>b \<in> set (db_approvals (snd (approvals_decide_stmt (pa_id a) st c now d))).
      pa_workflow_instance_id b = ?i \<longrightarrow> pa_status b \<noteq> Pending"
    using st decide_still_pending [of _ "pa_id a" st c now d] by blast
  then show ?thesis
    using decide_sys [OF inv st] live by (simp add: idle_inv_def live_def approvals_decide_stmt_def Let_def)
qed

section \<open>Handlers\<close>

lemma dispatch_ticket_idle: "keeps (\<lambda>w. idle_inv E F i (w_db w)) (dispatch_ticket E deps def j rid answers)"
  unfolding dispatch_ticket_def tickets_create_def tickets_mark_sent_def tickets_mark_failed_def
    tickets_get_by_id_def
  by (intro keeps_intros stmt_intros)

lemma dhoare_save_progress:
  assumes "fault_free E" "\<And>now d. P d \<Longrightarrow> R (snd (save_progress_stmt i s j st now d))"
  shows "dhoare P (save_progress E i s j st) (\<lambda>_. R) R"
  unfolding save_progress_def
proof (rule dhoare_bindM)
  show "dhoare P (sql E (save_progress_stmt i s j st)) (\<lambda>_. R) R"
    by (rule dhoare_sql [OF assms(1)])
      (use assms(2) in \<open>auto simp: save_progress_stmt_def\<close>)
  show "dhoare R (instances_get_by_id E i) (\<lambda>_. R) R" for x :: unit
    by (rule dhoare_keeps [OF read_ops_keep(13)])
qed

lemma dhoare_finish_with:
  assumes "fault_free E" "\<And>now d. P d \<Longrightarrow> R (snd (save_progress_stmt i s (JObject answers) st now d))"
  shows "dhoare P (finish_with E i s answers st) (\<lambda>_. R) R"
  unfolding finish_with_def
proof (rule dhoare_bindM [OF dhoare_map_err])
  show "dhoare P (save_progress E i s (JObject answers) st) (\<lambda>_. R) R"
    using assms by (rule dhoare_save_progress)
qed (simp add: dhoare_ok_or)

lemma dhoare_settings:
  assumes "fault_free E" "\<And>d. P d \<Longrightarrow> db_org_settings d \<noteq> None"
  shows "dhoare P (org_settings_get E) (\<lambda>_. P) X"
  unfolding org_settings_get_def
  by (rule dhoare_sql [OF assms(1)])
    (use assms(2) in \<open>force simp: org_settings_get_stmt_def split: option.splits\<close>)+

lemma dhoare_notify: "dhoare P (notify_new_approval E n ctx) (\<lambda>_. P) X"
  by (rule dhoareI) (simp add: notifier.notify_Ok notifier.notify_db)

lemma approvals_create_dhoare:
  assumes "fault_free E"
  shows "dhoare (idle_inv E F i) (approvals_create E i s b x) (\<lambda>_. asked_inv E F i s) (sys_inv E F)"
proof (rule dhoareI)
  fix w :: world assume idle: "idle_inv E F i (w_db w)"
  obtain r w' where run: "approvals_create E i s b x w = (r, w')" by fastforce
  have "(\<exists>err. r = Err err \<and> w_db w' = w_db w) \<or>
    (\<exists>u now. r = Ok (approval_row u (i, s, b, x) now) \<and>
       approvals_create_stmt u i s b x now (w_db w) = (Inr (), w_db w'))"
    using approvals_table.create_without_faults [OF assms, of "(i, s, b, x)"] run
    unfolding approvals_create_def approvals_get_by_id_def by fastforce
  then show "post (\<lambda>_ w. asked_inv E F i s (w_db w)) (\<lambda>w. sys_inv E F (w_db w))
      (fst (approvals_create E i s b x w)) (snd (approvals_create E i s b x w))"
    using run idle idle_sys approvals_create_idle [OF idle] by auto
qed

lemma dhoare_idle: "keeps (\<lambda>w. idle_inv E F i (w_db w)) m \<Longrightarrow> dhoare (idle_inv E F i) m (\<lambda>_. idle_inv E F i) (sys_inv E F)"
  by (erule dhoare_conseq [OF dhoare_keeps]) (auto intro: idle_sys)

lemma catalog_item_name_dhoare:
  assumes "fault_free E"
  shows "dhoare P (catalog_item_name_for E i) (\<lambda>_. P) X"
  unfolding catalog_item_name_for_def
proof (rule dhoare_bindM [OF dhoare_map_err])
  show "dhoare P (instances_get_by_id E i) (\<lambda>_. P) X"
    unfolding instances_get_by_id_def by (rule dhoare_read [OF assms])
next
  fix r :: "WorkflowInstance option"
  show "dhoare P (case r of None \<Rightarrow> return ''(unknown request)''
     | Some instance \<Rightarrow> bindM (map_err Db (catalog_get_by_id E (wi_catalog_item_id instance))) (\<lambda>item.
         return (case item of None \<Rightarrow> ''(deleted service)'' | Some item \<Rightarrow> ci_name item))) (\<lambda>_. P) X"
    unfolding catalog_get_by_id_def
    by (cases r; simp only: option.case)
      (rule dhoare_return, assumption, rule dhoare_bindM [OF dhoare_map_err [OF dhoare_read [OF assms]]],
        rule dhoare_return, assumption)
qed

text \<open>Once the approval exists, nothing fails any more: the mail's texts are read from rows that
  exist, and a notifier does not fail.\<close>

lemma create_for_instance_dhoare:
  assumes ff: "fault_free E"
  shows "dhoare (idle_inv E F i) (create_for_instance E n i s rq res t)
    (\<lambda>_. asked_inv E F i s) (sys_inv E F)"
  unfolding create_for_instance_def
proof (rule dhoare_bindM [OF dhoare_idle [OF resolve_keeps]],
    rule dhoare_bindM [OF dhoare_idle [OF expiry_time_keeps]],
    rule dhoare_bindM [OF dhoare_map_err [OF approvals_create_dhoare [OF ff]]],
    rule dhoare_bindM [OF dhoare_map_err], unfold users_get_by_id_def, rule dhoare_read [OF ff])
  fix u :: uuid and x :: "timestamp option" and a :: PendingApproval and appr :: "User option"
  have settings: "asked_inv E F i s d \<Longrightarrow> db_org_settings d \<noteq> None" for d
    by (simp add: asked_inv_def base_inv_def)
  show "dhoare (asked_inv E F i s) (case appr of None \<Rightarrow> return a
     | Some approver \<Rightarrow>
         bindM (catalog_item_name_for E i) (\<lambda>catalog_item_name.
         bindM (map_err Db (org_settings_get E)) (\<lambda>settings.
         bindM (notify_new_approval E n
                  \<lparr>nn_approval = a, nn_approver = approver, nn_requester = rq,
                   nn_catalog_item_name = catalog_item_name,
                   nn_org_timezone = os_timezone settings\<rparr>) (\<lambda>_. return a))))
     (\<lambda>_. asked_inv E F i s) (sys_inv E F)"
    by (cases appr; simp only: option.case)
      (rule dhoare_return, assumption,
       rule dhoare_bindM [OF catalog_item_name_dhoare [OF ff]],
       rule dhoare_bindM [OF dhoare_map_err [OF dhoare_settings [OF ff settings]]], assumption,
       rule dhoare_bindM [OF dhoare_notify], rule dhoare_return, assumption)
qed

lemma await_approval_dhoare:
  assumes ff: "fault_free E"
  shows "dhoare (idle_inv E F i) (await_approval E deps i rid answers s res t) (\<lambda>_. sys_inv E F) (sys_inv E F)"
  unfolding await_approval_def
proof (rule dhoare_bindM [OF dhoare_map_err [OF dhoare_idle [OF read_ops_keep(3)]]])
  fix r
  show "dhoare (idle_inv E F i) (bindM (ok_or Internal r) (\<lambda>requester.
      bindM (map_err (api_of_approvals E)
         (create_for_instance E (deps_notifier deps) i s requester res t)) (\<lambda>_.
      finish_with E i s answers AwaitingApprovalStatus))) (\<lambda>_. sys_inv E F) (sys_inv E F)"
    by (rule dhoare_bindM [OF dhoare_idle [OF keeps_ok_or]],
        rule dhoare_bindM [OF dhoare_map_err [OF create_for_instance_dhoare [OF ff]]],
        rule dhoare_finish_with [OF ff], rule save_progress_asked)
qed

lemma apply_outcome_inv:
  assumes ff: "fault_free E"
  shows "ends_in (\<lambda>w. idle_inv E F i (w_db w)) (apply_outcome E deps def i rid answers s oc)
    (\<lambda>w. sys_inv E F (w_db w))"
proof (rule apply_outcome_rule)
  show "hoare (\<lambda>w. idle_inv E F i (w_db w)) (finish_with E i s answers st)
      (\<lambda>_ w. sys_inv E F (w_db w)) (\<lambda>w. sys_inv E F (w_db w))" for s st
    using dhoare_finish_with [OF ff, of "idle_inv E F i" "sys_inv E F"] save_progress_idle
    by (simp add: dhoare_def)
  then show "hoare (\<lambda>w. idle_inv E F i (w_db w)) (finish_with E i s answers (end_status eo))
      (\<lambda>_ w. sys_inv E F (w_db w)) (\<lambda>w. sys_inv E F (w_db w))" for s eo .
  show "hoare (\<lambda>w. idle_inv E F i (w_db w)) (await_approval E deps i rid answers s res t)
      (\<lambda>_ w. sys_inv E F (w_db w)) (\<lambda>w. sys_inv E F (w_db w))" for s res t
    using await_approval_dhoare [OF ff] by (simp add: dhoare_def)
  show "hoare (\<lambda>w. idle_inv E F i (w_db w)) (dispatch_ticket E deps def i rid answers)
      (\<lambda>_ w. idle_inv E F i (w_db w)) (\<lambda>w. idle_inv E F i (w_db w))"
    by (rule hoare_keeps [OF dispatch_ticket_idle])
  have "dhoare (idle_inv E F i) (fail_instance E i s answers err) (\<lambda>_. sys_inv E F) (sys_inv E F)" for s err
    unfolding fail_instance_def
    by (rule dhoare_bindM [OF dhoare_map_err], rule dhoare_save_progress [OF ff], erule save_progress_idle)
      (rule dhoare_fail)
  then show "hoare (\<lambda>w. idle_inv E F i (w_db w)) (fail_instance E i s answers err)
      (\<lambda>_ w. sys_inv E F (w_db w)) (\<lambda>w. sys_inv E F (w_db w))" for s err
    by (simp add: dhoare_def)
qed (rule idle_sys)

lemma instances_create_dhoare:
  assumes "fault_free E"
  shows "dhoare (sys_inv E F) (instances_create E a b c s) (\<lambda>r. idle_inv E F (wi_id r)) (sys_inv E F)"
proof (rule dhoareI)
  fix w :: world assume inv: "sys_inv E F (w_db w)"
  obtain r w' where run: "instances_create E a b c s w = (r, w')" by fastforce
  have "(\<exists>err. r = Err err \<and> w_db w' = w_db w) \<or>
    (\<exists>u now. r = Ok (instance_row u (a, b, c, s) now) \<and>
       instances_create_stmt u a b c s now (w_db w) = (Inr (), w_db w'))"
    using instances_table.create_without_faults [OF assms, of "(a, b, c, s)"] run
    unfolding instances_create_def instances_get_by_id_def by fastforce
  then show "post (\<lambda>r w. idle_inv E F (wi_id r) (w_db w)) (\<lambda>w. sys_inv E F (w_db w))
      (fst (instances_create E a b c s w)) (snd (instances_create E a b c s w))"
    using run inv instances_create_sys [OF inv] by (auto simp: instance_row_def)
qed

lemma start_instance_inv:
  assumes ff: "fault_free E"
  shows "ends_in (\<lambda>w. sys_inv E F (w_db w)) (start_instance E deps item u) (\<lambda>w. sys_inv E F (w_db w))"
  unfolding start_instance_def
proof (rule dhoare_ends_in [where X = "sys_inv E F"
      and Q = "\<lambda>(definition, instance, step_id, outcome). idle_inv E F (wi_id instance)"], goal_cases)
  case 1
  show ?case
    by (rule dhoare_bindM [OF dhoare_keeps], intro keeps_intros,
        rule dhoare_bindM [OF dhoare_keeps], intro keeps_intros,
        rule dhoare_if, rule dhoare_fail, assumption,
        (rule dhoare_bindM [OF dhoare_keeps], intro keeps_intros)+,
        rule dhoare_case_prod, rule dhoare_bindM [OF dhoare_map_err [OF instances_create_dhoare [OF ff]]],
        rule dhoare_return, simp)
qed (auto intro: apply_outcome_inv [OF ff])

text \<open>A request that is in progress has no pending approval.\<close>

lemma in_progress_idle:
  assumes inv: "sys_inv E F d" and r: "r \<in> set (db_instances d)" "wi_status r = InProgress"
  shows "idle_inv E F (wi_id r) d"
proof -
  have same: "s \<in> set (db_instances d) \<Longrightarrow> wi_id s = wi_id r \<Longrightarrow> s = r" for s
    using inv r(1) by (auto simp: sys_inv_def base_inv_def db_wf_def instances_ok_def intro: uniq_eqD)
  then show ?thesis
    using inv r by (fastforce simp: idle_inv_def live_def sys_inv_def awaits_def)
qed

text \<open>Reading a request by its id.\<close>

lemma instances_get_dhoare:
  assumes "fault_free E"
  shows "dhoare P (map_err g (instances_get_by_id E i))
    (\<lambda>r d. P d \<and> (\<forall>x. r = Some x \<longrightarrow> x \<in> set (db_instances d) \<and> wi_id x = i)) X"
  unfolding instances_get_by_id_def
  by (rule dhoare_conseq [OF dhoare_map_err [OF dhoare_query [OF assms]]]) (auto dest: find_row_SomeD)

lemma submit_answer_inv:
  assumes ff: "fault_free E"
  shows "ends_in (\<lambda>w. sys_inv E F (w_db w)) (submit_answer E deps i u k v) (\<lambda>w. sys_inv E F (w_db w))"
  unfolding submit_answer_def
proof (rule dhoare_ends_in [where X = "sys_inv E F"
      and Q = "\<lambda>(definition, instance, answers, step_id, outcome). idle_inv E F (wi_id instance)"], goal_cases)
  case 1
  let ?Q = "\<lambda>(definition, instance, answers, step_id, outcome). idle_inv E F (wi_id instance)"
  have go: "dhoare (idle_inv E F (wi_id x))
      (bindM (map_err api_of_db (definitions_get_by_id E (wi_workflow_definition_id x))) (\<lambda>d.
       bindM (ok_or Internal d) (\<lambda>definition.
       let (result, answers) = engine_submit_answer (wd_graph definition)
             (wi_current_step_id x) (answers_map (wi_answers_json x)) k v
       in bindM (map_err api_of_engine (lift_sum result)) (\<lambda>(step_id, outcome).
          return (definition, x, answers, step_id, outcome))))) ?Q (sys_inv E F)" for x
    by (rule dhoare_bindM [OF dhoare_idle], intro keeps_intros,
        rule dhoare_bindM [OF dhoare_idle], intro keeps_intros,
        unfold Let_def, rule dhoare_case_prod,
        rule dhoare_bindM [OF dhoare_idle], intro keeps_intros,
        rule dhoare_case_prod, rule dhoare_return, simp)
  show ?case
    by (rule dhoare_bindM [OF instances_get_dhoare [OF ff]],
        rule dhoare_bindM [where R = "\<lambda>x d. sys_inv E F d \<and> x \<in> set (db_instances d)"],
        rule dhoare_ok_or, simp, simp,
        rule dhoare_if, rule dhoare_fail, simp, rule dhoare_if, rule dhoare_fail, simp,
        rule dhoare_conseq [OF go], auto intro: in_progress_idle)
qed (auto intro: apply_outcome_inv [OF ff])

lemma resume_after_approval_inv:
  assumes ff: "fault_free E"
  shows "ends_in (\<lambda>w. idle_inv E F i (w_db w)) (resume_after_approval E deps i s dec)
    (\<lambda>w. sys_inv E F (w_db w))"
  unfolding resume_after_approval_def
proof (rule dhoare_ends_in [where X = "sys_inv E F"
      and Q = "\<lambda>(definition, instance, answers, step_id, outcome). idle_inv E F (wi_id instance)"], goal_cases)
  case 1
  show ?case
    apply (rule dhoare_bindM [OF instances_get_dhoare [OF ff]])
    apply (rule dhoare_bindM [where R = "\<lambda>x. idle_inv E F (wi_id x)"])
     apply (rule dhoare_ok_or)
      apply (auto intro: idle_sys)[2]
    apply (rule dhoare_bindM [OF dhoare_idle], intro keeps_intros)
    apply (rule dhoare_bindM [OF dhoare_idle], intro keeps_intros)
    apply (unfold Let_def)
    apply (rule dhoare_bindM [OF dhoare_idle], intro keeps_intros)
    apply (rule dhoare_case_prod, rule dhoare_return, simp)
    done
qed (auto intro: apply_outcome_inv [OF ff])

lemma decide_dhoare:
  "dhoare (sys_inv E F) (decide E aid uid dec c)
     (\<lambda>a. idle_inv E F (pa_workflow_instance_id a)) (sys_inv E F)"
proof (rule dhoareI)
  fix w :: world assume inv: "sys_inv E F (w_db w)"
  have dec: "decision_status dec \<noteq> Pending" by (cases dec) simp_all
  have "stmt_keeps (sys_inv E F) (approvals_decide_stmt aid (decision_status dec) c)"
    by (rule stmt_keepsI) (rule decide_sys [OF _ dec])
  then have "keeps (\<lambda>w. sys_inv E F (w_db w)) (decide E aid uid dec c)"
    unfolding decide_def approvals_decide_def by (intro keeps_intros)
  then have kept: "sys_inv E F (w_db (snd (decide E aid uid dec c w)))" using inv by (rule keepsD)
  show "post (\<lambda>a w. idle_inv E F (pa_workflow_instance_id a) (w_db w)) (\<lambda>w. sys_inv E F (w_db w))
      (fst (decide E aid uid dec c w)) (snd (decide E aid uid dec c w))"
  proof (cases "fst (decide E aid uid dec c w)")
    case (Ok a)
    then have "decide E aid uid dec c w = (Ok a, snd (decide E aid uid dec c w))" by (simp add: prod_eq_iff)
    from decide_effect [OF this] obtain old now where old: "old \<in> set (db_approvals (w_db w))"
      "pa_id old = aid" "pa_status old = Pending"
      "pa_workflow_instance_id a = pa_workflow_instance_id old"
      "w_db (snd (decide E aid uid dec c w)) =
         snd (approvals_decide_stmt (pa_id old) (decision_status dec) c now (w_db w))"
      by (auto simp: approvals_decide_stmt_def Let_def)
    show ?thesis
      using decide_idle [OF inv old(1,3) dec, of c now] Ok old by simp
  qed (use kept in auto)
qed

lemma decide_route_inv:
  assumes ff: "fault_free E"
  shows "ends_in (\<lambda>w. sys_inv E F (w_db w)) (approvals_route_decide E deps u aid dec c)
    (\<lambda>w. sys_inv E F (w_db w))"
  unfolding approvals_route_decide_def
  by (rule dhoare_ends_in [OF dhoare_map_err [OF decide_dhoare] resume_after_approval_inv [OF ff]])

section \<open>The expiry poller\<close>

lemma handle_expired_run:
  "handle_expired E deps a w = Some (q, w') \<Longrightarrow>
   \<exists>r. resume_after_approval E deps (pa_workflow_instance_id a) (pa_step_id a) Reject w = Some (r, w')"
  by (auto simp: handle_expired_def split: option.splits prod.splits res.splits)

interpretation server_expiry: expired_approval_handler handle_expired fault_free
    "\<lambda>E. sys_inv E F" "\<lambda>E a. idle_inv E F (pa_workflow_instance_id a)" for F
proof
  fix E d now w h q w' and r a :: PendingApproval
  show "sys_inv E F d \<Longrightarrow> uniq pa_id (db_approvals d)"
    by (simp add: sys_inv_def base_inv_def db_wf_def approvals_ok_def)
  show "idle_inv E F (pa_workflow_instance_id a) d \<Longrightarrow> sys_inv E F d" by (rule idle_sys)
  show "idle_inv E F (pa_workflow_instance_id a)
      (snd (approvals_decide_stmt (pa_id a) Expired (Some expiry_comment) now d))"
    if "sys_inv E F d" "r \<in> set (db_approvals d)" "pa_status r = Pending" "same_request a r"
    using decide_idle [OF that(1-3), of Expired] that(4) by (simp add: same_request_def)
  show "sys_inv E F (w_db w')"
    if "fault_free E" "idle_inv E F (pa_workflow_instance_id a) (w_db w)"
      "handle_expired E h a w = Some (q, w')"
    using handle_expired_run [OF that(3)] ends_inD [OF resume_after_approval_inv [OF that(1)] that(2)] by blast
  show "(db_step E)\<^sup>*\<^sup>* (w_db w) (w_db w')" if "handle_expired E h a w = Some (q, w')"
    using handle_expired_run [OF that] ends_inD [OF via_statements.resume_after_approval_keeps [of E "w_db w"]]
    by blast
qed

section \<open>Runs of the system\<close>

text \<open>One step: a handler that returns (normally, with an error or by a panic), or any number of
  statements of the other routes, which leave requests and approvals alone.\<close>

inductive sys_step :: "env \<Rightarrow> Deps \<Rightarrow> world \<Rightarrow> world \<Rightarrow> bool" for E :: env and deps :: Deps where
  step_start: "start_instance E deps item u w = Some (r, w') \<Longrightarrow> sys_step E deps w w'"
| step_answer: "submit_answer E deps i u k v w = Some (r, w') \<Longrightarrow> sys_step E deps w w'"
| step_decide: "approvals_route_decide E deps u a dec c w = Some (r, w') \<Longrightarrow> sys_step E deps w w'"
| step_poll: "poll_once E (handle_expired E deps) w = Some (q, w') \<Longrightarrow> sys_step E deps w w'"
| step_admin: "(db_step E)\<^sup>*\<^sup>* (w_db w) (w_db w') \<Longrightarrow> db_instances (w_db w') = db_instances (w_db w) \<Longrightarrow>
    db_approvals (w_db w') = db_approvals (w_db w) \<Longrightarrow> sys_step E deps w w'"

lemma db_step_settings: "db_step E d d' \<Longrightarrow> db_org_settings d \<noteq> None \<Longrightarrow> db_org_settings d' \<noteq> None"
  by (induction rule: db_step.induct)
    (auto simp: stmt_defs insert_if_snd Let_def split: option.split)

lemma db_steps_settings:
  "(db_step E)\<^sup>*\<^sup>* d d' \<Longrightarrow> db_org_settings d \<noteq> None \<Longrightarrow> db_org_settings d' \<noteq> None"
proof (induction rule: rtranclp_induct)
  case (step y z)
  then show ?case by (intro db_step_settings [OF step(2)]) blast
qed

lemma sys_step_inv:
  assumes "sys_step E deps w w'" "fault_free E" "sys_inv E F (w_db w)"
  shows "sys_inv E F (w_db w')"
  using assms
proof induction
  case (step_start item u w r w')
  from ends_inD [OF start_instance_inv [OF step_start(2)] step_start(3,1)] show ?case .
next
  case (step_answer i u k v w r w')
  from ends_inD [OF submit_answer_inv [OF step_answer(2)] step_answer(3,1)] show ?case .
next
  case (step_decide u a dec c w r w')
  from ends_inD [OF decide_route_inv [OF step_decide(2)] step_decide(3,1)] show ?case .
next
  case (step_poll w q w')
  from server_expiry.poll_once_inv [OF step_poll(2,3,1)] show ?case .
next
  case (step_admin w w')
  then have "db_org_settings (w_db w) \<noteq> None" by (simp add: sys_inv_def base_inv_def)
  then have settings: "db_org_settings (w_db w') \<noteq> None" by (rule db_steps_settings [OF step_admin(1)])
  from inv_other_tables(1) [OF db_steps_wf [OF step_admin(1) sys_inv_wf [OF step_admin(5)]] settings
    step_admin(2,3,5)] show ?case .
qed

lemma sys_steps_inv:
  "(sys_step E deps)\<^sup>*\<^sup>* w w' \<Longrightarrow> fault_free E \<Longrightarrow> sys_inv E F (w_db w) \<Longrightarrow> sys_inv E F (w_db w')"
  by (induction rule: rtranclp_induct) (auto intro: sys_step_inv)

text \<open>A server that has just been set up: the settings row is seeded, nobody has asked for
  anything yet.\<close>

definition set_up :: "env \<Rightarrow> db \<Rightarrow> bool" where
  "set_up E d \<longleftrightarrow> db_wf E d \<and> db_org_settings d \<noteq> None \<and> db_instances d = [] \<and> db_approvals d = []"

lemma set_up_inv: "set_up E d \<Longrightarrow> sys_inv E {} d"
  by (simp add: set_up_def sys_inv_def base_inv_def one_pending_def)

text \<open>Whatever sequence of requests, answers, decisions, expiry polls and administrative
  changes the server has processed, every pending approval belongs to a request that is
  awaiting approval and stands at exactly the step the approval was created for, and no
  request has two pending approvals.\<close>

lemma approvals_match_requests:
  assumes "fault_free E" "set_up E (w_db w0)" "(sys_step E deps)\<^sup>*\<^sup>* w0 w"
    and a: "a \<in> set (db_approvals (w_db w))" "pa_status a = Pending"
  shows "(\<exists>r \<in> set (db_instances (w_db w)). wi_id r = pa_workflow_instance_id a \<and>
      wi_status r = AwaitingApprovalStatus \<and> wi_current_step_id r = pa_step_id a) \<and>
    (\<forall>b \<in> set (db_approvals (w_db w)). pa_status b = Pending \<and>
      pa_workflow_instance_id b = pa_workflow_instance_id a \<longrightarrow> b = a)"
proof -
  have "sys_inv E {} (w_db w)"
    using sys_steps_inv [OF assms(3,1) set_up_inv [OF assms(2)]] .
  then show ?thesis
    using a by (auto simp: sys_inv_def base_inv_def awaits_def one_pending_def)
qed

text \<open>A request that has been completed, rejected, cancelled or has failed is frozen: no later
  request, answer, decision, expiry or administrative change alters any column of its row,
  and \<^verbatim>\<open>completed_at\<close> is set exactly for such requests.\<close>

lemma finished_requests_never_change:
  assumes "fault_free E" "set_up E (w_db w0)" "(sys_step E deps)\<^sup>*\<^sup>* w0 w"
    and r: "r \<in> set (db_instances (w_db w))"
  shows "(wi_completed_at r \<noteq> None \<longleftrightarrow> is_terminal (wi_status r)) \<and>
    (is_terminal (wi_status r) \<longrightarrow>
      (\<forall>w'. (sys_step E deps)\<^sup>*\<^sup>* w w' \<longrightarrow> r \<in> set (db_instances (w_db w'))))"
proof -
  have inv: "sys_inv E {} (w_db w)"
    using sys_steps_inv [OF assms(3,1) set_up_inv [OF assms(2)]] .
  have "r \<in> set (db_instances (w_db w'))"
    if "is_terminal (wi_status r)" "(sys_step E deps)\<^sup>*\<^sup>* w w'" for w'
  proof -
    have "sys_inv E {r} (w_db w)" using inv r that(1) by (simp add: sys_inv_def base_inv_def)
    from sys_steps_inv [OF that(2) assms(1) this] show ?thesis by (simp add: sys_inv_def base_inv_def)
  qed
  then show ?thesis using inv r by (auto simp: sys_inv_def base_inv_def)
qed

section \<open>Witnesses\<close>

text \<open>A freshly set up server, and a definition whose first step is the manager's approval.\<close>

definition fresh_world :: world where
  "fresh_world = sample_world\<lparr>w_db := sample_db\<lparr>db_instances := [], db_approvals := []\<rparr>\<rparr>"

definition wait_graph :: WorkflowGraph where
  "wait_graph = \<lparr>g_entry_step_id = ''approve'',
     g_steps = [\<lparr>s_id = ''approve'', s_label = ''Manager'',
                 s_kind = WaitForApproval ManagerOfRequester ''end'' ''end'' None\<rparr>,
                \<lparr>s_id = ''end'', s_label = ''Done'', s_kind = End EndCompleted\<rparr>]\<rparr>"

abbreviation E2 :: env where
  "E2 \<equiv> sample_env wait_graph []"

lemma fresh_set_up: "set_up (sample_env g m) (w_db fresh_world)"
  by (simp add: set_up_def fresh_world_def db_wf_def table_ok_defs sample_defs uniq_def uniq_opt_def
      sample_env_def)

lemma fault_free_sample: "fault_free (sample_env g m)"
  by (simp add: fault_free_def sample_env_def)

lemmas start_eval = start_instance_def start_def engine_eval wait_graph_def one_step_def world_eval
  fresh_world_def instances_create_def instances_create_stmt_def row_into_model_def
  apply_outcome.simps finish_with_def

lemma waiting_run:
  "\<exists>r w'. start_instance E2 sample_deps 4 sample_requester fresh_world = Some (Ok r, w') \<and>
     (\<exists>a. db_approvals (w_db w') = [a] \<and> pa_status a = Pending \<and> pa_workflow_instance_id a = wi_id r)"
  by (simp add: start_eval await_approval_def create_for_instance_def expiry_time_def
      approvals_create_def approvals_create_stmt_def approvals_get_by_id_def catalog_item_name_for_def
      org_settings_get_def org_settings_get_stmt_def logging_notify_def sample_deps_def)

lemma approvals_match_requests_example:
  "\<exists>r w'. start_instance E2 sample_deps 4 sample_requester fresh_world = Some (Ok r, w') \<and>
     (\<exists>a \<in> set (db_approvals (w_db w')). \<exists>r \<in> set (db_instances (w_db w')).
        wi_id r = pa_workflow_instance_id a \<and> wi_status r = AwaitingApprovalStatus \<and>
        wi_current_step_id r = pa_step_id a)"
proof -
  obtain r w' a where run: "start_instance E2 sample_deps 4 sample_requester fresh_world = Some (Ok r, w')"
    and a: "db_approvals (w_db w') = [a]" "pa_status a = Pending"
    using waiting_run by blast
  have "(sys_step E2 sample_deps)\<^sup>*\<^sup>* fresh_world w'"
    using run by (intro r_into_rtranclp step_start)
  from approvals_match_requests [OF fault_free_sample fresh_set_up this, of a] a run show ?thesis
    by auto
qed

lemma finished_requests_never_change_example:
  "\<exists>r w'. start_instance E0 sample_deps 4 sample_requester fresh_world = Some (Ok r, w') \<and>
     r \<in> set (db_instances (w_db w')) \<and> wi_status r = Completed \<and> wi_completed_at r \<noteq> None"
proof -
  have "\<exists>r w'. start_instance E0 sample_deps 4 sample_requester fresh_world = Some (Ok r, w') \<and>
      r \<in> set (db_instances (w_db w')) \<and> wi_status r = Completed"
    by (simp add: start_eval)
  then obtain r w' where run: "start_instance E0 sample_deps 4 sample_requester fresh_world = Some (Ok r, w')"
    and r: "r \<in> set (db_instances (w_db w'))" "wi_status r = Completed" by blast
  have "(sys_step E0 sample_deps)\<^sup>*\<^sup>* fresh_world w'"
    using run by (intro r_into_rtranclp step_start)
  from finished_requests_never_change [OF fault_free_sample fresh_set_up this r(1)] run r show ?thesis
    by (auto simp: is_terminal.simps)
qed

end
