(* ===== verification/Config.thy ===== *)
theory Config
  imports Approvals
begin

text \<open>
  \<^verbatim>\<open>src/crates/server/src/config.rs\<close>: the configuration the server reads from its process
  environment. \<open>vars\<close> is \<^verbatim>\<open>env::var\<close> (\<open>None\<close> for a variable that is not set or not valid
  Unicode); \<open>parse_addr\<close> is the parser of socket addresses, which the server only passes on to
  the listener.
\<close>

record SmtpConfig =
  smtp_host :: string
  smtp_port :: "16 word option"
  smtp_security :: SmtpSecurity
  smtp_username :: "string option"
  smtp_password :: "string option"
  smtp_from_address :: string
  smtp_from_name :: "string option"

record AzureSsoConfig =
  az_tenant_id :: string
  az_client_id :: string
  az_client_secret :: string
  az_redirect_uri :: string
  az_frontend_redirect_url :: string

record AppConfig =
  ac_database_url :: string
  ac_bind_addr :: string
  ac_jwt_signing_secret :: string
  ac_access_token_ttl :: "64 word"
  ac_refresh_token_ttl :: "64 word"
  ac_cors_allowed_origins :: "string list"
  ac_bootstrap_admin_email :: "string option"
  ac_bootstrap_admin_password :: "string option"
  ac_uploads_dir :: string
  ac_bootstrap_app_name :: "string option"
  ac_bootstrap_allow_local_signup :: bool
  ac_sso :: "AzureSsoConfig option"
  ac_connectors :: ConnectorsConfig
  ac_smtp :: "SmtpConfig option"
  ac_app_base_url :: "string option"

datatype config_error =
    MustBeSet string
  | InvalidBindAddr string
  | SecretTooShort
  | InvalidSmtpSecurity string

type_synonym vars = "string \<Rightarrow> string option"

text \<open>Variables that are set to the empty string count as not set.\<close>

definition env_var :: "vars \<Rightarrow> string \<Rightarrow> string option" where
  "env_var vars key = (case vars key of None \<Rightarrow> None | Some v \<Rightarrow> if v = [] then None else Some v)"

definition unwrap_or :: "'a \<Rightarrow> 'a option \<Rightarrow> 'a" where
  "unwrap_or x y = (case y of None \<Rightarrow> x | Some z \<Rightarrow> z)"

text \<open>A duration in seconds; text that is no number falls back to the default.\<close>

definition ttl_seconds :: "nat \<Rightarrow> string option \<Rightarrow> 64 word" where
  "ttl_seconds fallback v =
     of_nat (unwrap_or fallback (case v of None \<Rightarrow> None | Some s \<Rightarrow> parse_unsigned (2 ^ 64) s))"

definition cors_origins :: "string option \<Rightarrow> string list" where
  "cors_origins v = filter (\<lambda>s. s \<noteq> []) (map trim (split_on CHR '','' (unwrap_or [] v)))"

definition allow_local_signup_of :: "string option \<Rightarrow> bool" where
  "allow_local_signup_of v =
     (case v of None \<Rightarrow> False | Some s \<Rightarrow> eq_ignore_ascii_case s ''true'' \<or> s = ''1'')"

definition sso_from_env :: "vars \<Rightarrow> AzureSsoConfig option" where
  "sso_from_env vars =
     (case (env_var vars ''AZURE_TENANT_ID'', env_var vars ''AZURE_CLIENT_ID'',
            env_var vars ''AZURE_CLIENT_SECRET'', env_var vars ''AZURE_REDIRECT_URI'',
            env_var vars ''SSO_FRONTEND_REDIRECT_URL'') of
        (Some tenant_id, Some client_id, Some client_secret, Some redirect_uri, Some frontend_redirect_url) \<Rightarrow>
          Some \<lparr>az_tenant_id = tenant_id, az_client_id = client_id, az_client_secret = client_secret,
                az_redirect_uri = redirect_uri, az_frontend_redirect_url = frontend_redirect_url\<rparr>
      | _ \<Rightarrow> None)"

fun smtp_security_of :: "string option \<Rightarrow> config_error + SmtpSecurity" where
  "smtp_security_of None = Inr StartTls"
| "smtp_security_of (Some s) =
     (if s = ''starttls'' then Inr StartTls
      else if s = ''tls'' then Inr ImplicitTls
      else if s = ''none'' then Inr NoTls
      else Inl (InvalidSmtpSecurity s))"

definition smtp_from_env :: "vars \<Rightarrow> config_error + SmtpConfig option" where
  "smtp_from_env vars =
     (case (env_var vars ''SMTP_HOST'', env_var vars ''SMTP_FROM_ADDRESS'') of
        (Some host, Some from_address) \<Rightarrow>
          (case smtp_security_of (env_var vars ''SMTP_SECURITY'') of
             Inl e \<Rightarrow> Inl e
           | Inr security \<Rightarrow> Inr (Some
               \<lparr>smtp_host = host,
                smtp_port = (case vars ''SMTP_PORT'' of None \<Rightarrow> None
                  | Some v \<Rightarrow> map_option of_nat (parse_unsigned (2 ^ 16) v)),
                smtp_security = security,
                smtp_username = env_var vars ''SMTP_USERNAME'',
                smtp_password = env_var vars ''SMTP_PASSWORD'',
                smtp_from_address = from_address,
                smtp_from_name = env_var vars ''SMTP_FROM_NAME''\<rparr>))
      | _ \<Rightarrow> Inr None)"

definition connectors_from_env :: "vars \<Rightarrow> ConnectorsConfig" where
  "connectors_from_env vars =
     \<lparr>cc_webhook_url = env_var vars ''WEBHOOK_URL'',
      cc_webhook_bearer_token = env_var vars ''WEBHOOK_BEARER_TOKEN'',
      cc_jira_base_url = env_var vars ''JIRA_BASE_URL'', cc_jira_email = env_var vars ''JIRA_EMAIL'',
      cc_jira_api_token = env_var vars ''JIRA_API_TOKEN'',
      cc_glpi_base_url = env_var vars ''GLPI_BASE_URL'', cc_glpi_app_token = env_var vars ''GLPI_APP_TOKEN'',
      cc_glpi_user_token = env_var vars ''GLPI_USER_TOKEN''\<rparr>"

definition from_env :: "(string \<Rightarrow> string option) \<Rightarrow> vars \<Rightarrow> config_error + AppConfig" where
  "from_env parse_addr vars =
     (case vars ''DATABASE_URL'' of None \<Rightarrow> Inl (MustBeSet ''DATABASE_URL'') | Some database_url \<Rightarrow>
      case parse_addr (unwrap_or ''0.0.0.0:8080'' (vars ''SERVER_BIND_ADDR'')) of
        None \<Rightarrow> Inl (InvalidBindAddr (unwrap_or ''0.0.0.0:8080'' (vars ''SERVER_BIND_ADDR'')))
      | Some bind_addr \<Rightarrow>
      case vars ''JWT_SIGNING_SECRET'' of None \<Rightarrow> Inl (MustBeSet ''JWT_SIGNING_SECRET'') | Some secret \<Rightarrow>
      if length secret < 32 then Inl SecretTooShort
      else case smtp_from_env vars of Inl e \<Rightarrow> Inl e | Inr smtp \<Rightarrow>
        Inr \<lparr>ac_database_url = database_url, ac_bind_addr = bind_addr, ac_jwt_signing_secret = secret,
             ac_access_token_ttl = ttl_seconds 900 (vars ''JWT_ACCESS_TOKEN_TTL_SECONDS''),
             ac_refresh_token_ttl = ttl_seconds 1209600 (vars ''JWT_REFRESH_TOKEN_TTL_SECONDS''),
             ac_cors_allowed_origins = cors_origins (vars ''CORS_ALLOWED_ORIGINS''),
             ac_bootstrap_admin_email = env_var vars ''BOOTSTRAP_ADMIN_EMAIL'',
             ac_bootstrap_admin_password = env_var vars ''BOOTSTRAP_ADMIN_PASSWORD'',
             ac_uploads_dir = unwrap_or ''data/uploads'' (vars ''UPLOADS_DIR''),
             ac_bootstrap_app_name = env_var vars ''APP_NAME'',
             ac_bootstrap_allow_local_signup = allow_local_signup_of (vars ''ALLOW_LOCAL_SIGNUP''),
             ac_sso = sso_from_env vars, ac_connectors = connectors_from_env vars,
             ac_smtp = smtp, ac_app_base_url = env_var vars ''APP_BASE_URL''\<rparr>)"

section \<open>What a configuration promises\<close>

lemma sso_from_env_iff:
  "sso_from_env vars \<noteq> None \<longleftrightarrow>
     (\<forall>key \<in> {''AZURE_TENANT_ID'', ''AZURE_CLIENT_ID'', ''AZURE_CLIENT_SECRET'', ''AZURE_REDIRECT_URI'',
        ''SSO_FRONTEND_REDIRECT_URL''}. env_var vars key \<noteq> None)"
  by (simp add: sso_from_env_def split: option.split)

definition smtp_asked_for :: "vars \<Rightarrow> bool" where
  "smtp_asked_for vars \<longleftrightarrow>
     env_var vars ''SMTP_HOST'' \<noteq> None \<and> env_var vars ''SMTP_FROM_ADDRESS'' \<noteq> None"

definition smtp_security_valid :: "vars \<Rightarrow> bool" where
  "smtp_security_valid vars \<longleftrightarrow>
     env_var vars ''SMTP_SECURITY'' \<in> {None, Some ''starttls'', Some ''tls'', Some ''none''}"

lemma smtp_security_of_Inr:
  "(\<exists>x. smtp_security_of v = Inr x) \<longleftrightarrow> v \<in> {None, Some ''starttls'', Some ''tls'', Some ''none''}"
  by (cases v) auto

lemma smtp_from_env_iff:
  "(\<exists>x. smtp_from_env vars = Inr x) \<longleftrightarrow> (smtp_asked_for vars \<longrightarrow> smtp_security_valid vars)"
  "smtp_from_env vars = Inr x \<Longrightarrow> x \<noteq> None \<longleftrightarrow> smtp_asked_for vars"
  using smtp_security_of_Inr [of "env_var vars ''SMTP_SECURITY''"]
  by (auto simp: smtp_from_env_def smtp_asked_for_def smtp_security_valid_def
      split: option.splits sum.splits)

text \<open>The server starts exactly when it has a database, a valid listen address, a signing
  secret of at least 32 bytes and, if mail is asked for, a known SMTP security mode. The
  configuration it then runs with uses that secret, has mail exactly when a host and a sender
  are set, and has single sign-on exactly when all five of its variables are.\<close>

lemma from_env_starts_iff:
  "((\<exists>cfg. from_env parse_addr vars = Inr cfg) \<longleftrightarrow>
     vars ''DATABASE_URL'' \<noteq> None \<and>
     parse_addr (unwrap_or ''0.0.0.0:8080'' (vars ''SERVER_BIND_ADDR'')) \<noteq> None \<and>
     (\<exists>secret. vars ''JWT_SIGNING_SECRET'' = Some secret \<and> 32 \<le> length secret) \<and>
     (smtp_asked_for vars \<longrightarrow> smtp_security_valid vars)) \<and>
   (\<forall>cfg. from_env parse_addr vars = Inr cfg \<longrightarrow>
     vars ''JWT_SIGNING_SECRET'' = Some (ac_jwt_signing_secret cfg) \<and>
     (ac_smtp cfg \<noteq> None \<longleftrightarrow> smtp_asked_for vars) \<and>
     (ac_sso cfg \<noteq> None \<longleftrightarrow>
       (\<forall>key \<in> {''AZURE_TENANT_ID'', ''AZURE_CLIENT_ID'', ''AZURE_CLIENT_SECRET'', ''AZURE_REDIRECT_URI'',
          ''SSO_FRONTEND_REDIRECT_URL''}. env_var vars key \<noteq> None)))"
proof (intro conjI allI impI)
  show "(\<exists>cfg. from_env parse_addr vars = Inr cfg) \<longleftrightarrow>
     vars ''DATABASE_URL'' \<noteq> None \<and>
     parse_addr (unwrap_or ''0.0.0.0:8080'' (vars ''SERVER_BIND_ADDR'')) \<noteq> None \<and>
     (\<exists>secret. vars ''JWT_SIGNING_SECRET'' = Some secret \<and> 32 \<le> length secret) \<and>
     (smtp_asked_for vars \<longrightarrow> smtp_security_valid vars)"
    using smtp_from_env_iff(1) [of vars]
    by (auto simp: from_env_def not_less split: option.split sum.splits)
next
  fix cfg
  assume "from_env parse_addr vars = Inr cfg"
  then have smtp: "smtp_from_env vars = Inr (ac_smtp cfg)" "ac_sso cfg = sso_from_env vars"
    "vars ''JWT_SIGNING_SECRET'' = Some (ac_jwt_signing_secret cfg)"
    by (auto simp: from_env_def split: option.splits sum.splits if_splits)
  show "vars ''JWT_SIGNING_SECRET'' = Some (ac_jwt_signing_secret cfg)" by (rule smtp(3))
  show "ac_smtp cfg \<noteq> None \<longleftrightarrow> smtp_asked_for vars" by (rule smtp_from_env_iff(2) [OF smtp(1)])
  show "ac_sso cfg \<noteq> None \<longleftrightarrow>
       (\<forall>key \<in> {''AZURE_TENANT_ID'', ''AZURE_CLIENT_ID'', ''AZURE_CLIENT_SECRET'', ''AZURE_REDIRECT_URI'',
          ''SSO_FRONTEND_REDIRECT_URL''}. env_var vars key \<noteq> None)"
    unfolding smtp(2) by (rule sso_from_env_iff)
qed

section \<open>Witnesses\<close>

definition sample_vars :: vars where
  "sample_vars = [''DATABASE_URL'' \<mapsto> ''mysql://db'',
     ''JWT_SIGNING_SECRET'' \<mapsto> ''0123456789abcdef0123456789abcdef'', ''AZURE_CLIENT_ID'' \<mapsto> ''c'',
     ''CORS_ALLOWED_ORIGINS'' \<mapsto> ''https://a , '']"

lemma from_env_starts_iff_example:
  "\<exists>cfg. from_env Some sample_vars = Inr cfg \<and> ac_smtp cfg = None \<and> ac_sso cfg = None"
proof -
  have no: "env_var sample_vars ''SMTP_HOST'' = None" "env_var sample_vars ''AZURE_TENANT_ID'' = None"
    by (simp_all add: env_var_def sample_vars_def)
  have "sample_vars ''DATABASE_URL'' \<noteq> None"
    "\<exists>secret. sample_vars ''JWT_SIGNING_SECRET'' = Some secret \<and> 32 \<le> length secret"
    by (simp_all add: sample_vars_def)
  then show ?thesis
    using from_env_starts_iff [of Some sample_vars] no by (auto simp: smtp_asked_for_def)
qed

end
