(* ===== verification/Auth.thy ===== *)
theory Auth
  imports Config Orchestrator
begin

text \<open>
  \<^verbatim>\<open>src/crates/server/src/auth.rs\<close> and \<^verbatim>\<open>state.rs\<close>: passwords, access tokens, refresh tokens
  and password-reset tokens. Argon2, JSON web tokens and SHA-256 are the environment's.
  Durations that chrono cannot add make the handler panic, as \<^verbatim>\<open>unwrap\<close> and \<^verbatim>\<open>+\<close> do.

  Refresh tokens and reset tokens share one contract, the locale \<open>single_use_token\<close>: a
  \<^verbatim>\<open>SELECT\<close> of a live row and an \<^verbatim>\<open>UPDATE\<close> that spends it. Both tables interpret it, and the
  single-use properties come from it.
\<close>

text \<open>The pool and the \<^verbatim>\<open>SsoService\<close>'s maps are part of the world; what remains of the service is
  its configuration.\<close>

record AppState =
  as_config :: AppConfig
  as_connectors :: ConnectorRegistry
  as_notifier :: ApprovalNotifier
  as_mailer :: "Mailer option"
  as_uploads_dir :: string
  as_sso :: "AzureSsoConfig option"

record TokenResponse =
  tr_access_token :: string
  tr_refresh_token :: string
  tr_user :: UserProfile

section \<open>Passwords and access tokens\<close>

definition random_bytes :: "env \<Rightarrow> nat \<Rightarrow> ('e, string) act" where
  "random_bytes E n w = (Ok (env_random E n (w_tokens w)), w\<lparr>w_tokens := Suc (w_tokens w)\<rparr>)"

text \<open>\<^verbatim>\<open>SaltString::generate\<close> draws 16 bytes.\<close>

definition hash_password :: "env \<Rightarrow> string \<Rightarrow> (ApiError, string) act" where
  "hash_password E password =
     bindM (random_bytes E 16) (\<lambda>salt. ok_or Internal (env_argon2_hash E salt password))"

definition verify_password :: "env \<Rightarrow> string \<Rightarrow> string \<Rightarrow> ApiError + bool" where
  "verify_password E password hash =
     (case env_argon2_verify E password hash of None \<Rightarrow> Inl Internal | Some b \<Rightarrow> Inr b)"

definition authenticate_local :: "env \<Rightarrow> string \<Rightarrow> string \<Rightarrow> (ApiError, User) act" where
  "authenticate_local E email password =
     bindM (map_err api_of_db (users_get_by_email E email)) (\<lambda>r.
     bindM (ok_or Unauthorized r) (\<lambda>user.
     if \<not> u_is_active user then fail Unauthorized
     else case u_password_hash user of
       None \<Rightarrow> fail Unauthorized
     | Some password_hash \<Rightarrow>
         bindM (lift_sum (verify_password E password password_hash)) (\<lambda>ok.
         if \<not> ok then fail Unauthorized else return user)))"

definition issue_access_token :: "env \<Rightarrow> AppConfig \<Rightarrow> User \<Rightarrow> (ApiError, string) act" where
  "issue_access_token E config user =
     bindM (utc_now E) (\<lambda>now.
     case env_add_std E now (ac_access_token_ttl config) of
       None \<Rightarrow> panic
     | Some expires \<Rightarrow>
         ok_or Internal (env_jwt_encode E (ac_jwt_signing_secret config)
           \<lparr>cl_sub = u_id user, cl_role = u_role user, cl_exp = env_unix E expires,
            cl_iat = env_unix E now\<rparr>))"

definition verify_access_token :: "env \<Rightarrow> AppConfig \<Rightarrow> string \<Rightarrow> (ApiError, uuid \<times> Role) act" where
  "verify_access_token E config token =
     bindM (utc_now E) (\<lambda>now.
     bindM (ok_or Unauthorized (env_jwt_decode E (ac_jwt_signing_secret config) token now)) (\<lambda>claims.
     return (cl_sub claims, cl_role claims)))"

section \<open>Refresh tokens\<close>

definition create_session ::
    "env \<Rightarrow> AppConfig \<Rightarrow> uuid \<Rightarrow> string option \<Rightarrow> string option \<Rightarrow> (ApiError, string) act" where
  "create_session E config user_id user_agent ip_address =
     bindM (new_token E) (\<lambda>raw_token.
     let token_hash = env_sha256_hex E raw_token in
     bindM (utc_now E) (\<lambda>now.
     case env_add_std E now (ac_refresh_token_ttl config) of
       None \<Rightarrow> panic
     | Some expires_at \<Rightarrow>
         bindM (new_uuid E) (\<lambda>i.
         bindM (map_err api_of_db (sql E (sessions_create_stmt E i user_id token_hash user_agent
                  ip_address expires_at))) (\<lambda>_.
         return raw_token))))"

definition issue_token_pair :: "env \<Rightarrow> AppState \<Rightarrow> User \<Rightarrow> (ApiError, string \<times> string) act" where
  "issue_token_pair E state user =
     bindM (issue_access_token E (as_config state) user) (\<lambda>access_token.
     bindM (create_session E (as_config state) (u_id user) None None) (\<lambda>refresh_token.
     return (access_token, refresh_token)))"

definition redeem_refresh_token :: "env \<Rightarrow> string \<Rightarrow> (ApiError, uuid) act" where
  "redeem_refresh_token E raw_token =
     bindM (map_err api_of_db (sql E (query (sessions_find_live E (env_sha256_hex E raw_token))))) (\<lambda>row.
     bindM (ok_or Unauthorized row) (\<lambda>(session_id, user_id).
     bindM (map_err api_of_db (sql E (sessions_revoke_stmt session_id))) (\<lambda>_.
     return user_id)))"

definition revoke_all_sessions :: "env \<Rightarrow> uuid \<Rightarrow> (ApiError, unit) act" where
  "revoke_all_sessions E user_id = map_err api_of_db (sql E (sessions_revoke_all_stmt user_id))"

section \<open>Password resets\<close>

definition PASSWORD_RESET_TTL_MINUTES :: i64 where
  "PASSWORD_RESET_TTL_MINUTES = 30"

definition create_password_reset_token :: "env \<Rightarrow> uuid \<Rightarrow> (ApiError, string) act" where
  "create_password_reset_token E user_id =
     bindM (new_token E) (\<lambda>raw_token.
     let token_hash = env_sha256_hex E raw_token in
     bindM (utc_now E) (\<lambda>now.
     case env_add_seconds E now (PASSWORD_RESET_TTL_MINUTES * 60) of
       None \<Rightarrow> panic
     | Some expires_at \<Rightarrow>
         bindM (new_uuid E) (\<lambda>i.
         bindM (map_err api_of_db (sql E (password_resets_create_stmt E i user_id token_hash
                  expires_at))) (\<lambda>_.
         return raw_token))))"

definition reset_mail_body :: "Mailer \<Rightarrow> string \<Rightarrow> string" where
  "reset_mail_body mailer token =
     (let link = trim_end_slashes (unwrap_or [] (mailer_app_base_url mailer)) @
            ''/reset-password?token='' @ token
      in ''A password reset was requested for your account.'' @ newline @ newline @
         ''If this was you, set a new password here (valid for '' @
         int_to_string (sint PASSWORD_RESET_TTL_MINUTES) @ '' minutes):'' @ newline @
         link @ newline @ newline @
         ''If you didn'' @ tick @ ''t request this, you can safely ignore this email -- your password hasn'' @
         tick @ ''t been changed.'' @ newline)"

definition send_password_reset_email :: "env \<Rightarrow> Mailer \<Rightarrow> string \<Rightarrow> (ApiError, unit) act" where
  "send_password_reset_email E mailer email =
     bindM (map_err api_of_db (users_get_by_email E email)) (\<lambda>r.
     case r of
       None \<Rightarrow> return ()
     | Some user \<Rightarrow>
         if \<not> u_is_active user \<or> u_password_hash user = None then return ()
         else
           bindM (create_password_reset_token E (u_id user)) (\<lambda>token.
           bindM (try_io (send_plain_text E mailer (u_email user) ''Reset your password''
                    (reset_mail_body mailer token))) (\<lambda>_.
           return ())))"

definition reset_link_invalid :: ApiError where
  "reset_link_invalid = BadRequest ''this password reset link is invalid or has expired''"

definition redeem_password_reset_token :: "env \<Rightarrow> string \<Rightarrow> (ApiError, uuid) act" where
  "redeem_password_reset_token E raw_token =
     bindM (map_err api_of_db
              (sql E (query (password_resets_find_live E (env_sha256_hex E raw_token))))) (\<lambda>row.
     bindM (ok_or reset_link_invalid row) (\<lambda>(reset_id, user_id).
     bindM (map_err api_of_db (sql E (password_resets_use_stmt reset_id))) (\<lambda>_.
     return user_id)))"

section \<open>The authenticated user\<close>

definition require_role :: "User \<Rightarrow> Role list \<Rightarrow> (ApiError, unit) act" where
  "require_role user allowed = guardM (u_role user \<in> set allowed) Forbidden"

text \<open>\<^verbatim>\<open>Option::filter\<close> on the account's activity.\<close>

definition active_user :: "User option \<Rightarrow> User option" where
  "active_user r = (case r of None \<Rightarrow> None | Some u \<Rightarrow> if u_is_active u then Some u else None)"

text \<open>The extractor: \<open>bearer\<close> is the token of the \<^verbatim>\<open>Authorization\<close> header, \<open>None\<close> when the header
  is missing or malformed.\<close>

definition from_request_parts :: "env \<Rightarrow> AppState \<Rightarrow> string option \<Rightarrow> (ApiError, User) act" where
  "from_request_parts E state bearer =
     bindM (ok_or Unauthorized bearer) (\<lambda>token.
     bindM (verify_access_token E (as_config state) token) (\<lambda>(user_id, _).
     bindM (map_err api_of_db (users_get_by_id E user_id)) (\<lambda>r.
     ok_or Unauthorized (active_user r))))"

lemmas auth_op_defs = hash_password_def authenticate_local_def issue_access_token_def
  verify_access_token_def create_session_def issue_token_pair_def redeem_refresh_token_def
  revoke_all_sessions_def create_password_reset_token_def send_password_reset_email_def
  redeem_password_reset_token_def require_role_def from_request_parts_def send_plain_text_def

lemma db_unchangedI: "(\<And>d. keeps (\<lambda>w. w_db w = d) m) \<Longrightarrow> w_db (snd (m w)) = w_db w"
  by (drule meta_spec [of _ "w_db w"], drule keepsD) simp_all

lemma keeps_random_bytes [keeps_intros]: "keeps (\<lambda>w. I (w_db w)) (random_bytes E n)"
  by (simp add: keeps_def random_bytes_def)

text \<open>Reading who the caller is never changes the database; the other operations act through
  the statements of \<open>db_step\<close>.\<close>

lemma auth_reads_keep [keeps_intros]:
  "keeps (\<lambda>w. I (w_db w)) (hash_password E pw)"
  "keeps (\<lambda>w. I (w_db w)) (authenticate_local E email pw)"
  "keeps (\<lambda>w. I (w_db w)) (issue_access_token E config user)"
  "keeps (\<lambda>w. I (w_db w)) (verify_access_token E config token)"
  "keeps (\<lambda>w. I (w_db w)) (require_role user roles)"
  "keeps (\<lambda>w. I (w_db w)) (from_request_parts E state bearer)"
  unfolding auth_op_defs by (intro keeps_intros)+

lemma auth_via_steps [keeps_intros]:
  fixes E :: env and d0 :: db
  defines "I \<equiv> \<lambda>w. (db_step E)\<^sup>*\<^sup>* d0 (w_db w)"
  shows "keeps I (create_session E config i ua ip)" "keeps I (issue_token_pair E state user)"
    "keeps I (redeem_refresh_token E tok)" "keeps I (revoke_all_sessions E i)"
    "keeps I (create_password_reset_token E i)" "keeps I (send_password_reset_email E mailer email)"
    "keeps I (redeem_password_reset_token E tok)"
  unfolding I_def auth_op_defs by (intro keeps_intros stmt_intros)+

section \<open>Tokens that can be redeemed once\<close>

text \<open>What the statements do to the two token tables: rows are appended live and only ever
  stamped as spent.\<close>

lemma db_step_sessions:
  "db_step E d d' \<Longrightarrow> db_sessions d' = db_sessions d \<or> (\<exists>r. db_sessions d' = db_sessions d @ [r]) \<or>
     (\<exists>P now. db_sessions d' = update_rows P (\<lambda>r. r\<lparr>ss_revoked_at := Some now\<rparr>) (db_sessions d))"
  by (induction rule: db_step.induct)
    (simp_all add: stmt_defs insert_if_snd Let_def split: option.split, blast+)

lemma db_step_password_resets:
  "db_step E d d' \<Longrightarrow> db_password_resets d' = db_password_resets d \<or>
     (\<exists>r. db_password_resets d' = db_password_resets d @ [r]) \<or>
     (\<exists>P now. db_password_resets d' =
        update_rows P (\<lambda>r. r\<lparr>pr_used_at := Some now\<rparr>) (db_password_resets d))"
  by (induction rule: db_step.induct)
    (simp_all add: stmt_defs insert_if_snd Let_def split: option.split, blast+)

definition session_spent :: "env \<Rightarrow> string \<Rightarrow> db \<Rightarrow> bool" where
  "session_spent E token_hash d \<longleftrightarrow> (\<exists>r \<in> set (db_sessions d).
     same_text E (ss_refresh_token_hash r) token_hash \<and> ss_revoked_at r \<noteq> None)"

definition reset_spent :: "env \<Rightarrow> string \<Rightarrow> db \<Rightarrow> bool" where
  "reset_spent E token_hash d \<longleftrightarrow> (\<exists>r \<in> set (db_password_resets d).
     same_text E (pr_token_hash r) token_hash \<and> pr_used_at r \<noteq> None)"

locale single_use_token =
  fixes E :: env
    and find_live :: "string \<Rightarrow> timestamp \<Rightarrow> db \<Rightarrow> (uuid \<times> uuid) option"
    and spend :: "uuid \<Rightarrow> unit stmt"
    and spent :: "string \<Rightarrow> db \<Rightarrow> bool"
    and refused :: ApiError
    and redeem :: "string \<Rightarrow> (ApiError, uuid) act"
  assumes redeem_eq: "redeem raw_token =
      bindM (map_err api_of_db (sql E (query (find_live (env_sha256_hex E raw_token))))) (\<lambda>row.
      bindM (ok_or refused row) (\<lambda>(i, user_id).
      bindM (map_err api_of_db (sql E (spend i))) (\<lambda>_. return user_id)))"
    and spend_spends: "db_wf E d \<Longrightarrow> find_live h now d = Some (i, u) \<Longrightarrow>
      spend i now' d = (Inr (), d') \<Longrightarrow> spent h d'"
    and spent_not_live: "db_wf E d \<Longrightarrow> spent h d \<Longrightarrow> find_live h now d = None"
    and spent_step: "db_step E d d' \<Longrightarrow> spent h d \<Longrightarrow> spent h d'"
begin

lemma spent_steps: "(db_step E)\<^sup>*\<^sup>* d d' \<Longrightarrow> spent h d \<Longrightarrow> spent h d'"
  by (induction rule: rtranclp_induct) (auto intro: spent_step)

lemma redeem_spends:
  assumes "db_wf E (w_db w)" "redeem raw_token w = (Ok u, w')"
  shows "spent (env_sha256_hex E raw_token) (w_db w')"
  using assms unfolding redeem_eq
  by (auto elim!: bindM_OkE sql_OkE dest!: ok_or_OkD simp: query_def) (metis spend_spends)

lemma redeem_refused:
  assumes "db_wf E (w_db w)" "spent (env_sha256_hex E raw_token) (w_db w)"
  shows "fst (redeem raw_token w) \<in> {Err refused, Err Internal}" "w_db (snd (redeem raw_token w)) = w_db w"
proof -
  have "find_live (env_sha256_hex E raw_token) (env_time E (w_io w)) (w_db w) = None"
    using assms by (rule spent_not_live)
  then show "fst (redeem raw_token w) \<in> {Err refused, Err Internal}"
    "w_db (snd (redeem raw_token w)) = w_db w"
    by (cases "env_fault E (w_io w)";
        simp add: redeem_eq bindM_apply map_err_apply sql_def query_def Let_def)+
qed

lemma redeemed_once:
  assumes "db_wf E (w_db w)" "redeem raw_token w = (Ok u, w1)" "(db_step E)\<^sup>*\<^sup>* (w_db w) (w_db w1)"
    and "(db_step E)\<^sup>*\<^sup>* (w_db w1) (w_db w2)"
  shows "fst (redeem raw_token w2) \<in> {Err refused, Err Internal}"
    "w_db (snd (redeem raw_token w2)) = w_db w2"
proof -
  have "db_wf E (w_db w2)" using assms(1,3,4) by (blast intro: db_steps_wf)
  moreover have "spent (env_sha256_hex E raw_token) (w_db w2)"
    using redeem_spends [OF assms(1,2)] assms(4) by (blast intro: spent_steps)
  ultimately show "fst (redeem raw_token w2) \<in> {Err refused, Err Internal}"
    "w_db (snd (redeem raw_token w2)) = w_db w2"
    by (rule redeem_refused)+
qed

end

lemma same_text_refl [simp]: "same_text E a a"
  by (simp add: same_text_def)

lemma bex_update_rows:
  "(\<exists>r \<in> set (update_rows P f t). Q r) \<longleftrightarrow> (\<exists>r \<in> set t. if P r then Q (f r) else Q r)"
  by (auto simp: set_update_rows)

text \<open>In a table with unique hashes one spent row means no live one.\<close>

lemma find_row_spent:
  assumes "uniq (\<lambda>r. env_collate E (hash r)) t" "r \<in> set t" "same_text E (hash r) h" "\<not> live r"
  shows "find_row (\<lambda>r. same_text E (hash r) h \<and> live r) t = None"
  using assms by (auto simp: find_row_None_iff same_text_def dest: uniq_eqD)

interpretation refresh: single_use_token E "sessions_find_live E" sessions_revoke_stmt
  "session_spent E" Unauthorized "redeem_refresh_token E"
proof
  fix d d' h now now' i u
  show "sessions_find_live E h now d = None" if "db_wf E d" "session_spent E h d"
    using that find_row_spent [of E ss_refresh_token_hash "db_sessions d" _ h
        "\<lambda>r. ss_revoked_at r = None \<and> now < ss_expires_at r"]
    by (auto simp: session_spent_def db_wf_def sessions_ok_def sessions_find_live_def)
  show "session_spent E h d'" if "sessions_find_live E h now d = Some (i, u)"
    "sessions_revoke_stmt i now' d = (Inr (), d')"
    using that by (auto simp: session_spent_def sessions_find_live_def sessions_revoke_stmt_def
        bex_update_rows dest!: find_row_SomeD)
  show "session_spent E h d'" if "db_step E d d'" "session_spent E h d"
    using that(2) db_step_sessions [OF that(1)]
    by (elim disjE exE) (auto simp: session_spent_def bex_update_rows)
qed (simp add: redeem_refresh_token_def)

interpretation reset: single_use_token E "password_resets_find_live E" password_resets_use_stmt
  "reset_spent E" reset_link_invalid "redeem_password_reset_token E"
proof
  fix d d' h now now' i u
  show "password_resets_find_live E h now d = None" if "db_wf E d" "reset_spent E h d"
    using that find_row_spent [of E pr_token_hash "db_password_resets d" _ h
        "\<lambda>r. pr_used_at r = None \<and> now < pr_expires_at r"]
    by (auto simp: reset_spent_def db_wf_def password_resets_ok_def password_resets_find_live_def)
  show "reset_spent E h d'" if "password_resets_find_live E h now d = Some (i, u)"
    "password_resets_use_stmt i now' d = (Inr (), d')"
    using that by (auto simp: reset_spent_def password_resets_find_live_def
        password_resets_use_stmt_def bex_update_rows dest!: find_row_SomeD)
  show "reset_spent E h d'" if "db_step E d d'" "reset_spent E h d"
    using that(2) db_step_password_resets [OF that(1)]
    by (elim disjE exE) (auto simp: reset_spent_def bex_update_rows)
qed (simp add: redeem_password_reset_token_def)

text \<open>C20: a refresh token is redeemed at most once: after one successful redemption, whatever
  statements the server sends in between, redeeming it again is refused with status 401 (or
  500 when the database fails) and changes nothing.\<close>

theorem refresh_token_single_use:
  assumes "db_wf E (w_db w)" "redeem_refresh_token E raw_token w = (Ok u, w1)"
    and "(db_step E)\<^sup>*\<^sup>* (w_db w1) (w_db w2)"
  shows "fst (redeem_refresh_token E raw_token w2) \<in> {Err Unauthorized, Err Internal} \<and>
    w_db (snd (redeem_refresh_token E raw_token w2)) = w_db w2"
proof -
  have "(db_step E)\<^sup>*\<^sup>* (w_db w) (w_db w1)"
    using via_stepsD [of E "redeem_refresh_token E raw_token" w] assms(2) by (simp add: keeps_intros)
  then show ?thesis using refresh.redeemed_once [OF assms(1,2) _ assms(3)] by blast
qed

text \<open>A password-reset link works at most once: after one successful redemption, whatever
  statements the server sends in between, the same token is refused with status 400 (or 500
  when the database fails) and changes nothing.\<close>

lemma reset_token_single_use:
  assumes "db_wf E (w_db w)" "redeem_password_reset_token E raw_token w = (Ok u, w1)"
    and "(db_step E)\<^sup>*\<^sup>* (w_db w1) (w_db w2)"
  shows "fst (redeem_password_reset_token E raw_token w2) \<in> {Err reset_link_invalid, Err Internal} \<and>
    w_db (snd (redeem_password_reset_token E raw_token w2)) = w_db w2"
proof -
  have "(db_step E)\<^sup>*\<^sup>* (w_db w) (w_db w1)"
    using via_stepsD [of E "redeem_password_reset_token E raw_token" w] assms(2)
    by (simp add: keeps_intros)
  then show ?thesis using reset.redeemed_once [OF assms(1,2) _ assms(3)] by blast
qed

section \<open>What issued tokens and passwords are good for\<close>

lemma create_session_OkE:
  assumes "create_session E config user_id ua ip w = (Ok raw_token, w')"
  obtains expires_at i where
    "env_add_std E (env_time E (w_io w)) (ac_refresh_token_ttl config) = Some expires_at"
    "i \<notin> ss_id ` set (db_sessions (w_db w))"
    "env_collate E (env_sha256_hex E raw_token) \<notin>
       (\<lambda>r. env_collate E (ss_refresh_token_hash r)) ` set (db_sessions (w_db w))"
    "db_sessions (w_db w') = db_sessions (w_db w) @
       [\<lparr>ss_id = i, ss_user_id = user_id, ss_refresh_token_hash = env_sha256_hex E raw_token,
         ss_user_agent = ua, ss_ip_address = ip, ss_expires_at = expires_at,
         ss_revoked_at = None, ss_created_at = env_time E (w_io w)\<rparr>]"
  using assms unfolding create_session_def
  by (auto elim!: bindM_OkE sql_OkE simp: new_token_def new_uuid_def Let_def
      sessions_create_stmt_def insert_if_def split: option.splits if_splits)

text \<open>A refresh token that \<^verbatim>\<open>create_session\<close> issued, presented before it expires and before
  anything else touched its row, redeems to the user it was issued for; right after that it
  no longer redeems.\<close>

lemma issued_token_redeems:
  assumes "fault_free E" "db_wf E (w_db w)"
    and "create_session E config user_id ua ip w = (Ok raw_token, w1)"
    and "db_sessions (w_db w2) = db_sessions (w_db w1)"
    and "env_add_std E (env_time E (w_io w)) (ac_refresh_token_ttl config) = Some expires_at"
    and "env_time E (w_io w2) < expires_at"
  shows "\<exists>w3. redeem_refresh_token E raw_token w2 = (Ok user_id, w3) \<and>
    fst (redeem_refresh_token E raw_token w3) = Err Unauthorized"
proof -
  let ?h = "env_sha256_hex E raw_token"
  obtain i c where
    row: "db_sessions (w_db w2) = db_sessions (w_db w) @
       [\<lparr>ss_id = i, ss_user_id = user_id, ss_refresh_token_hash = ?h,
         ss_user_agent = ua, ss_ip_address = ip, ss_expires_at = expires_at,
         ss_revoked_at = None, ss_created_at = c\<rparr>]"
    and fresh: "env_collate E ?h \<notin>
       (\<lambda>r. env_collate E (ss_refresh_token_hash r)) ` set (db_sessions (w_db w))"
    by (rule create_session_OkE [OF assms(3)]) (use assms(4,5) in auto)
  have no: "find_row (\<lambda>r. same_text E (ss_refresh_token_hash r) ?h \<and> P r) (db_sessions (w_db w)) = None" for P
    using fresh by (auto simp: find_row_None_iff same_text_def image_iff)
  have live: "sessions_find_live E ?h (env_time E (w_io w2)) (w_db w2) = Some (i, user_id)"
    using assms(6) by (simp add: sessions_find_live_def row find_row_append no)
  define w3 where "w3 = w2\<lparr>w_io := Suc (Suc (w_io w2)),
    w_db := snd (sessions_revoke_stmt i (env_time E (Suc (w_io w2))) (w_db w2))\<rparr>"
  have "redeem_refresh_token E raw_token w2 = (Ok user_id, w3)"
    using live by (simp add: redeem_refresh_token_def io_simps sql_fault_free [OF assms(1)] query_def
        sessions_revoke_stmt_def w3_def)
  moreover have "sessions_find_live E ?h (env_time E (w_io w3)) (w_db w3) = None"
    using fresh by (auto simp: w3_def sessions_find_live_def sessions_revoke_stmt_def row
        find_row_None_iff set_update_rows same_text_def image_iff)
  then have "fst (redeem_refresh_token E raw_token w3) = Err Unauthorized"
    by (simp add: redeem_refresh_token_def io_simps sql_fault_free [OF assms(1)] query_def)
  ultimately show ?thesis by blast
qed

lemma uniq_find_by_email:
  assumes "db_wf E d" "u \<in> set (db_users d)" "same_text E (u_email u) email"
  shows "find_row (\<lambda>r. same_text E (u_email r) email) (db_users d) = Some u"
  using assms uniq_find_row [of "\<lambda>r. env_collate E (u_email r)" "db_users d" u]
  by (simp add: db_wf_def users_ok_def same_text_def)

text \<open>C21: local sign-in. While the database answers (when it fails, the answer is 500), and with
  stored hashes that parse, an email and a password sign in exactly
  the active user whose email it is (as the database compares text) and whose stored hash the
  password verifies; every other combination (unknown email, no local password, deactivated,
  wrong password) gets the same answer, status 401. The database is not changed.\<close>

theorem authenticate_local_iff:
  assumes "fault_free E" "db_wf E (w_db w)"
    and "\<And>u h. u \<in> set (db_users (w_db w)) \<Longrightarrow> u_password_hash u = Some h \<Longrightarrow>
      env_argon2_verify E password h \<noteq> None"
  shows "(fst (authenticate_local E email password w) = Ok u \<longleftrightarrow>
      u \<in> set (db_users (w_db w)) \<and> same_text E (u_email u) email \<and> u_is_active u \<and>
      (\<exists>h. u_password_hash u = Some h \<and> env_argon2_verify E password h = Some True)) \<and>
    (fst (authenticate_local E email password w) = Err Unauthorized \<or>
     (\<exists>v. fst (authenticate_local E email password w) = Ok v)) \<and>
    w_db (snd (authenticate_local E email password w)) = w_db w"
proof -
  let ?found = "find_row (\<lambda>r. same_text E (u_email r) email) (db_users (w_db w))"
  let ?good = "\<lambda>v. u_is_active v \<and>
    (\<exists>h. u_password_hash v = Some h \<and> env_argon2_verify E password h = Some True)"
  have run: "fst (authenticate_local E email password w) =
      (case ?found of None \<Rightarrow> Err Unauthorized | Some v \<Rightarrow> if ?good v then Ok v else Err Unauthorized)"
    using assms(3)
    by (auto simp: authenticate_local_def users_get_by_email_def io_simps sql_fault_free [OF assms(1)]
        query_def verify_password_def split: option.split dest!: find_row_SomeD)
      (metis option.distinct(1))
  have "?found = Some u \<longleftrightarrow> u \<in> set (db_users (w_db w)) \<and> same_text E (u_email u) email"
    using uniq_find_by_email [OF assms(2)] by (auto dest: find_row_SomeD)
  with run have "fst (authenticate_local E email password w) = Ok u \<longleftrightarrow>
      u \<in> set (db_users (w_db w)) \<and> same_text E (u_email u) email \<and> ?good u"
    by (auto split: option.splits if_splits)
  moreover have "fst (authenticate_local E email password w) = Err Unauthorized \<or>
     (\<exists>v. fst (authenticate_local E email password w) = Ok v)"
    by (simp add: run split: option.split)
  moreover have "w_db (snd (authenticate_local E email password w)) = w_db w"
    by (rule db_unchangedI) (rule auth_reads_keep)
  ultimately show ?thesis by blast
qed

section \<open>Witnesses\<close>

definition sample_app_config :: AppConfig where
  "sample_app_config =
     \<lparr>ac_database_url = ''mysql://db'', ac_bind_addr = ''0.0.0.0:8080'',
      ac_jwt_signing_secret = ''s'', ac_access_token_ttl = 900, ac_refresh_token_ttl = 1209600,
      ac_cors_allowed_origins = [], ac_bootstrap_admin_email = None, ac_bootstrap_admin_password = None,
      ac_uploads_dir = ''up'', ac_bootstrap_app_name = None, ac_bootstrap_allow_local_signup = False,
      ac_sso = None, ac_connectors = connectors_from_env Map.empty, ac_smtp = None,
      ac_app_base_url = None\<rparr>"

definition sample_session :: session_row where
  "sample_session = \<lparr>ss_id = 8, ss_user_id = 2, ss_refresh_token_hash = ''ht'', ss_user_agent = None,
     ss_ip_address = None, ss_expires_at = 100, ss_revoked_at = None, ss_created_at = 0\<rparr>"

definition sample_reset :: password_reset_row where
  "sample_reset = \<lparr>pr_id = 9, pr_user_id = 1, pr_token_hash = ''ht'', pr_expires_at = 100,
     pr_used_at = None, pr_created_at = 0\<rparr>"

definition token_world :: world where
  "token_world = sample_world\<lparr>w_db := sample_db\<lparr>db_sessions := [sample_session],
     db_password_resets := [sample_reset]\<rparr>\<rparr>"

lemma token_world_wf: "db_wf E0 (w_db token_world)"
  by (simp add: token_world_def db_wf_def table_ok_defs sample_defs uniq_def uniq_opt_def
      sample_env_def sample_session_def sample_reset_def)

lemma sample_env_fault_free: "fault_free (sample_env g m)"
  by (simp add: fault_free_def sample_env_def)

lemmas token_eval = token_world_def sample_world_def sample_db_def sample_session_def sample_reset_def
  io_simps sql_def query_def sample_env_def

theorem refresh_token_single_use_witness:
  "\<exists>w1. redeem_refresh_token E0 ''t'' token_world = (Ok 2, w1) \<and>
     fst (redeem_refresh_token E0 ''t'' w1) \<in> {Err Unauthorized, Err Internal} \<and>
     w_db (snd (redeem_refresh_token E0 ''t'' w1)) = w_db w1"
proof -
  obtain w1 where ok: "redeem_refresh_token E0 ''t'' token_world = (Ok 2, w1)"
    by (simp add: redeem_refresh_token_def sessions_find_live_def sessions_revoke_stmt_def
        same_text_def token_eval)
  show ?thesis using refresh_token_single_use [OF token_world_wf ok] ok by blast
qed

lemma reset_token_single_use_example:
  "\<exists>w1. redeem_password_reset_token E0 ''t'' token_world = (Ok 1, w1) \<and>
     fst (redeem_password_reset_token E0 ''t'' w1) \<in> {Err reset_link_invalid, Err Internal} \<and>
     w_db (snd (redeem_password_reset_token E0 ''t'' w1)) = w_db w1"
proof -
  obtain w1 where ok: "redeem_password_reset_token E0 ''t'' token_world = (Ok 1, w1)"
    by (simp add: redeem_password_reset_token_def password_resets_find_live_def
        password_resets_use_stmt_def same_text_def token_eval)
  show ?thesis using reset_token_single_use [OF token_world_wf ok] ok by blast
qed

lemma issued_token_redeems_example:
  "\<exists>w1 w3. create_session E0 sample_app_config 2 None None sample_world = (Ok ''0'', w1) \<and>
     redeem_refresh_token E0 ''0'' w1 = (Ok 2, w3) \<and>
     fst (redeem_refresh_token E0 ''0'' w3) = Err Unauthorized"
proof -
  obtain w1 where ok: "create_session E0 sample_app_config 2 None None sample_world = (Ok ''0'', w1)"
      and io: "w_io w1 = 11"
    by (simp add: create_session_def new_token_def new_uuid_def sessions_create_stmt_def insert_if_def
        sample_app_config_def sample_defs token_eval nat_to_string.simps char_of_def bit_0)
  have wf: "db_wf E0 (w_db sample_world)" using sample_db_wf by (simp add: sample_world_def)
  have "env_add_std E0 (env_time E0 (w_io sample_world)) (ac_refresh_token_ttl sample_app_config) =
      Some 1209610" "env_time E0 (w_io w1) < 1209610"
    by (simp_all add: sample_env_def sample_world_def sample_app_config_def io)
  then show ?thesis
    using issued_token_redeems [OF sample_env_fault_free wf ok refl] ok by blast
qed

theorem authenticate_local_iff_witness:
  "fst (authenticate_local E0 ''m@x'' ''pw'' sample_world) = Ok sample_manager \<and>
   fst (authenticate_local E0 ''m@x'' ''no'' sample_world) = Err Unauthorized"
proof -
  have wf: "db_wf E0 (w_db sample_world)" using sample_db_wf by (simp add: sample_world_def)
  have hashes: "env_argon2_verify E0 p h \<noteq> None" for p h by (simp add: sample_env_def)
  have "fst (authenticate_local E0 ''m@x'' ''pw'' sample_world) = Ok sample_manager"
    using authenticate_local_iff [OF sample_env_fault_free wf hashes, of "''m@x''" "''pw''" sample_manager]
    by (simp add: sample_world_def sample_defs sample_env_def)
  moreover have "fst (authenticate_local E0 ''m@x'' ''no'' sample_world) \<noteq> Ok u" for u
    using authenticate_local_iff [OF sample_env_fault_free wf hashes, of "''m@x''" "''no''" u]
    by (auto simp: sample_world_def sample_defs sample_env_def)
  then have "fst (authenticate_local E0 ''m@x'' ''no'' sample_world) = Err Unauthorized"
    using authenticate_local_iff [OF sample_env_fault_free wf hashes, of "''m@x''" "''no''"] by blast
  ultimately show ?thesis by blast
qed

end
