(* ===== verification/Catalog_Seed.thy ===== *)
theory Catalog_Seed
  imports Auth
begin

text \<open>
  \<^verbatim>\<open>src/crates/server/src/catalog_seed.rs\<close>: the starter catalog. The seed file is data, so the
  items it parses to are an argument (a file that does not parse panics at start-up).

  Shown: every graph the patterns build is valid and leads only forward, so that every
  request on it ends; loading the catalog twice adds nothing the second time, whatever
  happened to the catalog in between.
\<close>

datatype WorkflowPattern =
    SimpleTicket
  | ManagerApprovalTicket
  | SecurityApprovalTicket
  | FinanceApprovalTicket
  | InfoOnly

record SeedOption =
  so_value :: string
  so_label :: string

record SeedQuestion =
  sq_field_key :: string
  sq_label :: string
  sq_input_type :: InputType
  sq_required :: bool
  sq_options :: "SeedOption list"

record SeedItem =
  si_slug :: string
  si_name :: string
  si_category :: string
  si_icon :: string
  si_summary :: string
  si_description :: string
  si_included :: "string list"
  si_not_included :: "string list"
  si_needed :: "string list"
  si_keywords :: "string list"
  si_approval_label :: string
  si_workflow_pattern :: WorkflowPattern
  si_target_value :: i32
  si_target_unit :: TargetUnit
  si_published :: bool
  si_questions :: "SeedQuestion list"

record SeedSummary =
  sm_added :: nat
  sm_skipped :: nat
  sm_skipped_names :: "string list"

section \<open>Graphs\<close>

fun end_label :: "EndOutcome \<Rightarrow> string" where
  "end_label EndCompleted = ''Request completed''"
| "end_label EndRejected = ''Request not approved''"
| "end_label EndCancelled = ''Request cancelled''"

definition end_step :: "string \<Rightarrow> EndOutcome \<Rightarrow> Step" where
  "end_step i outcome = \<lparr>s_id = i, s_label = end_label outcome, s_kind = End outcome\<rparr>"

definition push_submit_and_ends :: "Step list \<Rightarrow> string \<Rightarrow> string \<Rightarrow> string option \<Rightarrow> Step list" where
  "push_submit_and_ends steps submit_id completed_id rejected_id =
     steps @ [\<lparr>s_id = submit_id, s_label = ''Submit ticket'', s_kind = SubmitTicket completed_id\<rparr>,
       end_step completed_id EndCompleted] @
     (case rejected_id of
        None \<Rightarrow> []
      | Some r \<Rightarrow> [\<lparr>s_id = r, s_label = ''Request not approved'', s_kind = End EndRejected\<rparr>])"

definition question_id :: "nat \<Rightarrow> string" where
  "question_id n = ''q'' @ nat_to_string n"

text \<open>The loop over the questions, from index \<open>i\<close> on.\<close>

fun question_steps :: "nat \<Rightarrow> SeedQuestion list \<Rightarrow> string \<Rightarrow> Step list" where
  "question_steps i [] next_after = []"
| "question_steps i (q # qs) next_after =
     \<lparr>s_id = question_id (i + 1), s_label = sq_label q,
      s_kind = Question (sq_field_key q) (sq_input_type q) (sq_required q)
        (map (\<lambda>opt. \<lparr>qo_value = so_value opt, qo_label = so_label opt\<rparr>) (sq_options q))
        (if qs \<noteq> [] then question_id (i + 2) else next_after)\<rparr>
     # question_steps (i + 1) qs next_after"

definition append_questions :: "Step list \<Rightarrow> SeedQuestion list \<Rightarrow> string \<Rightarrow> Step list" where
  "append_questions steps questions next_after = steps @ question_steps 0 questions next_after"

definition approval_step :: "string \<Rightarrow> string \<Rightarrow> ApproverResolution \<Rightarrow> string \<Rightarrow> Step" where
  "approval_step i label resolution on_approve =
     \<lparr>s_id = i, s_label = label, s_kind = WaitForApproval resolution on_approve ''end_rejected'' None\<rparr>"

definition placeholder_label :: "string \<Rightarrow> string \<Rightarrow> string" where
  "placeholder_label kind team =
     kind @ '' approval (placeholder: routes to any '' @ quote @ ''Approver'' @ quote @
     ''-role user in the requester'' @ tick @ ''s department -- reassign this step once your organization'' @
     tick @ ''s real '' @ team @ '' approver/team is set up)''"

fun pattern_steps :: "WorkflowPattern \<Rightarrow> SeedQuestion list \<Rightarrow> Step list" where
  "pattern_steps SimpleTicket questions =
     push_submit_and_ends (append_questions [] questions ''submit'') ''submit'' ''end_completed'' None"
| "pattern_steps InfoOnly questions =
     append_questions [] questions ''end_completed'' @ [end_step ''end_completed'' EndCompleted]"
| "pattern_steps ManagerApprovalTicket questions =
     push_submit_and_ends
       (append_questions [] questions ''manager_approval'' @
        [approval_step ''manager_approval'' ''Manager approval'' ManagerOfRequester ''submit''])
       ''submit'' ''end_completed'' (Some ''end_rejected'')"
| "pattern_steps pattern questions =
     (let (second_id, second_label) =
            (case pattern of
               SecurityApprovalTicket \<Rightarrow> (''security_approval'', placeholder_label ''Security'' ''security'')
             | _ \<Rightarrow> (''finance_approval'', placeholder_label ''Finance'' ''finance''))
      in push_submit_and_ends
           (append_questions [] questions ''manager_approval'' @
            [approval_step ''manager_approval'' ''Manager approval'' ManagerOfRequester second_id,
             approval_step second_id second_label (RoleInDepartment Approver) ''submit''])
           ''submit'' ''end_completed'' (Some ''end_rejected''))"

text \<open>\<open>None\<close> is the panic of \<^verbatim>\<open>expect\<close> on a graph without steps.\<close>

definition build_graph :: "WorkflowPattern \<Rightarrow> SeedQuestion list \<Rightarrow> WorkflowGraph option" where
  "build_graph pattern questions =
     (let steps = pattern_steps pattern questions in
      case steps of
        [] \<Rightarrow> None
      | s # _ \<Rightarrow> Some \<lparr>g_entry_step_id = s_id s, g_steps = steps\<rparr>)"

section \<open>Loading the catalog\<close>

definition seed_definition :: "SeedItem \<Rightarrow> WorkflowGraph \<Rightarrow> NewWorkflowDefinition" where
  "seed_definition item graph =
     \<lparr>nwd_name = si_name item @ '' (starter catalog)'', nwd_graph = graph,
      nwd_field_mapping = None, nwd_target_system = None\<rparr>"

definition seed_catalog_item :: "nat \<Rightarrow> SeedItem \<Rightarrow> uuid \<Rightarrow> NewServiceCatalogItem" where
  "seed_catalog_item index item workflow_id =
     \<lparr>nci_slug = Some (si_slug item), nci_name = si_name item,
      nci_description = Some (si_description item), nci_summary = Some (si_summary item),
      nci_details = Some \<lparr>cd_included = si_included item, cd_not_included = si_not_included item,
        cd_needed = si_needed item, cd_keywords = si_keywords item\<rparr>,
      nci_approval_label = Some (si_approval_label item),
      nci_target_value = Some (si_target_value item), nci_target_unit = Some (si_target_unit item),
      nci_category = Some (si_category item), nci_icon = Some (si_icon item),
      nci_sort_order = of_nat index, nci_workflow_definition_id = workflow_id\<rparr>"

definition seed_one :: "env \<Rightarrow> uuid \<Rightarrow> nat \<Rightarrow> SeedItem \<Rightarrow> (ApiError, unit) act" where
  "seed_one E created_by index item =
     (case build_graph (si_workflow_pattern item) (si_questions item) of
        None \<Rightarrow> panic
      | Some graph \<Rightarrow>
          bindM (map_err api_of_db (definitions_create E (seed_definition item graph) created_by)) (\<lambda>workflow.
          bindM (map_err api_of_db (definitions_set_published E (wd_id workflow) True)) (\<lambda>_.
          bindM (map_err api_of_db (catalog_create E (seed_catalog_item index item (wd_id workflow)) created_by)) (\<lambda>created.
          if \<not> si_published item then map_err api_of_db (catalog_deactivate E (ci_id created))
          else return ()))))"

fun seed_loop ::
    "env \<Rightarrow> uuid \<Rightarrow> string list \<Rightarrow> nat \<Rightarrow> SeedItem list \<Rightarrow> SeedSummary \<Rightarrow> (ApiError, SeedSummary) act" where
  "seed_loop E created_by existing_slugs index [] summary = return summary"
| "seed_loop E created_by existing_slugs index (item # items) summary =
     (if si_slug item \<in> set existing_slugs
      then seed_loop E created_by existing_slugs (index + 1) items
        (summary\<lparr>sm_skipped := sm_skipped summary + 1,
           sm_skipped_names := sm_skipped_names summary @ [si_name item]\<rparr>)
      else
        bindM (seed_one E created_by index item) (\<lambda>_.
        seed_loop E created_by existing_slugs (index + 1) items
          (summary\<lparr>sm_added := sm_added summary + 1\<rparr>)))"

definition slugs_of :: "ServiceCatalogItem list \<Rightarrow> string list" where
  "slugs_of items = concat (map (\<lambda>i. case ci_slug i of None \<Rightarrow> [] | Some s \<Rightarrow> [s]) items)"

definition seed_run :: "env \<Rightarrow> SeedItem list \<Rightarrow> uuid \<Rightarrow> (ApiError, SeedSummary) act" where
  "seed_run E items created_by =
     bindM (map_err api_of_db (catalog_list E True)) (\<lambda>existing.
     seed_loop E created_by (slugs_of existing) 0 items
       \<lparr>sm_added = 0, sm_skipped = 0, sm_skipped_names = []\<rparr>)"

definition seed_item_count :: "SeedItem list \<Rightarrow> nat" where
  "seed_item_count items = length items"

lemma seed_one_via_steps [keeps_intros]:
  "keeps (\<lambda>w. (db_step E)\<^sup>*\<^sup>* d0 (w_db w)) (seed_one E created_by index item)"
  unfolding seed_one_def by (intro keeps_intros)

lemma seed_loop_via_steps [keeps_intros]:
  "keeps (\<lambda>w. (db_step E)\<^sup>*\<^sup>* d0 (w_db w)) (seed_loop E created_by slugs index items summary)"
  by (induction items arbitrary: index summary) (auto intro!: keeps_intros)

lemma seed_run_via_steps [keeps_intros]:
  "keeps (\<lambda>w. (db_step E)\<^sup>*\<^sup>* d0 (w_db w)) (seed_run E items created_by)"
  unfolding seed_run_def by (intro keeps_intros)

section \<open>The graphs are valid and lead forward\<close>

text \<open>Every step leads only to steps further down the list, and no id occurs twice.\<close>

fun forward_only :: "Step list \<Rightarrow> bool" where
  "forward_only [] \<longleftrightarrow> True"
| "forward_only (s # ss) \<longleftrightarrow>
     set (successors (s_kind s)) \<subseteq> s_id ` set ss \<and> s_id s \<notin> s_id ` set ss \<and> forward_only ss"

lemma question_id_inject [simp]: "question_id m = question_id n \<longleftrightarrow> m = n"
  by (auto simp: question_id_def) (metis parse_digits_nat option.inject)

lemma question_steps_ids: "s_id ` set (question_steps i qs nxt) = question_id ` {i + 1..i + length qs}"
proof (induction qs arbitrary: i)
  case (Cons q qs)
  have "{i + 1..i + length (q # qs)} = insert (i + 1) {i + 1 + 1..i + 1 + length qs}" by auto
  then show ?case using Cons.IH [of "i + 1"] by simp
qed simp

lemma question_steps_forward:
  assumes "forward_only rest" "nxt \<in> s_id ` set rest" "\<And>n. question_id n \<notin> s_id ` set rest"
  shows "forward_only (question_steps i qs nxt @ rest)"
proof (induction qs arbitrary: i)
  case Nil
  then show ?case using assms(1) by simp
next
  case (Cons q qs)
  have ids: "s_id ` set (question_steps (Suc i) qs nxt @ rest) =
      question_id ` {i + 2..i + 1 + length qs} \<union> s_id ` set rest"
    using question_steps_ids [of "i + 1" qs nxt] by (simp add: image_Un)
  have "question_id (i + 2) \<in> question_id ` {i + 2..i + 1 + length qs}" if "qs \<noteq> []"
    using that by (cases qs) auto
  with Cons.IH [of "Suc i"] ids assms(2,3) show ?case by auto
qed

lemma question_id_Cons: "question_id n = CHR ''q'' # nat_to_string n"
  by (simp add: question_id_def)

lemma forward_only_valid:
  assumes "forward_only steps"
  shows "distinct (map s_id steps)" "s \<in> set steps \<Longrightarrow> set (successors (s_kind s)) \<subseteq> s_id ` set steps"
  using assms by (induction steps) auto

lemma pattern_steps_forward: "forward_only (pattern_steps pattern questions) \<and> pattern_steps pattern questions \<noteq> []"
proof (cases pattern)
  case SimpleTicket
  then show ?thesis
    by (auto simp: push_submit_and_ends_def append_questions_def end_step_def question_id_Cons
        intro!: question_steps_forward)
next
  case ManagerApprovalTicket
  then show ?thesis
    by (auto simp: push_submit_and_ends_def append_questions_def end_step_def approval_step_def
        question_id_Cons intro!: question_steps_forward)
next
  case SecurityApprovalTicket
  then show ?thesis
    by (auto simp: push_submit_and_ends_def append_questions_def end_step_def approval_step_def
        question_id_Cons intro!: question_steps_forward)
next
  case FinanceApprovalTicket
  then show ?thesis
    by (auto simp: push_submit_and_ends_def append_questions_def end_step_def approval_step_def
        question_id_Cons intro!: question_steps_forward)
next
  case InfoOnly
  then show ?thesis
    by (auto simp: append_questions_def end_step_def question_id_Cons intro!: question_steps_forward)
qed

text \<open>C37: every graph the starter catalog builds, for each of the five patterns and any list of
  questions (also none), is built without a panic, has its entry step and every step it
  refers to, no two steps with the same id, and leads only forward in the list of steps, so
  it has no cycle.\<close>

theorem seeded_graph_valid:
  "\<exists>graph. build_graph pattern questions = Some graph \<and> graph_wf graph \<and>
    distinct (map s_id (g_steps graph)) \<and> forward_only (g_steps graph)"
proof -
  obtain s ss where steps: "pattern_steps pattern questions = s # ss"
    using pattern_steps_forward [of pattern questions] by (cases "pattern_steps pattern questions") auto
  have fwd: "forward_only (s # ss)" using pattern_steps_forward [of pattern questions] steps by simp
  let ?graph = "\<lparr>g_entry_step_id = s_id s, g_steps = s # ss\<rparr>"
  have "build_graph pattern questions = Some ?graph" by (simp add: build_graph_def steps)
  moreover have "graph_wf ?graph"
    using forward_only_valid(2) [OF fwd] by (auto simp: graph_wf_def step_ids_def)
  moreover have "distinct (map s_id (g_steps ?graph)) \<and> forward_only (g_steps ?graph)"
    using forward_only_valid(1) [OF fwd] fwd by simp
  ultimately show ?thesis by blast
qed

text \<open>On such a graph a ticket step never leads back to itself, so the orchestrator's loop ends
  (\<open>apply_outcome_returns\<close>).\<close>

lemma forward_only_earlier:
  assumes "forward_only steps" "i < length steps" "t \<in> set (successors (s_kind (steps ! i)))"
  shows "\<exists>j. i < j \<and> j < length steps \<and> s_id (steps ! j) = t"
  using assms
proof (induction steps arbitrary: i)
  case (Cons s ss)
  show ?case
  proof (cases i)
    case 0
    with Cons.prems have "t \<in> s_id ` set ss" by auto
    then obtain x where "x \<in> set ss" "s_id x = t" by blast
    then obtain j where "j < length ss" "s_id (ss ! j) = t" by (metis in_set_conv_nth)
    with 0 show ?thesis by (intro exI [of _ "Suc j"]) simp
  next
    case (Suc k)
    with Cons.prems Cons.IH [of k] obtain j where "k < j" "j < length ss" "s_id (ss ! j) = t" by auto
    with Suc show ?thesis by (intro exI [of _ "Suc j"]) simp
  qed
qed simp

text \<open>The starter catalog never sets a target system, so a request that reaches its ticket step
  ends with status 500 before anything is dispatched.\<close>

lemma seeded_ticket_not_dispatched:
  assumes "wd_target_system definition = nwd_target_system (seed_definition item graph)"
  shows "dispatch_ticket E deps definition i rid answers w = (Err Internal, w)"
  using assms by (simp add: dispatch_ticket_def seed_definition_def)

section \<open>Loading twice\<close>

definition has_slug :: "string \<Rightarrow> db \<Rightarrow> bool" where
  "has_slug s d \<longleftrightarrow> (\<exists>r \<in> set (db_items d). ci_slug r = Some s)"

text \<open>No statement removes an item or changes its slug.\<close>

lemma db_step_items:
  "db_step E d d' \<Longrightarrow> map ci_slug (db_items d') = map ci_slug (db_items d) \<or>
     (\<exists>r. db_items d' = db_items d @ [r])"
  by (induction rule: db_step.induct)
    (simp_all add: stmt_defs insert_if_snd Let_def map_update_rows touched_def split: option.split)

lemma has_slug_iff: "has_slug s d \<longleftrightarrow> Some s \<in> set (map ci_slug (db_items d))"
  by (auto simp: has_slug_def image_iff) metis

lemma has_slug_step: "db_step E d d' \<Longrightarrow> has_slug s d \<Longrightarrow> has_slug s d'"
  by (drule db_step_items) (auto simp: has_slug_iff simp del: set_map)

lemma has_slug_steps: "(db_step E)\<^sup>*\<^sup>* d d' \<Longrightarrow> has_slug s d \<Longrightarrow> has_slug s d'"
  by (induction rule: rtranclp_induct) (auto intro: has_slug_step)

lemma via_steps_Ok: "via_steps E m \<Longrightarrow> m w = (r, w') \<Longrightarrow> (db_step E)\<^sup>*\<^sup>* (w_db w) (w_db w')"
  using via_stepsD [of E m w] by simp

lemma catalog_create_slug:
  assumes "catalog_create E new u w = (Ok item, w')" "nci_slug new = Some s"
  shows "has_slug s (w_db w')"
  using assms unfolding catalog_create_def catalog_get_by_id_def
  by (auto simp: new_uuid_def catalog_create_stmt_def insert_if_def has_slug_def
      elim!: bindM_OkE sql_OkE dest!: ok_or_OkD sql_query_Ok split: if_splits)

lemma seed_one_slug:
  assumes "seed_one E created_by index item w = (Ok (), w')"
  shows "has_slug (si_slug item) (w_db w')"
proof -
  obtain workflow created w1 w2 where
    create: "catalog_create E (seed_catalog_item index item workflow) created_by w1 = (Ok created, w2)"
    and last: "w2 = w' \<or> catalog_deactivate E (ci_id created) w2 = (Ok (), w')"
    using assms unfolding seed_one_def
    by (auto elim!: bindM_OkE split: option.splits if_splits)
  have "has_slug (si_slug item) (w_db w2)"
    using create by (rule catalog_create_slug) (simp add: seed_catalog_item_def)
  then show ?thesis
    using last via_steps_Ok [of E "catalog_deactivate E (ci_id created)" w2 "Ok ()" w']
    by (auto intro: has_slug_steps keeps_intros)
qed

lemma seed_loop_slugs:
  assumes "seed_loop E created_by slugs index items summary w = (Ok summary', w')"
    and "\<And>s. s \<in> set slugs \<Longrightarrow> has_slug s (w_db w)" "item \<in> set items"
  shows "has_slug (si_slug item) (w_db w')"
  using assms
proof (induction items arbitrary: index summary w)
  case (Cons i items)
  show ?case
  proof (cases "si_slug i \<in> set slugs")
    case True
    with Cons.prems(1) have loop: "seed_loop E created_by slugs (index + 1) items
        (summary\<lparr>sm_skipped := sm_skipped summary + 1,
           sm_skipped_names := sm_skipped_names summary @ [si_name i]\<rparr>) w = (Ok summary', w')"
      by simp
    then have "(db_step E)\<^sup>*\<^sup>* (w_db w) (w_db w')"
      by (rule via_steps_Ok [rotated]) (simp add: keeps_intros)
    then show ?thesis
      using Cons.IH [OF loop Cons.prems(2)] Cons.prems(2,3) True by (auto intro: has_slug_steps)
  next
    case False
    with Cons.prems(1) obtain w1 where one: "seed_one E created_by index i w = (Ok (), w1)"
      and loop: "seed_loop E created_by slugs (index + 1) items
        (summary\<lparr>sm_added := sm_added summary + 1\<rparr>) w1 = (Ok summary', w')"
      by (auto elim!: bindM_OkE)
    have steps: "(db_step E)\<^sup>*\<^sup>* (w_db w) (w_db w1)"
      using one by (rule via_steps_Ok [rotated]) (simp add: keeps_intros)
    moreover have "(db_step E)\<^sup>*\<^sup>* (w_db w1) (w_db w')"
      using loop by (rule via_steps_Ok [rotated]) (simp add: keeps_intros)
    ultimately show ?thesis
      using Cons.IH [OF loop] Cons.prems(2,3) seed_one_slug [OF one]
      by (auto intro: has_slug_steps)
  qed
qed simp

lemma set_slugs_of: "set (slugs_of items) = {s. Some s \<in> ci_slug ` set items}"
  by (force simp: slugs_of_def split: option.splits)

lemma seed_loop_skips:
  assumes "\<And>item. item \<in> set items \<Longrightarrow> si_slug item \<in> set slugs"
  shows "seed_loop E created_by slugs index items summary w =
    (Ok (summary\<lparr>sm_skipped := sm_skipped summary + length items,
       sm_skipped_names := sm_skipped_names summary @ map si_name items\<rparr>), w)"
  using assms by (induction items arbitrary: index summary) simp_all

text \<open>C36: loading the starter catalog is idempotent, as long as no statement of the database fails: once
  it was loaded successfully, loading the same items again, by whatever administrator and whatever
  statements of the server ran in between (items edited, added, deactivated), succeeds, adds
  nothing, reports every item as skipped and leaves the database as it is.\<close>

theorem seed_run_idempotent:
  assumes "fault_free E" "seed_run E items admin w = (Ok summary, w1)"
    and "(db_step E)\<^sup>*\<^sup>* (w_db w1) (w_db w2)"
  shows "\<exists>w3. seed_run E items admin2 w2 =
      (Ok \<lparr>sm_added = 0, sm_skipped = length items, sm_skipped_names = map si_name items\<rparr>, w3) \<and>
    w_db w3 = w_db w2"
proof -
  obtain existing w0 where list: "catalog_list E True w = (Ok existing, w0)"
    and loop: "seed_loop E admin (slugs_of existing) 0 items
      \<lparr>sm_added = 0, sm_skipped = 0, sm_skipped_names = []\<rparr> w0 = (Ok summary, w1)"
    using assms(2) unfolding seed_run_def by (auto elim!: bindM_OkE)
  have "has_slug s (w_db w0)" if "s \<in> set (slugs_of existing)" for s
    using that list by (auto simp: catalog_list_def set_slugs_of has_slug_def dest!: sql_query_Ok)
  then have "has_slug (si_slug item) (w_db w1)" if "item \<in> set items" for item
    using seed_loop_slugs [OF loop] that by blast
  then have slugs: "has_slug (si_slug item) (w_db w2)" if "item \<in> set items" for item
    using that assms(3) by (blast intro: has_slug_steps)
  obtain existing2 where list2: "catalog_list E True w2 = (Ok existing2, w2\<lparr>w_io := Suc (w_io w2)\<rparr>)"
    "set existing2 = set (db_items (w_db w2))"
    by (simp add: catalog_list_def sql_fault_free [OF assms(1)] query_def)
  have "si_slug item \<in> set (slugs_of existing2)" if "item \<in> set items" for item
    using slugs [OF that] by (auto simp: set_slugs_of list2(2) has_slug_def image_iff) metis
  then show ?thesis
    by (simp add: seed_run_def bindM_apply map_err_apply list2(1) seed_loop_skips)
qed

section \<open>Witnesses\<close>

definition sample_seed :: SeedItem where
  "sample_seed = \<lparr>si_slug = ''vpn'', si_name = ''VPN'', si_category = ''Access'', si_icon = ''key'',
     si_summary = [], si_description = [], si_included = [], si_not_included = [], si_needed = [],
     si_keywords = [], si_approval_label = [], si_workflow_pattern = InfoOnly, si_target_value = 1,
     si_target_unit = BusinessDays, si_published = False, si_questions = []\<rparr>"

theorem seed_run_idempotent_witness:
  "\<exists>w1 w3. seed_run E0 [sample_seed] 1 sample_world =
      (Ok \<lparr>sm_added = 1, sm_skipped = 0, sm_skipped_names = []\<rparr>, w1) \<and>
    seed_run E0 [sample_seed] 1 w1 =
      (Ok \<lparr>sm_added = 0, sm_skipped = 1, sm_skipped_names = [''VPN'']\<rparr>, w3) \<and> w_db w3 = w_db w1"
proof -
  obtain w1 where ok: "seed_run E0 [sample_seed] 1 sample_world =
      (Ok \<lparr>sm_added = 1, sm_skipped = 0, sm_skipped_names = []\<rparr>, w1)"
    by (simp add: seed_run_def catalog_list_def order_by_def slugs_of_def seed_one_def build_graph_def
        append_questions_def end_step_def sample_seed_def definitions_create_def definitions_create_stmt_def
        definitions_get_by_id_def row_into_model_def definitions_set_published_def
        definitions_set_published_stmt_def catalog_create_def catalog_create_stmt_def catalog_get_by_id_def
        catalog_deactivate_def catalog_deactivate_stmt_def seed_definition_def seed_catalog_item_def
        insert_if_def new_uuid_def touched_def sample_defs token_eval)
  show ?thesis
    using ok seed_run_idempotent [OF sample_env_fault_free ok rtranclp.rtrancl_refl, of 1]
    by (auto simp: sample_seed_def)
qed

end
