(* ===== verification/Uploads.thy ===== *)
theory Uploads
  imports Api_Error
begin

text \<open>
  \<^verbatim>\<open>src/crates/server/src/uploads.rs\<close> and \<^verbatim>\<open>routes/uploads.rs\<close>: organisation and department
  logos on disk, and the public route that serves them. A file system call fails as the
  environment says and then leaves the files as they are; there are no symbolic links.

  Shown: a saved logo is served back byte for byte under its content type, and no request
  path makes the server read a file outside the uploads directory.
\<close>

section \<open>The file system\<close>

text \<open>\<^verbatim>\<open>Path::join\<close>: an absolute right-hand side replaces the left one.\<close>

definition path_join :: "string \<Rightarrow> string \<Rightarrow> string" where
  "path_join dir p =
     (if starts_with ''/'' p \<or> dir = [] then p
      else if last dir = CHR ''/'' then dir @ p
      else dir @ ''/'' @ p)"

definition fs_call :: "env \<Rightarrow> (world \<Rightarrow> ('a \<times> world) option) \<Rightarrow> (unit, 'a) act" where
  "fs_call E f w =
     (let w' = w\<lparr>w_io := Suc (w_io w)\<rparr> in
      if \<not> env_fs_ok E (w_io w) then (Err (), w')
      else case f w' of None \<Rightarrow> (Err (), w') | Some (x, w'') \<Rightarrow> (Ok x, w''))"

definition fs_create_dir_all :: "env \<Rightarrow> string \<Rightarrow> (unit, unit) act" where
  "fs_create_dir_all E dir = fs_call E (\<lambda>w. Some ((), w))"

definition fs_write :: "env \<Rightarrow> string \<Rightarrow> string \<Rightarrow> (unit, unit) act" where
  "fs_write E path bytes = fs_call E (\<lambda>w. Some ((), w\<lparr>w_files := (w_files w)(path \<mapsto> bytes)\<rparr>))"

definition fs_remove_file :: "env \<Rightarrow> string \<Rightarrow> (unit, unit) act" where
  "fs_remove_file E path = fs_call E (\<lambda>w.
     if w_files w path = None then None else Some ((), w\<lparr>w_files := (w_files w)(path := None)\<rparr>))"

text \<open>A path is kept as it is written: parts that are \<open>.\<close> are not left out, and links are not followed.\<close>

definition fs_read :: "env \<Rightarrow> string \<Rightarrow> (unit, string) act" where
  "fs_read E path = fs_call E (\<lambda>w. map_option (\<lambda>bytes. (bytes, w)) (w_files w path))"

section \<open>uploads.rs\<close>

definition MAX_LOGO_BYTES :: nat where
  "MAX_LOGO_BYTES = 5 * 1024 * 1024"

definition ALLOWED_CONTENT_TYPES :: "(string \<times> string) list" where
  "ALLOWED_CONTENT_TYPES =
     [(''image/png'', ''png''), (''image/jpeg'', ''jpg''), (''image/svg+xml'', ''svg''),
      (''image/webp'', ''webp'')]"

definition delete_logo :: "env \<Rightarrow> string \<Rightarrow> string option \<Rightarrow> ('e, unit) act" where
  "delete_logo E uploads_dir url =
     (case url of
        None \<Rightarrow> return ()
      | Some u \<Rightarrow>
          (case strip_prefix ''/uploads/'' u of
             None \<Rightarrow> return ()
           | Some relative \<Rightarrow>
               bindM (try_io (fs_remove_file E (path_join uploads_dir relative))) (\<lambda>_. return ())))"

definition save_logo ::
    "env \<Rightarrow> string \<Rightarrow> string \<Rightarrow> string \<Rightarrow> string \<Rightarrow> string \<Rightarrow> string option \<Rightarrow> (ApiError, string) act" where
  "save_logo E uploads_dir subdir slot content_type bytes previous_url =
     (if length bytes > MAX_LOGO_BYTES then fail (BadRequest ''logo must be 5MB or smaller'')
      else
        bindM (ok_or (BadRequest ''logo must be PNG, JPEG, SVG, or WebP (set Content-Type accordingly)'')
                 (map_of ALLOWED_CONTENT_TYPES content_type)) (\<lambda>extension.
        let dir = path_join uploads_dir subdir in
        bindM (map_err (\<lambda>_. Internal) (fs_create_dir_all E dir)) (\<lambda>_.
        bindM (delete_logo E uploads_dir previous_url) (\<lambda>_.
        bindM (new_uuid E) (\<lambda>i.
        let filename = slot @ ''-'' @ env_uuid_str E i @ ''.'' @ extension;
            path = path_join dir filename in
        bindM (map_err (\<lambda>_. Internal) (fs_write E path bytes)) (\<lambda>_.
        return (''/uploads/'' @ subdir @ ''/'' @ filename)))))))"

section \<open>routes/uploads.rs\<close>

fun content_type_for_extension :: "string \<Rightarrow> string" where
  "content_type_for_extension ext =
     (if ext = ''png'' then ''image/png''
      else if ext = ''jpg'' \<or> ext = ''jpeg'' then ''image/jpeg''
      else if ext = ''svg'' then ''image/svg+xml''
      else if ext = ''webp'' then ''image/webp''
      else ''application/octet-stream'')"

definition content_type_for :: "string \<Rightarrow> string" where
  "content_type_for path = content_type_for_extension (last (split_on CHR ''.'' path))"

datatype file_response =
    FileNotFound
  | FileFound string string
      \<comment> \<open>content type, bytes\<close>

definition serve :: "env \<Rightarrow> string \<Rightarrow> string \<Rightarrow> ('e, file_response) act" where
  "serve E uploads_dir path =
     (if \<exists>segment \<in> set (split_on CHR ''/'' path). segment = ''..'' \<or> segment = [] then return FileNotFound
      else
        bindM (try_io (fs_read E (path_join uploads_dir path))) (\<lambda>r. return (case r of
          Inl _ \<Rightarrow> FileNotFound
        | Inr bytes \<Rightarrow> FileFound (content_type_for path) bytes)))"

lemmas fs_defs = fs_call_def fs_create_dir_all_def fs_write_def fs_remove_file_def fs_read_def

lemma keeps_fs [keeps_intros]:
  "keeps (\<lambda>w. I (w_db w)) (fs_create_dir_all E p)"
  "keeps (\<lambda>w. I (w_db w)) (fs_write E p bytes)"
  "keeps (\<lambda>w. I (w_db w)) (fs_remove_file E p)"
  "keeps (\<lambda>w. I (w_db w)) (fs_read E p)"
  by (auto simp: keeps_def fs_defs Let_def split: option.split)

lemma keeps_uploads [keeps_intros]:
  "keeps (\<lambda>w. I (w_db w)) (delete_logo E dir url)"
  "keeps (\<lambda>w. I (w_db w)) (save_logo E dir subdir slot ct bytes url)"
  "keeps (\<lambda>w. I (w_db w)) (serve E dir path)"
  unfolding delete_logo_def save_logo_def serve_def by (intro keeps_intros)+

section \<open>Requests stay inside the uploads directory\<close>

text \<open>The files below a directory: reached by a relative path without empty or \<^verbatim>\<open>..\<close> parts.\<close>

definition inside :: "string \<Rightarrow> string set" where
  "inside dir = {path_join dir p | p. \<forall>segment \<in> set (split_on CHR ''/'' p). segment \<noteq> ''..'' \<and> segment \<noteq> []}"

lemma inside_prefix: "p \<in> inside dir \<Longrightarrow> \<exists>t. p = dir @ t"
proof -
  have "\<not> starts_with ''/'' q" if "\<forall>segment \<in> set (split_on CHR ''/'' q). segment \<noteq> []" for q
    using that by (cases q) (auto simp: starts_with_def)
  then show "p \<in> inside dir \<Longrightarrow> \<exists>t. p = dir @ t"
    by (auto simp: inside_def path_join_def)
qed

text \<open>C27: whatever path a request asks for, the answer depends only on the files below the
  uploads directory: two file systems that agree there give the same response.\<close>

theorem serve_stays_inside:
  assumes "w_io w' = w_io w" "\<And>p. p \<in> inside uploads_dir \<Longrightarrow> w_files w' p = w_files w p"
  shows "fst (serve E uploads_dir path w') = fst (serve E uploads_dir path w)"
proof (cases "\<exists>segment \<in> set (split_on CHR ''/'' path). segment = ''..'' \<or> segment = []")
  case True
  then show ?thesis by (simp add: serve_def)
next
  case False
  then have "path_join uploads_dir path \<in> inside uploads_dir" by (auto simp: inside_def)
  then have "w_files w' (path_join uploads_dir path) = w_files w (path_join uploads_dir path)"
    by (rule assms(2))
  then show ?thesis
    using False assms(1) by (simp add: serve_def io_simps fs_defs Let_def split: option.split)
qed

text \<open>A logo's name: one part for the directory, one for the file.\<close>

lemma logo_name_split:
  assumes "CHR ''/'' \<notin> set subdir" "CHR ''/'' \<notin> set file"
  shows "split_on CHR ''/'' (subdir @ ''/'' @ file) = [subdir, file]"
  using assms by (simp add: split_on_append split_on_simple)

lemma split_on_split: "split_on c (s @ c # t) = split_on c s @ split_on c t"
  by (induction s) auto

lemma last_split_on: "c \<notin> set t \<Longrightarrow> last (split_on c (s @ c # t)) = t"
  by (simp add: split_on_split split_on_simple)

lemma path_join_nested:
  assumes "p \<noteq> []" "CHR ''/'' \<notin> set p" "CHR ''/'' \<notin> set q"
  shows "path_join (path_join dir p) q = path_join dir (p @ ''/'' @ q)"
proof -
  have "last p \<noteq> CHR ''/''" using assms(1,2) last_in_set by metis
  moreover have "\<not> starts_with ''/'' q" "\<not> starts_with ''/'' p" "\<not> starts_with ''/'' (p @ t)" for t
    using assms by (cases p; cases q; auto simp: starts_with_def)+
  ultimately show ?thesis using assms(1) by (simp add: path_join_def)
qed

lemma save_logo_OkE:
  assumes "save_logo E dir subdir slot ct bytes prev w = (Ok url, w')"
  obtains i ext where "map_of ALLOWED_CONTENT_TYPES ct = Some ext" "length bytes \<le> MAX_LOGO_BYTES"
    "url = ''/uploads/'' @ subdir @ ''/'' @ slot @ ''-'' @ env_uuid_str E i @ ''.'' @ ext"
    "w_files w' (path_join (path_join dir subdir) (slot @ ''-'' @ env_uuid_str E i @ ''.'' @ ext)) = Some bytes"
  using assms unfolding save_logo_def
  by (auto elim!: bindM_OkE dest!: ok_or_OkD simp: Let_def new_uuid_def fs_write_def fs_call_def
      split: if_splits)

lemma allowed_extension:
  "map_of ALLOWED_CONTENT_TYPES ct = Some ext \<Longrightarrow>
   content_type_for_extension ext = ct \<and> CHR ''.'' \<notin> set ext \<and> CHR ''/'' \<notin> set ext"
  by (auto simp: ALLOWED_CONTENT_TYPES_def split: if_splits)

text \<open>C28: an uploaded logo is served back: as long as its file is there, the URL that
  \<^verbatim>\<open>save_logo\<close> returns answers with the uploaded bytes and the content type they were uploaded
  as. (Identifiers are printed without slashes.)\<close>

theorem saved_logo_is_served:
  assumes "save_logo E dir subdir slot ct bytes prev w = (Ok url, w1)"
    and "subdir \<noteq> []" "subdir \<noteq> ''..''" "CHR ''/'' \<notin> set subdir" "CHR ''/'' \<notin> set slot"
    and "\<And>i. CHR ''/'' \<notin> set (env_uuid_str E i)"
    and "env_fs_ok E (w_io w2)" "w_files w2 = w_files w1"
  shows "\<exists>path. url = ''/uploads/'' @ path \<and> fst (serve E dir path w2) = Ok (FileFound ct bytes)"
proof -
  obtain i ext where ext: "map_of ALLOWED_CONTENT_TYPES ct = Some ext"
    and url: "url = ''/uploads/'' @ subdir @ ''/'' @ slot @ ''-'' @ env_uuid_str E i @ ''.'' @ ext"
    and saved: "w_files w1 (path_join (path_join dir subdir) (slot @ ''-'' @ env_uuid_str E i @ ''.'' @ ext)) = Some bytes"
    using assms(1) by (rule save_logo_OkE)
  define name where "name = slot @ ''-'' @ env_uuid_str E i @ ''.'' @ ext"
  have "CHR ''-'' \<in> set name" by (simp add: name_def)
  then have "name \<noteq> []" "name \<noteq> ''..''" by auto
  moreover have "CHR ''/'' \<notin> set name"
    using assms(5,6) allowed_extension [OF ext] by (simp add: name_def)
  ultimately have name: "CHR ''/'' \<notin> set name" "name \<noteq> []" "name \<noteq> ''..''" by blast+
  have ct: "content_type_for (subdir @ ''/'' @ name) = ct"
    using allowed_extension [OF ext]
      last_split_on [of "CHR ''.''" ext "subdir @ ''/'' @ slot @ ''-'' @ env_uuid_str E i"]
    by (simp add: content_type_for_def name_def)
  have "w_files w2 (path_join dir (subdir @ ''/'' @ name)) = Some bytes"
    using saved assms(2,4,8) name(1) path_join_nested [of subdir name dir] by (simp add: name_def)
  then have "fst (serve E dir (subdir @ ''/'' @ name) w2) = Ok (FileFound ct bytes)"
    using assms(2,3,7) name ct logo_name_split [OF assms(4) name(1)]
    by (simp add: serve_def io_simps fs_defs Let_def)
  then show ?thesis using url by (auto simp: name_def)
qed

section \<open>Witnesses\<close>

theorem serve_stays_inside_witness:
  "fst (serve E0 ''up'' ''../secret'' (sample_world\<lparr>w_files := [''secret'' \<mapsto> ''key'']\<rparr>) :: (unit, _) res \<times> _) =
   fst (serve E0 ''up'' ''../secret'' sample_world)"
proof (rule serve_stays_inside)
  fix p assume "p \<in> inside ''up''"
  then obtain t where "p = ''up'' @ t" using inside_prefix by blast
  then have "p \<noteq> ''secret''" by simp
  then show "w_files (sample_world\<lparr>w_files := [''secret'' \<mapsto> ''key'']\<rparr>) p = w_files sample_world p"
    by (simp add: sample_world_def)
qed simp

lemma sample_fs: "env_fs_ok (sample_env g m) n" "env_uuid_str (sample_env g m) i = nat_to_string (unat i)"
  by (simp_all add: sample_env_def)

theorem saved_logo_is_served_witness:
  "\<exists>url w1 path. save_logo E0 ''up'' ''org'' ''org'' ''image/png'' ''PNG'' None sample_world = (Ok url, w1) \<and>
     url = ''/uploads/'' @ path \<and>
     fst (serve E0 ''up'' path w1 :: (unit, _) res \<times> _) = Ok (FileFound ''image/png'' ''PNG'')"
proof -
  obtain url w1 where ok:
      "save_logo E0 ''up'' ''org'' ''org'' ''image/png'' ''PNG'' None sample_world = (Ok url, w1)"
    by (simp add: save_logo_def MAX_LOGO_BYTES_def ALLOWED_CONTENT_TYPES_def fs_defs delete_logo_def
        new_uuid_def io_simps Let_def sample_fs sample_world_def)
  have "CHR ''/'' \<notin> set (env_uuid_str E0 i)" for i
    using nat_to_string_digits [of "unat i"] by (auto simp: sample_fs list_all_iff is_digit_def)
  then show ?thesis
    using saved_logo_is_served [OF ok, of w1] ok by (auto simp: sample_fs)
qed

end
