(* ===== verification/Timezone.thy ===== *)
theory Timezone
  imports Approvals
begin

text \<open>
  \<^verbatim>\<open>src/crates/server/src/timezone.rs\<close>: the organisation's time zone, which is only used to show
  timestamps. Which names exist and how a date reads in a zone is chrono-tz's, a parameter.

  Shown: the pages and the approval mails print a date the same way, although each crate has its
  own function, and a name that is not known reads as UTC in both.
\<close>

definition all_names :: "env \<Rightarrow> string list" where
  "all_names E = env_tz_names E"

definition is_valid :: "env \<Rightarrow> string \<Rightarrow> bool" where
  "is_valid E name = env_tz_valid E name"

definition timezone_format_local :: "env \<Rightarrow> timestamp \<Rightarrow> string \<Rightarrow> string" where
  "timezone_format_local E dt tz_name =
     (if env_tz_valid E tz_name then env_format_local E dt tz_name else env_format_utc E dt)"

lemmas timezone_simps [simp] = all_names_def is_valid_def

lemma mails_and_pages_agree: "format_local E dt tz_name = timezone_format_local E dt tz_name"
  by (simp add: format_local_def timezone_format_local_def)

lemma unknown_timezone_is_utc: "\<not> is_valid E tz_name \<Longrightarrow> timezone_format_local E dt tz_name = env_format_utc E dt"
  by (simp add: timezone_format_local_def)

end
