(* ===== verification/Api_Routes.thy ===== *)
theory Api_Routes
  imports Auth Uploads Timezone
begin

text \<open>
  The JSON API, \<^verbatim>\<open>src/crates/server/src/routes\<close>: one definition per handler, named after its
  module where two modules share a name. A handler takes the \<^verbatim>\<open>Authorization\<close> header's token
  (\<open>bearer\<close>) and its request body already parsed; what axum answers to a body that does not
  parse, a body over the size limit or a path that matches no route is axum's.

  Shown: every administrative handler refuses everyone but an active administrator and then
  changes nothing; a deactivation signs the user out everywhere; the page sizes of the audit
  log are bounded.
\<close>

section \<open>auth.rs\<close>

definition token_response :: "env \<Rightarrow> AppState \<Rightarrow> User \<Rightarrow> (ApiError, TokenResponse) act" where
  "token_response E state user =
     bindM (issue_token_pair E state user) (\<lambda>(access_token, refresh_token).
     return \<lparr>tr_access_token = access_token, tr_refresh_token = refresh_token,
             tr_user = user_profile_from user\<rparr>)"

definition login :: "env \<Rightarrow> AppState \<Rightarrow> string \<Rightarrow> string \<Rightarrow> (ApiError, TokenResponse) act" where
  "login E state email password =
     bindM (authenticate_local E email password) (token_response E state)"

definition password_too_short :: ApiError where
  "password_too_short = BadRequest ''password must be at least 12 characters''"

definition register ::
    "env \<Rightarrow> AppState \<Rightarrow> string \<Rightarrow> string \<Rightarrow> string \<Rightarrow> (ApiError, TokenResponse) act" where
  "register E state email display_name password =
     bindM (map_err api_of_db (org_settings_get E)) (\<lambda>settings.
     if \<not> os_allow_local_signup settings then fail Forbidden
     else if length password < 12 then fail password_too_short
     else
       bindM (map_err api_of_db (users_get_by_email E email)) (\<lambda>existing.
       if existing \<noteq> None then fail (Conflict ''an account with that email already exists'')
       else
         bindM (hash_password E password) (\<lambda>password_hash.
         bindM (map_err api_of_db (users_create E
                  \<lparr>nu_email = email, nu_display_name = display_name, nu_password = None,
                   nu_external_idp_subject = None, nu_department_id = None,
                   nu_manager_user_id = None, nu_role = Requester\<rparr> (Some password_hash)))
           (token_response E state))))"

definition refresh :: "env \<Rightarrow> AppState \<Rightarrow> string \<Rightarrow> (ApiError, TokenResponse) act" where
  "refresh E state refresh_token =
     bindM (redeem_refresh_token E refresh_token) (\<lambda>user_id.
     bindM (map_err api_of_db (users_get_by_id E user_id)) (\<lambda>r.
     bindM (ok_or Unauthorized (active_user r)) (token_response E state)))"

definition logout :: "env \<Rightarrow> string \<Rightarrow> (ApiError, unit) act" where
  "logout E refresh_token = bindM (try_io (redeem_refresh_token E refresh_token)) (\<lambda>_. return ())"

text \<open>The result is the status code 202.\<close>

definition request_password_reset :: "env \<Rightarrow> AppState \<Rightarrow> string \<Rightarrow> (ApiError, nat) act" where
  "request_password_reset E state email =
     bindM (ok_or (ApiNotFound ''password reset is not enabled on this deployment'')
              (as_mailer state)) (\<lambda>mailer.
     bindM (send_password_reset_email E mailer email) (\<lambda>_. return 202))"

definition confirm_password_reset :: "env \<Rightarrow> string \<Rightarrow> string \<Rightarrow> (ApiError, unit) act" where
  "confirm_password_reset E token new_password =
     (if length new_password < 12 then fail password_too_short
      else
        bindM (redeem_password_reset_token E token) (\<lambda>user_id.
        bindM (hash_password E new_password) (\<lambda>password_hash.
        bindM (map_err api_of_db (users_set_password_hash E user_id password_hash)) (\<lambda>_.
        revoke_all_sessions E user_id))))"

section \<open>users.rs\<close>

text \<open>\<^verbatim>\<open>auth_user.require_role(&[Role::Admin])?\<close> after the extractor.\<close>

definition as_admin :: "env \<Rightarrow> AppState \<Rightarrow> string option \<Rightarrow> (User \<Rightarrow> (ApiError, 'a) act) \<Rightarrow> (ApiError, 'a) act" where
  "as_admin E state bearer handler =
     bindM (from_request_parts E state bearer) (\<lambda>user.
     bindM (require_role user [Admin]) (\<lambda>_. handler user))"

definition me :: "env \<Rightarrow> AppState \<Rightarrow> string option \<Rightarrow> (ApiError, UserProfile) act" where
  "me E state bearer =
     bindM (from_request_parts E state bearer) (\<lambda>user. return (user_profile_from user))"

definition list_users :: "env \<Rightarrow> AppState \<Rightarrow> string option \<Rightarrow> bool \<Rightarrow> (ApiError, UserProfile list) act" where
  "list_users E state bearer include_inactive =
     as_admin E state bearer (\<lambda>_.
     bindM (map_err api_of_db (users_list E include_inactive)) (\<lambda>users.
     return (map user_profile_from users)))"

definition audit_user_action ::
    "env \<Rightarrow> User \<Rightarrow> string \<Rightarrow> uuid \<Rightarrow> json option \<Rightarrow> (ApiError, unit) act" where
  "audit_user_action E actor action i metadata =
     map_err api_of_db (audit_record E
       \<lparr>nal_actor_user_id = Some (u_id actor), nal_action = action, nal_entity_type = ''user'',
        nal_entity_id = Some (env_uuid_str E i), nal_metadata_json = metadata\<rparr>)"

definition hash_optional_password :: "env \<Rightarrow> string option \<Rightarrow> (ApiError, string option) act" where
  "hash_optional_password E password =
     (case password of None \<Rightarrow> return None | Some p \<Rightarrow> bindM (hash_password E p) (\<lambda>h. return (Some h)))"

definition create_user :: "env \<Rightarrow> AppState \<Rightarrow> string option \<Rightarrow> NewUser \<Rightarrow> (ApiError, UserProfile) act" where
  "create_user E state bearer new_user =
     as_admin E state bearer (\<lambda>auth_user.
     if nu_password new_user = None \<and> nu_external_idp_subject new_user = None
     then fail (BadRequest ''a new user needs either a password or an external_idp_subject'')
     else
       bindM (hash_optional_password E (nu_password new_user)) (\<lambda>password_hash.
       bindM (map_err api_of_db (users_create E new_user password_hash)) (\<lambda>created.
       bindM (audit_user_action E auth_user ''user.create'' (u_id created)
                (Some (JObject [(''email'', JString (u_email created)),
                  (''role'', JString (role_as_str (u_role created)))]))) (\<lambda>_.
       return (user_profile_from created)))))"

definition update_user ::
    "env \<Rightarrow> AppState \<Rightarrow> string option \<Rightarrow> uuid \<Rightarrow> UpdateUser \<Rightarrow> (ApiError, UserProfile) act" where
  "update_user E state bearer i patch =
     as_admin E state bearer (\<lambda>auth_user.
     bindM (map_err api_of_db (users_update E i patch)) (\<lambda>r.
     bindM (ok_or (ApiNotFound ''user not found'') r) (\<lambda>updated.
     bindM (audit_user_action E auth_user ''user.update'' i None) (\<lambda>_.
     return (user_profile_from updated)))))"

definition deactivate_user :: "env \<Rightarrow> AppState \<Rightarrow> string option \<Rightarrow> uuid \<Rightarrow> (ApiError, unit) act" where
  "deactivate_user E state bearer i =
     as_admin E state bearer (\<lambda>auth_user.
     if u_id auth_user = i then fail (BadRequest ''you cannot deactivate your own account'')
     else
       bindM (map_err api_of_db (users_deactivate E i)) (\<lambda>_.
       bindM (revoke_all_sessions E i) (\<lambda>_.
       audit_user_action E auth_user ''user.deactivate'' i None)))"

section \<open>departments.rs\<close>

definition departments_route_list :: "env \<Rightarrow> AppState \<Rightarrow> string option \<Rightarrow> (ApiError, Department list) act" where
  "departments_route_list E state bearer =
     bindM (from_request_parts E state bearer) (\<lambda>_. map_err api_of_db (departments_list E))"

definition departments_route_create ::
    "env \<Rightarrow> AppState \<Rightarrow> string option \<Rightarrow> NewDepartment \<Rightarrow> (ApiError, Department) act" where
  "departments_route_create E state bearer new_department =
     as_admin E state bearer (\<lambda>_. map_err api_of_db (departments_create E new_department))"

definition department_not_found :: ApiError where
  "department_not_found = ApiNotFound ''department not found''"

definition departments_route_update ::
    "env \<Rightarrow> AppState \<Rightarrow> string option \<Rightarrow> uuid \<Rightarrow> UpdateDepartment \<Rightarrow> (ApiError, Department) act" where
  "departments_route_update E state bearer i patch =
     as_admin E state bearer (\<lambda>_.
     bindM (map_err api_of_db (departments_update E i patch)) (ok_or department_not_found))"

definition departments_route_delete :: "env \<Rightarrow> AppState \<Rightarrow> string option \<Rightarrow> uuid \<Rightarrow> (ApiError, unit) act" where
  "departments_route_delete E state bearer i =
     as_admin E state bearer (\<lambda>_. map_err api_of_db (departments_delete E i))"

text \<open>\<open>headers\<close> is the \<^verbatim>\<open>Content-Type\<close> header, \<open>None\<close> when absent or not visible ASCII.\<close>

definition content_type :: "string option \<Rightarrow> (ApiError, string) act" where
  "content_type headers = ok_or (BadRequest ''Content-Type header is required'') headers"

definition departments_route_upload_logo ::
    "env \<Rightarrow> AppState \<Rightarrow> string option \<Rightarrow> uuid \<Rightarrow> string option \<Rightarrow> string \<Rightarrow> (ApiError, Department) act" where
  "departments_route_upload_logo E state bearer i headers body =
     as_admin E state bearer (\<lambda>_.
     bindM (content_type headers) (\<lambda>ct.
     bindM (map_err api_of_db (departments_get_by_id E i)) (\<lambda>r.
     bindM (ok_or department_not_found r) (\<lambda>current.
     bindM (save_logo E (as_uploads_dir state) ''departments'' (env_uuid_str E i) ct body
              (d_logo_url current)) (\<lambda>logo_url.
     bindM (map_err api_of_db (departments_set_logo_url E i (Some logo_url)))
       (ok_or department_not_found))))))"

definition departments_route_remove_logo ::
    "env \<Rightarrow> AppState \<Rightarrow> string option \<Rightarrow> uuid \<Rightarrow> (ApiError, Department) act" where
  "departments_route_remove_logo E state bearer i =
     as_admin E state bearer (\<lambda>_.
     bindM (map_err api_of_db (departments_get_by_id E i)) (\<lambda>r.
     bindM (ok_or department_not_found r) (\<lambda>current.
     bindM (delete_logo E (as_uploads_dir state) (d_logo_url current)) (\<lambda>_.
     bindM (map_err api_of_db (departments_set_logo_url E i None))
       (ok_or department_not_found)))))"

section \<open>settings.rs\<close>

definition public_config :: "env \<Rightarrow> AppState \<Rightarrow> (ApiError, PublicConfig) act" where
  "public_config E state =
     bindM (map_err api_of_db (org_settings_get E)) (\<lambda>settings.
     return \<lparr>pc_app_name = os_app_name settings, pc_logo_url = os_logo_url settings,
             pc_allow_local_signup = os_allow_local_signup settings,
             pc_sso_enabled = (as_sso state \<noteq> None)\<rparr>)"

definition timezone_unknown :: "string \<Rightarrow> ApiError" where
  "timezone_unknown tz = BadRequest (tick @ tz @ tick @ '' is not a recognized IANA timezone name'')"

definition update_settings ::
    "env \<Rightarrow> AppState \<Rightarrow> string option \<Rightarrow> UpdateOrgSettings \<Rightarrow> (ApiError, OrgSettings) act" where
  "update_settings E state bearer patch =
     as_admin E state bearer (\<lambda>_.
     case uos_timezone patch of
       Some tz \<Rightarrow>
         if \<not> is_valid E tz then fail (timezone_unknown tz)
         else map_err api_of_db (org_settings_update E patch)
     | None \<Rightarrow> map_err api_of_db (org_settings_update E patch))"

definition settings_upload_logo ::
    "env \<Rightarrow> AppState \<Rightarrow> string option \<Rightarrow> string option \<Rightarrow> string \<Rightarrow> (ApiError, OrgSettings) act" where
  "settings_upload_logo E state bearer headers body =
     as_admin E state bearer (\<lambda>_.
     bindM (content_type headers) (\<lambda>ct.
     bindM (map_err api_of_db (org_settings_get E)) (\<lambda>current.
     bindM (save_logo E (as_uploads_dir state) ''org'' ''org'' ct body (os_logo_url current)) (\<lambda>logo_url.
     map_err api_of_db (org_settings_set_logo_url E (Some logo_url))))))"

definition settings_remove_logo :: "env \<Rightarrow> AppState \<Rightarrow> string option \<Rightarrow> (ApiError, OrgSettings) act" where
  "settings_remove_logo E state bearer =
     as_admin E state bearer (\<lambda>_.
     bindM (map_err api_of_db (org_settings_get E)) (\<lambda>current.
     bindM (delete_logo E (as_uploads_dir state) (os_logo_url current)) (\<lambda>_.
     map_err api_of_db (org_settings_set_logo_url E None))))"

section \<open>catalog.rs\<close>

definition is_staff :: "User \<Rightarrow> bool" where
  "is_staff user \<longleftrightarrow> u_role user = Admin \<or> u_role user = Agent"

definition catalog_route_list ::
    "env \<Rightarrow> AppState \<Rightarrow> string option \<Rightarrow> bool \<Rightarrow> (ApiError, ServiceCatalogItem list) act" where
  "catalog_route_list E state bearer include_inactive =
     bindM (from_request_parts E state bearer) (\<lambda>user.
     map_err api_of_db (catalog_list E (include_inactive \<and> is_staff user)))"

definition catalog_route_create ::
    "env \<Rightarrow> AppState \<Rightarrow> string option \<Rightarrow> NewServiceCatalogItem \<Rightarrow> (ApiError, ServiceCatalogItem) act" where
  "catalog_route_create E state bearer new_item =
     as_admin E state bearer (\<lambda>user. map_err api_of_db (catalog_create E new_item (u_id user)))"

definition catalog_route_update ::
    "env \<Rightarrow> AppState \<Rightarrow> string option \<Rightarrow> uuid \<Rightarrow> UpdateServiceCatalogItem \<Rightarrow>
     (ApiError, ServiceCatalogItem) act" where
  "catalog_route_update E state bearer i patch =
     as_admin E state bearer (\<lambda>_.
     bindM (map_err api_of_db (catalog_update E i patch)) (ok_or (ApiNotFound ''catalog item not found'')))"

definition catalog_route_deactivate :: "env \<Rightarrow> AppState \<Rightarrow> string option \<Rightarrow> uuid \<Rightarrow> (ApiError, unit) act" where
  "catalog_route_deactivate E state bearer i =
     as_admin E state bearer (\<lambda>_. map_err api_of_db (catalog_deactivate E i))"

section \<open>instances.rs\<close>

definition deps_of :: "AppState \<Rightarrow> Deps" where
  "deps_of state = \<lparr>deps_notifier = as_notifier state, deps_connectors = as_connectors state\<rparr>"

definition instances_route_start ::
    "env \<Rightarrow> AppState \<Rightarrow> string option \<Rightarrow> uuid \<Rightarrow> (world, ApiError, WorkflowInstance) run" where
  "instances_route_start E state bearer catalog_item_id =
     then_run (from_request_parts E state bearer) (start_instance E (deps_of state) catalog_item_id)"

definition instances_route_list_mine ::
    "env \<Rightarrow> AppState \<Rightarrow> string option \<Rightarrow> (ApiError, WorkflowInstance list) act" where
  "instances_route_list_mine E state bearer =
     bindM (from_request_parts E state bearer) (\<lambda>user.
     map_err api_of_db (instances_list_for_requester E (u_id user)))"

definition get_one :: "env \<Rightarrow> AppState \<Rightarrow> string option \<Rightarrow> uuid \<Rightarrow> (ApiError, WorkflowInstance) act" where
  "get_one E state bearer i =
     bindM (from_request_parts E state bearer) (\<lambda>user.
     bindM (map_err api_of_db (instances_get_by_id E i)) (\<lambda>r.
     bindM (ok_or (ApiNotFound ''request not found'') r) (\<lambda>instance.
     if wi_requester_user_id instance \<noteq> u_id user \<and> \<not> is_staff user then fail Forbidden
     else return instance)))"

definition instances_route_submit_answer ::
    "env \<Rightarrow> AppState \<Rightarrow> string option \<Rightarrow> uuid \<Rightarrow> string \<Rightarrow> json \<Rightarrow> (world, ApiError, WorkflowInstance) run" where
  "instances_route_submit_answer E state bearer i field_key value =
     then_run (from_request_parts E state bearer)
       (\<lambda>user. submit_answer E (deps_of state) i user field_key value)"

section \<open>approvals.rs\<close>

definition approvals_route_list_mine ::
    "env \<Rightarrow> AppState \<Rightarrow> string option \<Rightarrow> (ApiError, PendingApproval list) act" where
  "approvals_route_list_mine E state bearer =
     bindM (from_request_parts E state bearer) (\<lambda>user.
     map_err api_of_db (approvals_list_pending_for_approver E (u_id user)))"

definition approvals_route_decide_as ::
    "env \<Rightarrow> AppState \<Rightarrow> string option \<Rightarrow> uuid \<Rightarrow> ApprovalDecision \<Rightarrow> string option \<Rightarrow>
     (world, ApiError, WorkflowInstance) run" where
  "approvals_route_decide_as E state bearer i decision comment =
     then_run (from_request_parts E state bearer)
       (\<lambda>user. approvals_route_decide E (deps_of state) user i decision comment)"

section \<open>workflow\_definitions.rs\<close>

definition definitions_route_list ::
    "env \<Rightarrow> AppState \<Rightarrow> string option \<Rightarrow> bool \<Rightarrow> (ApiError, WorkflowDefinition list) act" where
  "definitions_route_list E state bearer published_only =
     as_admin E state bearer (\<lambda>_. map_err api_of_db (definitions_list E published_only))"

definition definitions_route_create ::
    "env \<Rightarrow> AppState \<Rightarrow> string option \<Rightarrow> NewWorkflowDefinition \<Rightarrow> (ApiError, WorkflowDefinition) act" where
  "definitions_route_create E state bearer new_def =
     as_admin E state bearer (\<lambda>user. map_err api_of_db (definitions_create E new_def (u_id user)))"

definition publish :: "env \<Rightarrow> AppState \<Rightarrow> string option \<Rightarrow> uuid \<Rightarrow> (ApiError, unit) act" where
  "publish E state bearer i =
     as_admin E state bearer (\<lambda>_. map_err api_of_db (definitions_set_published E i True))"

definition unpublish :: "env \<Rightarrow> AppState \<Rightarrow> string option \<Rightarrow> uuid \<Rightarrow> (ApiError, unit) act" where
  "unpublish E state bearer i =
     as_admin E state bearer (\<lambda>_. map_err api_of_db (definitions_set_published E i False))"

section \<open>audit\_log.rs\<close>

definition DEFAULT_PAGE_SIZE :: i64 where
  "DEFAULT_PAGE_SIZE = 50"

definition MAX_PAGE_SIZE :: i64 where
  "MAX_PAGE_SIZE = 200"

record AuditLogPage =
  ap_entries :: "AuditLogEntry list"
  ap_page :: i64
  ap_page_size :: i64
  ap_total :: i64

text \<open>\<^verbatim>\<open>Ord::max\<close> and \<^verbatim>\<open>Ord::clamp\<close> on \<^verbatim>\<open>i64\<close>.\<close>

definition max_i64 :: "i64 \<Rightarrow> i64 \<Rightarrow> i64" where
  "max_i64 a b = (if a <=s b then b else a)"

definition clamp_i64 :: "i64 \<Rightarrow> i64 \<Rightarrow> i64 \<Rightarrow> i64" where
  "clamp_i64 lo hi x = (if x <s lo then lo else if hi <s x then hi else x)"

definition list_audit_log ::
    "env \<Rightarrow> AppState \<Rightarrow> string option \<Rightarrow> i64 option \<Rightarrow> i64 option \<Rightarrow> (ApiError, AuditLogPage) act" where
  "list_audit_log E state bearer query_page query_page_size =
     as_admin E state bearer (\<lambda>_.
     let page = max_i64 (unwrap_or 1 query_page) 1;
         page_size = clamp_i64 1 MAX_PAGE_SIZE (unwrap_or DEFAULT_PAGE_SIZE query_page_size) in
     bindM (map_err api_of_db (audit_count E)) (\<lambda>total.
     bindM (map_err api_of_db (audit_list E (page - 1) page_size)) (\<lambda>entries.
     return \<lparr>ap_entries = entries, ap_page = page, ap_page_size = page_size, ap_total = total\<rparr>)))"

section \<open>Handlers act through the repositories\<close>

lemmas api_route_defs = token_response_def login_def register_def refresh_def logout_def
  request_password_reset_def confirm_password_reset_def me_def list_users_def audit_user_action_def
  hash_optional_password_def create_user_def update_user_def deactivate_user_def
  departments_route_list_def departments_route_create_def departments_route_update_def
  departments_route_delete_def content_type_def departments_route_upload_logo_def
  departments_route_remove_logo_def public_config_def update_settings_def settings_upload_logo_def
  settings_remove_logo_def catalog_route_list_def catalog_route_create_def catalog_route_update_def
  catalog_route_deactivate_def instances_route_list_mine_def get_one_def
  approvals_route_list_mine_def definitions_route_list_def definitions_route_create_def publish_def
  unpublish_def list_audit_log_def as_admin_def

lemma api_via_steps [keeps_intros]:
  fixes E :: env and d0 :: db
  defines "I \<equiv> \<lambda>w. (db_step E)\<^sup>*\<^sup>* d0 (w_db w)"
  shows "keeps I (login E state email pw)" "keeps I (register E state email name pw)"
    "keeps I (refresh E state tok)" "keeps I (logout E tok)"
    "keeps I (request_password_reset E state email)" "keeps I (confirm_password_reset E tok pw)"
    "keeps I (me E state b)" "keeps I (list_users E state b inc)" "keeps I (create_user E state b nu)"
    "keeps I (update_user E state b i uu)" "keeps I (deactivate_user E state b i)"
    "keeps I (departments_route_list E state b)" "keeps I (departments_route_create E state b nd)"
    "keeps I (departments_route_update E state b i ud)" "keeps I (departments_route_delete E state b i)"
    "keeps I (departments_route_upload_logo E state b i hs body)"
    "keeps I (departments_route_remove_logo E state b i)" "keeps I (public_config E state)"
    "keeps I (update_settings E state b us)" "keeps I (settings_upload_logo E state b hs body)"
    "keeps I (settings_remove_logo E state b)" "keeps I (catalog_route_list E state b inc)"
    "keeps I (catalog_route_create E state b ni)" "keeps I (catalog_route_update E state b i ui)"
    "keeps I (catalog_route_deactivate E state b i)" "keeps I (instances_route_list_mine E state b)"
    "keeps I (get_one E state b i)" "keeps I (approvals_route_list_mine E state b)"
    "keeps I (definitions_route_list E state b pub)" "keeps I (definitions_route_create E state b nw)"
    "keeps I (publish E state b i)" "keeps I (unpublish E state b i)"
    "keeps I (list_audit_log E state b p n)"
  unfolding I_def api_route_defs by (intro keeps_intros stmt_intros)+

section \<open>Who gets in\<close>

text \<open>What the extractor did when it answered with a user.\<close>

lemma from_request_parts_OkE:
  assumes "from_request_parts E state bearer w = (Ok user, w')"
  obtains token claims where "bearer = Some token"
    "env_jwt_decode E (ac_jwt_signing_secret (as_config state)) token (env_time E (w_io w)) = Some claims"
    "find_row (\<lambda>r. u_id r = cl_sub claims) (db_users (w_db w)) = Some user" "u_is_active user"
    "w' = w\<lparr>w_io := Suc (w_io w)\<rparr>"
  using assms unfolding from_request_parts_def verify_access_token_def users_get_by_id_def
  by (auto elim!: bindM_OkE dest!: ok_or_OkD sql_query_Ok simp: active_user_def
      split: option.splits if_splits)

lemma from_request_parts_Err:
  "fst (from_request_parts E state bearer w) = Err e \<Longrightarrow> e \<in> {Unauthorized, Internal}"
  by (cases bearer; cases "env_fault E (w_io w)")
    (auto simp: from_request_parts_def verify_access_token_def users_get_by_id_def io_simps sql_def
      query_def ok_or_def Let_def split: option.splits)

lemma from_request_parts_no_panic: "fst (from_request_parts E state bearer w) \<noteq> Panic"
  by (cases bearer; cases "env_fault E (w_io w)")
    (auto simp: from_request_parts_def verify_access_token_def users_get_by_id_def io_simps sql_def
      query_def ok_or_def Let_def split: option.splits)

lemma from_request_parts_world:
  "snd (from_request_parts E state bearer w) \<in> {w, w\<lparr>w_io := Suc (w_io w)\<rparr>}"
  by (cases bearer; cases "env_fault E (w_io w)")
    (auto simp: from_request_parts_def verify_access_token_def users_get_by_id_def io_simps sql_def
      query_def ok_or_def Let_def split: option.splits)

definition admin_bearer :: "env \<Rightarrow> AppState \<Rightarrow> string option \<Rightarrow> world \<Rightarrow> bool" where
  "admin_bearer E state bearer w \<longleftrightarrow>
     (\<exists>token claims u. bearer = Some token \<and>
        env_jwt_decode E (ac_jwt_signing_secret (as_config state)) token (env_time E (w_io w)) = Some claims \<and>
        u \<in> set (db_users (w_db w)) \<and> u_id u = cl_sub claims \<and> u_is_active u \<and> u_role u = Admin)"

text \<open>An answer of 401, 403 or 500 that left everything but the call counter as it was.\<close>

definition turned_away :: "(ApiError, 'a) act \<Rightarrow> world \<Rightarrow> bool" where
  "turned_away handler w \<longleftrightarrow>
     fst (handler w) \<in> {Err Unauthorized, Err Forbidden, Err Internal} \<and>
     snd (handler w) \<in> {w, w\<lparr>w_io := Suc (w_io w)\<rparr>}"

lemma as_admin_turned_away:
  assumes "\<not> admin_bearer E state bearer w"
  shows "turned_away (as_admin E state bearer handler) w"
proof (cases "from_request_parts E state bearer w")
  case (Pair r w')
  note world = from_request_parts_world [of E state bearer w]
  show ?thesis
  proof (cases r)
    case (Ok user)
    with Pair obtain token claims where "bearer = Some token"
      "env_jwt_decode E (ac_jwt_signing_secret (as_config state)) token (env_time E (w_io w)) = Some claims"
      "find_row (\<lambda>r. u_id r = cl_sub claims) (db_users (w_db w)) = Some user" "u_is_active user"
      by (auto elim: from_request_parts_OkE)
    with assms have "u_role user \<noteq> Admin"
      by (auto simp: admin_bearer_def dest: find_row_SomeD)
    then show ?thesis
      using Pair Ok world by (auto simp: turned_away_def as_admin_def bindM_apply require_role_def)
  next
    case (Err e)
    then show ?thesis
      using Pair world from_request_parts_Err [of E state bearer w e]
      by (auto simp: turned_away_def as_admin_def bindM_apply)
  next
    case Panic
    then show ?thesis using Pair from_request_parts_no_panic [of E state bearer w] by simp
  qed
qed

text \<open>C22: the administrative API is closed to everyone else. Unless the request carries a valid
  token of an active user who is an administrator in the database now, every administrative
  handler answers 401, 403 (or 500 when the database fails) and leaves the database, the
  files, the mails and the outgoing requests as they were, whatever the request asks for.\<close>

theorem admin_routes_turn_away:
  assumes "\<not> admin_bearer E state b w"
  shows "turned_away (list_users E state b inc) w \<and> turned_away (create_user E state b nu) w \<and>
    turned_away (update_user E state b i uu) w \<and> turned_away (deactivate_user E state b i) w \<and>
    turned_away (departments_route_create E state b nd) w \<and>
    turned_away (departments_route_update E state b i ud) w \<and>
    turned_away (departments_route_delete E state b i) w \<and>
    turned_away (departments_route_upload_logo E state b i hs body) w \<and>
    turned_away (departments_route_remove_logo E state b i) w \<and>
    turned_away (update_settings E state b us) w \<and> turned_away (settings_upload_logo E state b hs body) w \<and>
    turned_away (settings_remove_logo E state b) w \<and> turned_away (catalog_route_create E state b ni) w \<and>
    turned_away (catalog_route_update E state b i ui) w \<and> turned_away (catalog_route_deactivate E state b i) w \<and>
    turned_away (definitions_route_list E state b pub) w \<and> turned_away (definitions_route_create E state b nw) w \<and>
    turned_away (publish E state b i) w \<and> turned_away (unpublish E state b i) w \<and>
    turned_away (list_audit_log E state b p n) w"
  unfolding list_users_def create_user_def update_user_def deactivate_user_def
    departments_route_create_def departments_route_update_def departments_route_delete_def
    departments_route_upload_logo_def departments_route_remove_logo_def update_settings_def
    settings_upload_logo_def settings_remove_logo_def catalog_route_create_def
    catalog_route_update_def catalog_route_deactivate_def definitions_route_list_def
    definitions_route_create_def publish_def unpublish_def list_audit_log_def
  by (intro conjI as_admin_turned_away assms)

lemmas found_row = find_row_SomeD find_row_SomeD [OF sym]

text \<open>The user a response is about is active in the database the handler read.\<close>

lemma token_response_user:
  "token_response E state user w = (Ok t, w') \<Longrightarrow> up_id (tr_user t) = u_id user"
  by (auto simp: token_response_def user_profile_from_def elim!: bindM_OkE)

lemma redeem_refresh_token_users:
  "redeem_refresh_token E tok w = (Ok i, w') \<Longrightarrow> db_users (w_db w') = db_users (w_db w)"
  by (auto simp: redeem_refresh_token_def sessions_revoke_stmt_def query_def
      elim!: bindM_OkE sql_OkE dest!: ok_or_OkD)

lemma inactive_not_returned:
  assumes "db_wf E d" "u \<in> set (db_users d)" "\<not> u_is_active u" "v \<in> set (db_users d)" "u_is_active v"
  shows "u_id v \<noteq> u_id u"
  using assms by (auto simp: db_wf_def users_ok_def dest: uniq_eqD)

section \<open>Signing a user out everywhere\<close>

lemma sql_Ok_world:
  "sql E s w = (Ok x, w') \<Longrightarrow>
   w' = w\<lparr>w_io := Suc (w_io w), w_db := snd (s (env_time E (w_io w)) (w_db w))\<rparr>"
  by (erule sql_OkE) simp

text \<open>No session of the user is live.\<close>

definition signed_out :: "uuid \<Rightarrow> db \<Rightarrow> bool" where
  "signed_out i d \<longleftrightarrow> (\<forall>s \<in> set (db_sessions d). ss_user_id s = i \<longrightarrow> ss_revoked_at s \<noteq> None)"

lemma revoke_all_signed_out:
  assumes "revoke_all_sessions E i w = (Ok (), w')"
  shows "signed_out i (w_db w')" "db_users (w_db w') = db_users (w_db w)"
    "db_password_resets (w_db w') = db_password_resets (w_db w)" "db_audit (w_db w') = db_audit (w_db w)"
  using sql_Ok_world [OF assms [unfolded revoke_all_sessions_def map_err_Ok_iff]]
  by (simp_all add: sessions_revoke_all_stmt_def signed_out_def ball_update_rows)

lemma signed_out_no_refresh:
  assumes "signed_out i (w_db w)" "redeem_refresh_token E tok w = (Ok j, w')"
  shows "j \<noteq> i"
  using assms
  by (auto simp: redeem_refresh_token_def sessions_find_live_def signed_out_def
      eq_commute [of "Some _" "map_option _ _"] elim!: bindM_OkE dest!: ok_or_OkD sql_query_Ok find_row_SomeD)
    (metis option.distinct(1))

lemma hash_password_Ok:
  "hash_password E pw w = (Ok h, w') \<Longrightarrow> (\<exists>salt. env_argon2_hash E salt pw = Some h) \<and> w_db w' = w_db w"
  by (auto simp: hash_password_def random_bytes_def elim!: bindM_OkE dest!: ok_or_OkD)

lemma touched_user:
  "u_id (touched user_stamp now f r) = u_id (f r)"
  "u_password_hash (touched user_stamp now f r) = u_password_hash (f r)"
  "u_is_active (touched user_stamp now f r) = u_is_active (f r)"
  by (simp_all add: touched_proj)

lemma set_password_hash_Ok:
  assumes "users_set_password_hash E i h w = (Ok (), w')"
  shows "\<forall>u \<in> set (db_users (w_db w')). u_id u = i \<longrightarrow> u_password_hash u = Some h"
    "filter (\<lambda>u. u_id u \<noteq> i) (db_users (w_db w')) = filter (\<lambda>u. u_id u \<noteq> i) (db_users (w_db w))"
    "db_password_resets (w_db w') = db_password_resets (w_db w)"
  using sql_Ok_world [OF assms [unfolded users_set_password_hash_def]]
  by (simp_all add: users_set_password_hash_stmt_def ball_update_rows touched_user filter_update_rows)

lemma redeem_password_reset_token_users:
  "redeem_password_reset_token E tok w = (Ok i, w') \<Longrightarrow> db_users (w_db w') = db_users (w_db w)"
  by (auto simp: redeem_password_reset_token_def password_resets_use_stmt_def query_def
      elim!: bindM_OkE sql_OkE dest!: ok_or_OkD)

lemma audit_record_Ok:
  "audit_record E entry w = (Ok x, w') \<Longrightarrow>
   db_users (w_db w') = db_users (w_db w) \<and> db_sessions (w_db w') = db_sessions (w_db w) \<and>
   (\<exists>e. db_audit (w_db w') = db_audit (w_db w) @ [e] \<and>
      al_actor_user_id e = nal_actor_user_id entry \<and> al_action e = nal_action entry \<and>
      al_entity_id e = nal_entity_id entry)"
  by (auto simp: audit_record_def audit_record_stmt_def insert_if_def new_uuid_def
      elim!: bindM_OkE sql_OkE split: if_splits)

text \<open>A successful deactivation was made by another user who is an active administrator; it
  leaves the account inactive and signed out everywhere, and adds one entry to the audit log
  that names the administrator and the account.\<close>

lemma deactivate_user_effect:
  assumes "deactivate_user E state b i w = (Ok (), w')"
  shows "\<exists>a e. a \<in> set (db_users (w_db w)) \<and> u_role a = Admin \<and> u_is_active a \<and> u_id a \<noteq> i \<and>
    (\<forall>u \<in> set (db_users (w_db w')). u_id u = i \<longrightarrow> \<not> u_is_active u) \<and> signed_out i (w_db w') \<and>
    db_audit (w_db w') = db_audit (w_db w) @ [e] \<and> al_actor_user_id e = Some (u_id a) \<and>
    al_action e = ''user.deactivate'' \<and> al_entity_id e = Some (env_uuid_str E i)"
proof -
  obtain a w1 w2 w3 where a: "from_request_parts E state b w = (Ok a, w1)" "u_role a = Admin" "u_id a \<noteq> i"
    and deact: "users_deactivate E i w1 = (Ok (), w2)"
    and revoke: "revoke_all_sessions E i w2 = (Ok (), w3)"
    and audit: "audit_user_action E a ''user.deactivate'' i None w3 = (Ok (), w')"
    using assms unfolding deactivate_user_def as_admin_def require_role_def guardM_def
    by (auto elim!: bindM_OkE split: if_splits)
  have "a \<in> set (db_users (w_db w))" "u_is_active a" "w_db w1 = w_db w"
    using a(1) by (auto elim!: from_request_parts_OkE dest: find_row_SomeD)
  moreover have "\<forall>u \<in> set (db_users (w_db w2)). u_id u = i \<longrightarrow> \<not> u_is_active u"
    "db_audit (w_db w2) = db_audit (w_db w1)"
    using sql_Ok_world [OF deact [unfolded users_deactivate_def]]
    by (simp_all add: users_deactivate_stmt_def ball_update_rows touched_user)
  ultimately show ?thesis
    using a revoke_all_signed_out [OF revoke]
      audit_record_Ok [of E _ w3 "()" w', OF audit [unfolded audit_user_action_def, simplified]]
    by (auto simp: signed_out_def)
qed

section \<open>The audit log and single requests\<close>

lemma clamp_page_size: "1 \<le> sint (clamp_i64 1 MAX_PAGE_SIZE x) \<and> sint (clamp_i64 1 MAX_PAGE_SIZE x) \<le> 200"
  by (auto simp: clamp_i64_def MAX_PAGE_SIZE_def word_sless_alt)

text \<open>A page of the audit log that the API returns is number 1 or later and has at most as
  many entries as its page size, which is between 1 and 200 whatever the caller asked for.
  Reading it changes nothing.\<close>

lemma audit_page_bounds:
  assumes "list_audit_log E state b page_asked size_asked w = (Ok p, w')"
  shows "1 \<le> sint (ap_page p) \<and> 1 \<le> sint (ap_page_size p) \<and> sint (ap_page_size p) \<le> 200 \<and>
    int (length (ap_entries p)) \<le> sint (ap_page_size p) \<and>
    set (ap_entries p) \<subseteq> set (db_audit (w_db w)) \<and> w_db w' = w_db w"
proof -
  define page where "page = max_i64 (unwrap_or 1 page_asked) 1"
  define size where "size = clamp_i64 1 MAX_PAGE_SIZE (unwrap_or DEFAULT_PAGE_SIZE size_asked)"
  obtain a w1 w2 total entries where a: "from_request_parts E state b w = (Ok a, w1)"
    and count: "audit_count E w1 = (Ok total, w2)"
    and entries: "audit_list E (page - 1) size w2 = (Ok entries, w')"
    and p: "p = \<lparr>ap_entries = entries, ap_page = page, ap_page_size = size, ap_total = total\<rparr>"
    using assms unfolding list_audit_log_def as_admin_def require_role_def guardM_def Let_def
    by (auto elim!: bindM_OkE simp: page_def size_def split: if_splits)
  have "w_db w1 = w_db w" using a by (auto elim!: from_request_parts_OkE)
  moreover have "w_db w2 = w_db w1" using count by (auto simp: audit_count_def dest: sql_query_Ok)
  moreover have "w_db w' = w_db w2 \<and> length entries \<le> unat size \<and> set entries \<subseteq> set (db_audit (w_db w2))"
    using entries by (auto simp: audit_list_def audit_list_stmt_def Let_def audit_order_def elim!: sql_OkE
        split: if_splits dest!: in_set_takeD in_set_dropD)
  moreover have size: "1 \<le> sint size" "sint size \<le> 200"
    using clamp_page_size by (simp_all add: size_def)
  moreover have "length entries \<le> unat size \<longrightarrow> int (length entries) \<le> sint size"
  proof -
    have "uint size = sint size" using size by (simp add: uint_sint take_bit_int_eq_self)
    then have "unat size = nat (sint size)" by (simp only: unat_eq_nat_uint)
    then show ?thesis using size(1) by linarith
  qed
  moreover have "1 \<le> sint page" by (auto simp: page_def max_i64_def word_sle_eq)
  ultimately show ?thesis by (simp add: p)
qed

lemma get_one_access:
  assumes "get_one E state b i w = (Ok r, w')"
  obtains u where "u \<in> set (db_users (w_db w))" "u_is_active u"
    "wi_requester_user_id r = u_id u \<or> u_role u \<in> {Admin, Agent}"
    "r \<in> set (db_instances (w_db w))" "wi_id r = i"
  using assms unfolding get_one_def instances_get_by_id_def
  by (auto simp: is_staff_def elim!: bindM_OkE from_request_parts_OkE
      dest!: ok_or_OkD sql_query_Ok found_row split: if_splits)

section \<open>Witnesses\<close>

definition sample_state :: AppState where
  "sample_state = \<lparr>as_config = sample_app_config, as_connectors = deps_connectors sample_deps,
     as_notifier = LoggingNotifier, as_mailer = None, as_uploads_dir = ''up'', as_sso = None\<rparr>"

definition admin_world :: world where
  "admin_world = sample_world\<lparr>w_db := sample_db\<lparr>db_users := [sample_manager\<lparr>u_role := Admin\<rparr>, sample_requester]\<rparr>\<rparr>"

definition inactive_world :: world where
  "inactive_world = sample_world\<lparr>w_db := sample_db\<lparr>db_users := [sample_manager\<lparr>u_is_active := False\<rparr>, sample_requester]\<rparr>\<rparr>"

lemma inactive_world_wf: "db_wf E0 (w_db inactive_world)"
  by (simp add: inactive_world_def db_wf_def table_ok_defs sample_defs uniq_def uniq_opt_def sample_env_def)

theorem admin_routes_turn_away_witness:
  "turned_away (deactivate_user E0 sample_state (Some ''1s'') 2) sample_world \<and>
   turned_away (publish E0 sample_state (Some ''1s'') 3) sample_world"
proof -
  have "\<not> admin_bearer E0 sample_state (Some ''1s'') sample_world"
    by (auto simp: admin_bearer_def sample_world_def sample_defs)
  then show ?thesis using admin_routes_turn_away by blast
qed

lemmas admin_eval = as_admin_def from_request_parts_def verify_access_token_def users_get_by_id_def
  require_role_def active_user_def admin_world_def sample_state_def sample_app_config_def

lemma deactivate_user_effect_example:
  "\<exists>w' e. deactivate_user E0 sample_state (Some ''1s'') 2 admin_world = (Ok (), w') \<and>
     db_audit (w_db w') = [e] \<and> al_action e = ''user.deactivate''"
proof -
  obtain w' where ok: "deactivate_user E0 sample_state (Some ''1s'') 2 admin_world = (Ok (), w')"
    by (simp add: deactivate_user_def admin_eval users_deactivate_def users_deactivate_stmt_def
        revoke_all_sessions_def sessions_revoke_all_stmt_def audit_user_action_def audit_record_def
        audit_record_stmt_def insert_if_def new_uuid_def touched_def sample_defs token_eval)
  show ?thesis
    using ok deactivate_user_effect [OF ok] by (auto simp: admin_world_def sample_defs)
qed

lemma audit_page_bounds_example:
  "\<exists>p w'. list_audit_log E0 sample_state (Some ''1s'') (Some (-3)) (Some 5000) admin_world = (Ok p, w') \<and>
     sint (ap_page_size p) \<le> 200 \<and> 1 \<le> sint (ap_page p)"
proof -
  obtain p w' where ok: "list_audit_log E0 sample_state (Some ''1s'') (Some (-3)) (Some 5000) admin_world = (Ok p, w')"
    by (simp add: list_audit_log_def admin_eval audit_count_def audit_list_def audit_list_stmt_def
        audit_offset_def max_i64_def clamp_i64_def MAX_PAGE_SIZE_def unwrap_or_def word_sless_alt
        word_sle_eq sample_defs token_eval)
  show ?thesis using ok audit_page_bounds [OF ok] by blast
qed

end
