(* ===== verification/Startup.thy ===== *)
theory Startup
  imports Catalog_Seed Api_Routes
begin

text \<open>
  \<^verbatim>\<open>src/crates/server/src/main.rs\<close>: what the server does before it listens. Connecting to the
  database, its migrations and the seed file's items are arguments; the listener and the
  shutdown signal are axum's and tokio's. The state of the handlers (\<open>AppState\<close>) is what
  \<open>start_up\<close> returns; what it leaves in the database is shown in theory Launch.

  Shown: the bootstrap administrator is created at most once and never next to another
  administrator.
\<close>

datatype startup_error =
    StartupConfig config_error
  | StartupDb DbError
  | StartupApi ApiError
  | StartupMailer MailerBuildError

definition bootstrap_admin :: "env \<Rightarrow> AppConfig \<Rightarrow> (startup_error, unit) act" where
  "bootstrap_admin E config =
     (case (ac_bootstrap_admin_email config, ac_bootstrap_admin_password config) of
        (Some email, Some password) \<Rightarrow>
          bindM (map_err StartupDb (users_get_by_email E email)) (\<lambda>existing.
          if existing \<noteq> None then return ()
          else
            bindM (map_err StartupDb (users_list E True)) (\<lambda>users.
            if \<not> (\<forall>u \<in> set users. u_role u \<noteq> Admin) then return ()
            else
              bindM (map_err StartupApi (hash_password E password)) (\<lambda>password_hash.
              bindM (map_err StartupDb (users_create E
                       \<lparr>nu_email = email, nu_display_name = ''Bootstrap Administrator'',
                        nu_password = None, nu_external_idp_subject = None, nu_department_id = None,
                        nu_manager_user_id = None, nu_role = Admin\<rparr> (Some password_hash))) (\<lambda>_.
              return ()))))
      | _ \<Rightarrow> return ())"

definition auto_seed_catalog :: "env \<Rightarrow> SeedItem list \<Rightarrow> (startup_error, unit) act" where
  "auto_seed_catalog E items =
     bindM (map_err StartupDb (catalog_list E True)) (\<lambda>existing.
     if existing \<noteq> [] then return ()
     else
       bindM (map_err StartupDb (users_list E True)) (\<lambda>users.
       case List.find (\<lambda>u. u_role u = Admin) users of
         None \<Rightarrow> return ()
       | Some admin \<Rightarrow> bindM (map_err StartupApi (seed_run E items (u_id admin))) (\<lambda>_. return ())))"

definition notifier_of :: "Mailer option \<Rightarrow> ApprovalNotifier" where
  "notifier_of mailer = (case mailer of Some m \<Rightarrow> SmtpNotifier m | None \<Rightarrow> default_notifier)"

text \<open>\<^verbatim>\<open>connect_and_migrate\<close> (\<^verbatim>\<open>crates/db/src/lib.rs\<close>): opening a pool of ten connections and running
  the embedded migrations are sqlx's.\<close>

definition connect_and_migrate ::
    "(nat \<Rightarrow> string \<Rightarrow> (sqlx_error, unit) act) \<Rightarrow> (string, unit) act \<Rightarrow> string \<Rightarrow> (DbError, unit) act" where
  "connect_and_migrate connect migrate database_url =
     bindM (map_err Sqlx (connect 10 database_url)) (\<lambda>_.
     bindM (map_err Migrate migrate) (\<lambda>_.
     return ()))"

definition mailer_of :: "env \<Rightarrow> AppConfig \<Rightarrow> (startup_error, Mailer option) act" where
  "mailer_of E config =
     (case ac_smtp config of
        None \<Rightarrow> return None
      | Some smtp \<Rightarrow>
          bindM (map_err StartupMailer (lift_sum (mailer_new E
                   \<lparr>mc_host = smtp_host smtp, mc_port = smtp_port smtp, mc_security = smtp_security smtp,
                    mc_username = smtp_username smtp, mc_password = smtp_password smtp,
                    mc_from_address = smtp_from_address smtp, mc_from_name = smtp_from_name smtp,
                    mc_app_base_url = ac_app_base_url config\<rparr>))) (\<lambda>mailer.
          return (Some mailer)))"

definition app_state :: "AppConfig \<Rightarrow> Mailer option \<Rightarrow> AppState" where
  "app_state config mailer =
     \<lparr>as_config = config, as_connectors = registry_from_config (ac_connectors config),
      as_notifier = notifier_of mailer, as_mailer = mailer, as_uploads_dir = ac_uploads_dir config,
      as_sso = ac_sso config\<rparr>"

text \<open>\<^verbatim>\<open>SsoService::new\<close>: a process begins without pending logins, handoff codes or cached keys.\<close>

definition sso_service_new :: "('e, unit) act" where
  "sso_service_new w = (Ok (), w\<lparr>w_pending_logins := Map.empty, w_handoff_codes := Map.empty, w_jwks := None\<rparr>)"

definition start_up ::
    "env \<Rightarrow> (string \<Rightarrow> string option) \<Rightarrow> vars \<Rightarrow> (nat \<Rightarrow> string \<Rightarrow> (sqlx_error, unit) act) \<Rightarrow>
     (string, unit) act \<Rightarrow> SeedItem list \<Rightarrow> (startup_error, AppState) act" where
  "start_up E parse_addr vars connect migrate items =
     bindM (map_err StartupConfig (lift_sum (from_env parse_addr vars))) (\<lambda>config.
     bindM (map_err StartupDb (connect_and_migrate connect migrate (ac_database_url config))) (\<lambda>_.
     bindM (bootstrap_admin E config) (\<lambda>_.
     bindM (auto_seed_catalog E items) (\<lambda>_.
     bindM (map_err StartupDb (org_settings_seed_default E (ac_bootstrap_app_name config)
              (ac_bootstrap_allow_local_signup config))) (\<lambda>_.
     bindM (mailer_of E config) (\<lambda>mailer.
     bindM (case ac_sso config of None \<Rightarrow> return () | Some sso_config \<Rightarrow> sso_service_new) (\<lambda>_.
     return (app_state config mailer))))))))"

lemma sso_service_new_keeps [keeps_intros]: "keeps (\<lambda>w. I (w_db w)) sso_service_new"
  by (simp add: keeps_def sso_service_new_def)

lemma startup_via_steps [keeps_intros]:
  "keeps (\<lambda>w. (db_step E)\<^sup>*\<^sup>* d0 (w_db w)) (bootstrap_admin E config)"
  "keeps (\<lambda>w. (db_step E)\<^sup>*\<^sup>* d0 (w_db w)) (auto_seed_catalog E items)"
  unfolding bootstrap_admin_def auto_seed_catalog_def by (intro keeps_intros)+

section \<open>The bootstrap administrator\<close>

lemma users_create_appends:
  assumes "users_create E new h w = (Ok u, w')"
  shows "db_users (w_db w') = db_users (w_db w) @ [u] \<and> u_role u = nu_role new \<and>
    u_email u = nu_email new \<and> u_password_hash u = h \<and> u_is_active u"
  using assms unfolding users_create_def users_get_by_id_def
  by (auto simp: new_uuid_def users_create_stmt_def insert_if_def find_row_append find_row_fresh
      elim!: bindM_OkE sql_OkE dest!: ok_or_OkD sql_query_Ok split: if_splits)

text \<open>The bootstrap leaves the accounts alone, or adds the one administrator the configuration
  names; the latter only when no account has the administrator role, active or not.\<close>

lemma bootstrap_admin_effect:
  assumes "bootstrap_admin E config w = (Ok (), w')"
  shows "db_users (w_db w') = db_users (w_db w) \<or>
    (\<exists>u. db_users (w_db w') = db_users (w_db w) @ [u] \<and> u_role u = Admin \<and> u_is_active u \<and>
       Some (u_email u) = ac_bootstrap_admin_email config \<and>
       (\<forall>v \<in> set (db_users (w_db w)). u_role v \<noteq> Admin))"
proof (cases "ac_bootstrap_admin_email config"; cases "ac_bootstrap_admin_password config")
  fix email password
  assume cfg: "ac_bootstrap_admin_email config = Some email" "ac_bootstrap_admin_password config = Some password"
  have "w' = w \<or> w_db w' = w_db w \<or> (\<exists>h w1 u. w_db w1 = w_db w \<and>
      (\<forall>v \<in> set (db_users (w_db w)). u_role v \<noteq> Admin) \<and>
      users_create E \<lparr>nu_email = email, nu_display_name = ''Bootstrap Administrator'',
        nu_password = None, nu_external_idp_subject = None, nu_department_id = None,
        nu_manager_user_id = None, nu_role = Admin\<rparr> (Some h) w1 = (Ok u, w'))"
    using assms unfolding bootstrap_admin_def cfg users_get_by_email_def users_list_def
    by (auto elim!: bindM_OkE dest!: sql_query_Ok hash_password_Ok split: if_splits)
  then show ?thesis using cfg by (auto dest!: users_create_appends)
qed (use assms in \<open>auto simp: bootstrap_admin_def\<close>)

end
