(* ===== verification/Sso.thy ===== *)
theory Sso
  imports Api_Routes
begin

text \<open>
  \<^verbatim>\<open>src/crates/server/src/sso.rs\<close> and \<^verbatim>\<open>routes/sso.rs\<close>: sign-in through Entra ID with the
  authorization-code flow and PKCE. The service's two in-memory maps and its key cache are
  fields of the world; a lock section is one atomic step. Building URLs, the SHA-256 challenge
  and the validation of RS256 tokens are the environment's; clock readings inside one lock
  section coincide.

  Shown: a login attempt and a handoff code can each be used once, as long as the random
  source does not repeat itself; an identity comes only from a token that was validated for
  this application and carries the nonce of a recent login attempt.
\<close>

section \<open>sso.rs\<close>

text \<open>Durations in nanoseconds.\<close>

definition seconds :: "nat \<Rightarrow> nat" where
  "seconds n = n * 1000000000"

definition PENDING_LOGIN_TTL :: nat where
  "PENDING_LOGIN_TTL = seconds (10 * 60)"

definition HANDOFF_CODE_TTL :: nat where
  "HANDOFF_CODE_TTL = seconds 60"

definition JWKS_CACHE_TTL :: nat where
  "JWKS_CACHE_TTL = seconds 3600"

record AuthenticatedIdentity =
  ai_external_idp_subject :: string
  ai_email :: string
  ai_display_name :: string

definition microsoft :: string where
  "microsoft = ''https://login.microsoftonline.com/''"

definition authorize_endpoint :: "AzureSsoConfig \<Rightarrow> string" where
  "authorize_endpoint config = microsoft @ az_tenant_id config @ ''/oauth2/v2.0/authorize''"

definition token_endpoint :: "AzureSsoConfig \<Rightarrow> string" where
  "token_endpoint config = microsoft @ az_tenant_id config @ ''/oauth2/v2.0/token''"

definition jwks_endpoint :: "AzureSsoConfig \<Rightarrow> string" where
  "jwks_endpoint config = microsoft @ az_tenant_id config @ ''/discovery/v2.0/keys''"

definition expected_issuer :: "AzureSsoConfig \<Rightarrow> string" where
  "expected_issuer config = microsoft @ az_tenant_id config @ ''/v2.0''"

definition random_token :: "env \<Rightarrow> nat \<Rightarrow> ('e, string) act" where
  "random_token E bytes = random_bytes E bytes"

definition instant_now :: "env \<Rightarrow> ('e, nat) act" where
  "instant_now E w = (Ok (env_instant E (w_io w)), w)"

text \<open>\<^verbatim>\<open>Instant::elapsed\<close> saturates at zero, as subtraction of naturals does.\<close>

definition sweep_expired :: "nat \<Rightarrow> nat \<Rightarrow> ('v \<Rightarrow> nat) \<Rightarrow> (string \<rightharpoonup> 'v) \<Rightarrow> (string \<rightharpoonup> 'v)" where
  "sweep_expired now ttl created_at m =
     (\<lambda>k. case m k of None \<Rightarrow> None | Some v \<Rightarrow> if now - created_at v < ttl then Some v else None)"

definition add_pending_login :: "env \<Rightarrow> string \<Rightarrow> string \<Rightarrow> string \<Rightarrow> ('e, unit) act" where
  "add_pending_login E state pkce_verifier nonce w =
     (let now = env_instant E (w_io w) in
      (Ok (), w\<lparr>w_pending_logins := (sweep_expired now PENDING_LOGIN_TTL pl_created_at (w_pending_logins w))
         (state \<mapsto> \<lparr>pl_pkce_verifier = pkce_verifier, pl_nonce = nonce, pl_created_at = now\<rparr>)\<rparr>))"

definition begin_login :: "env \<Rightarrow> AzureSsoConfig \<Rightarrow> ('e, string) act" where
  "begin_login E config =
     bindM (random_token E 32) (\<lambda>state.
     bindM (random_token E 32) (\<lambda>nonce.
     bindM (random_token E 64) (\<lambda>pkce_verifier.
     bindM (add_pending_login E state pkce_verifier nonce) (\<lambda>_.
     return (env_url_with_query E (authorize_endpoint config)
       [(''client_id'', az_client_id config), (''response_type'', ''code''),
        (''redirect_uri'', az_redirect_uri config), (''response_mode'', ''query''),
        (''scope'', ''openid profile email''), (''state'', state), (''nonce'', nonce),
        (''code_challenge'', env_pkce_challenge E pkce_verifier),
        (''code_challenge_method'', ''S256'')])))))"

definition cached_jwk :: "env \<Rightarrow> string \<Rightarrow> ('e, Jwk option) act" where
  "cached_jwk E kid w =
     (Ok (case w_jwks w of
        None \<Rightarrow> None
      | Some (fetched_at, keys) \<Rightarrow>
          if env_instant E (w_io w) - fetched_at > JWKS_CACHE_TTL then None
          else List.find (\<lambda>k. jwk_kid k = kid) keys), w)"

definition refresh_jwks :: "env \<Rightarrow> AzureSsoConfig \<Rightarrow> (ApiError, unit) act" where
  "refresh_jwks E config =
     bindM (map_err (\<lambda>_. Internal) (http_send E
              \<lparr>hr_method = ''GET'', hr_url = jwks_endpoint config, hr_basic_auth = None,
               hr_bearer_auth = None, hr_headers = [], hr_body = None, hr_form = []\<rparr>)) (\<lambda>response.
     bindM (ok_or Internal (case hs_body response of None \<Rightarrow> None | Some j \<Rightarrow> env_jwks_of_json E j)) (\<lambda>keys.
     bindM (instant_now E) (\<lambda>now w. (Ok (), w\<lparr>w_jwks := Some (now, keys)\<rparr>))))"

text \<open>A decoding key is the RSA key it is made from.\<close>

definition from_rsa_components :: "env \<Rightarrow> Jwk \<Rightarrow> (ApiError, Jwk) act" where
  "from_rsa_components E jwk = bindM (guardM (env_rsa_ok E (jwk_n jwk) (jwk_e jwk)) Internal) (\<lambda>_. return jwk)"

definition signing_key :: "env \<Rightarrow> AzureSsoConfig \<Rightarrow> string \<Rightarrow> (ApiError, Jwk) act" where
  "signing_key E config kid =
     bindM (cached_jwk E kid) (\<lambda>cached.
     case cached of
       Some jwk \<Rightarrow> from_rsa_components E jwk
     | None \<Rightarrow>
         bindM (refresh_jwks E config) (\<lambda>_.
         bindM (cached_jwk E kid) (\<lambda>r.
         bindM (ok_or Unauthorized r) (from_rsa_components E))))"

definition validate_id_token :: "env \<Rightarrow> AzureSsoConfig \<Rightarrow> string \<Rightarrow> (ApiError, IdTokenClaims) act" where
  "validate_id_token E config id_token =
     bindM (ok_or Unauthorized (env_jwt_kid E id_token)) (\<lambda>header.
     bindM (ok_or Unauthorized header) (\<lambda>kid.
     bindM (signing_key E config kid) (\<lambda>decoding_key.
     bindM (utc_now E) (\<lambda>now.
     ok_or Unauthorized (env_id_token_decode E decoding_key (az_client_id config)
       (expected_issuer config) now id_token)))))"

definition take_pending_login :: "env \<Rightarrow> string \<Rightarrow> (ApiError, PendingLogin) act" where
  "take_pending_login E state w =
     (let m = sweep_expired (env_instant E (w_io w)) PENDING_LOGIN_TTL pl_created_at (w_pending_logins w) in
      case m state of
        None \<Rightarrow> (Err (BadRequest ''sign-in session expired or invalid; please try again''),
                 w\<lparr>w_pending_logins := m\<rparr>)
      | Some p \<Rightarrow> (Ok p, w\<lparr>w_pending_logins := m(state := None)\<rparr>))"

definition complete_login ::
    "env \<Rightarrow> AzureSsoConfig \<Rightarrow> string \<Rightarrow> string \<Rightarrow> (ApiError, AuthenticatedIdentity) act" where
  "complete_login E config code state =
     bindM (take_pending_login E state) (\<lambda>pending.
     bindM (map_err (\<lambda>_. Internal) (http_send E
              \<lparr>hr_method = ''POST'', hr_url = token_endpoint config, hr_basic_auth = None,
               hr_bearer_auth = None, hr_headers = [], hr_body = None,
               hr_form = [(''client_id'', az_client_id config),
                 (''client_secret'', az_client_secret config), (''grant_type'', ''authorization_code''),
                 (''code'', code), (''redirect_uri'', az_redirect_uri config),
                 (''code_verifier'', pl_pkce_verifier pending)]\<rparr>)) (\<lambda>response.
     if \<not> is_success (hs_status response) then fail Unauthorized
     else
       bindM (ok_or Internal (case hs_body response of None \<Rightarrow> None | Some j \<Rightarrow> env_id_token_of_json E j)) (\<lambda>id_token.
       bindM (validate_id_token E config id_token) (\<lambda>claims.
       if it_nonce claims \<noteq> Some (pl_nonce pending) then fail Unauthorized
       else
         bindM (ok_or Internal (case it_email claims of None \<Rightarrow> it_preferred_username claims | Some e \<Rightarrow> Some e)) (\<lambda>email.
         return \<lparr>ai_external_idp_subject = it_oid claims, ai_email = email,
                 ai_display_name = unwrap_or email (it_name claims)\<rparr>)))))"

definition issue_handoff_code :: "env \<Rightarrow> uuid \<Rightarrow> ('e, string) act" where
  "issue_handoff_code E user_id =
     bindM (random_token E 32) (\<lambda>code w.
       let now = env_instant E (w_io w) in
       (Ok code, w\<lparr>w_handoff_codes := (sweep_expired now HANDOFF_CODE_TTL hc_created_at (w_handoff_codes w))
          (code \<mapsto> \<lparr>hc_user_id = user_id, hc_created_at = now\<rparr>)\<rparr>))"

definition redeem_handoff_code :: "env \<Rightarrow> string \<Rightarrow> (ApiError, uuid) act" where
  "redeem_handoff_code E code w =
     (let m = sweep_expired (env_instant E (w_io w)) HANDOFF_CODE_TTL hc_created_at (w_handoff_codes w) in
      (case m code of None \<Rightarrow> Err Unauthorized | Some c \<Rightarrow> Ok (hc_user_id c),
       w\<lparr>w_handoff_codes := m(code := None)\<rparr>))"

section \<open>routes/sso.rs\<close>

definition sso_not_configured :: ApiError where
  "sso_not_configured = ApiNotFound ''single sign-on is not configured''"

text \<open>The result of the two browser routes is the location they redirect to.\<close>

definition sso_login :: "env \<Rightarrow> AppState \<Rightarrow> (ApiError, string) act" where
  "sso_login E state =
     bindM (ok_or sso_not_configured (as_sso state)) (begin_login E)"

definition provision_or_link_user :: "env \<Rightarrow> AuthenticatedIdentity \<Rightarrow> (ApiError, User) act" where
  "provision_or_link_user E identity =
     bindM (map_err api_of_db (users_get_by_external_idp_subject E (ai_external_idp_subject identity))) (\<lambda>known.
     case known of
       Some user \<Rightarrow> return user
     | None \<Rightarrow>
         bindM (map_err api_of_db (users_get_by_email E (ai_email identity))) (\<lambda>by_email.
         case by_email of
           Some user \<Rightarrow>
             if u_external_idp_subject user \<noteq> None
             then fail (Conflict ''this email is already linked to a different sign-in method'')
             else
               bindM (map_err api_of_db (users_link_external_idp_subject E (u_id user)
                        (ai_external_idp_subject identity)))
                 (ok_or (ApiNotFound ''user not found''))
         | None \<Rightarrow>
             map_err api_of_db (users_create E
               \<lparr>nu_email = ai_email identity, nu_display_name = ai_display_name identity,
                nu_password = None, nu_external_idp_subject = Some (ai_external_idp_subject identity),
                nu_department_id = None, nu_manager_user_id = None, nu_role = Requester\<rparr> None)))"

definition sso_callback ::
    "env \<Rightarrow> AppState \<Rightarrow> string option \<Rightarrow> string option \<Rightarrow> string option \<Rightarrow> (ApiError, string) act" where
  "sso_callback E state code state_param error =
     bindM (ok_or sso_not_configured (as_sso state)) (\<lambda>config.
     case error of
       Some _ \<Rightarrow> fail Unauthorized
     | None \<Rightarrow>
         (case (code, state_param) of
            (Some code, Some state_param) \<Rightarrow>
              bindM (complete_login E config code state_param) (\<lambda>identity.
              bindM (provision_or_link_user E identity) (\<lambda>user.
              if \<not> u_is_active user then fail Unauthorized
              else
                bindM (issue_handoff_code E (u_id user)) (\<lambda>handoff_code.
                return (az_frontend_redirect_url config @ ''?code='' @ handoff_code))))
          | _ \<Rightarrow> fail (BadRequest ''missing code/state from Entra ID'')))"

definition sso_token :: "env \<Rightarrow> AppState \<Rightarrow> string \<Rightarrow> (ApiError, TokenResponse) act" where
  "sso_token E state code =
     bindM (ok_or sso_not_configured (as_sso state)) (\<lambda>_.
     bindM (redeem_handoff_code E code) (\<lambda>user_id.
     bindM (map_err api_of_db (users_get_by_id E user_id)) (\<lambda>r.
     bindM (ok_or Unauthorized (active_user r)) (token_response E state))))"

section \<open>Codes that can be used once\<close>

text \<open>The steps of the service's shared state. An operation that awaits an answer acts as the
  steps of its lock sections with other requests' steps in between; \<open>other\<close> is anything that
  leaves both maps alone (the rest of \<open>complete_login\<close>, or any other handler).\<close>

inductive sso_step :: "env \<Rightarrow> AzureSsoConfig \<Rightarrow> world \<Rightarrow> world \<Rightarrow> bool" for E :: env and config :: AzureSsoConfig where
  begun: "(begin_login E config :: (ApiError, string) act) w = (Ok url, w') \<Longrightarrow> sso_step E config w w'"
| take: "take_pending_login E state w = (r, w') \<Longrightarrow> sso_step E config w w'"
| issue: "(issue_handoff_code E user_id :: (ApiError, string) act) w = (Ok code, w') \<Longrightarrow> sso_step E config w w'"
| redeem: "redeem_handoff_code E code w = (r', w') \<Longrightarrow> sso_step E config w w'"
| other: "w_pending_logins w' = w_pending_logins w \<Longrightarrow> w_handoff_codes w' = w_handoff_codes w \<Longrightarrow>
    w_tokens w \<le> w_tokens w' \<Longrightarrow> sso_step E config w w'"

inductive_cases sso_stepE: "sso_step E config w w'"

text \<open>The token was drawn before now.\<close>

definition drawn :: "env \<Rightarrow> world \<Rightarrow> string \<Rightarrow> bool" where
  "drawn E w c \<longleftrightarrow> (\<exists>n < w_tokens w. c = env_random E 32 n)"

locale once_codes =
  fixes E :: env
    and step :: "world \<Rightarrow> world \<Rightarrow> bool"
    and codes :: "world \<Rightarrow> string set"
  assumes step_tokens: "step w w' \<Longrightarrow> w_tokens w \<le> w_tokens w'"
    and step_codes: "step w w' \<Longrightarrow> c \<in> codes w' \<Longrightarrow>
      c \<in> codes w \<or> (\<exists>n. w_tokens w \<le> n \<and> n < w_tokens w' \<and> c = env_random E 32 n)"
begin

lemma drawn_step: "step w w' \<Longrightarrow> drawn E w c \<Longrightarrow> drawn E w' c"
  unfolding drawn_def by (blast dest: step_tokens intro: less_le_trans)

lemma codes_drawn:
  "step\<^sup>*\<^sup>* w w' \<Longrightarrow> (\<And>c. c \<in> codes w \<Longrightarrow> drawn E w c) \<Longrightarrow> c \<in> codes w' \<Longrightarrow> drawn E w' c"
proof (induction arbitrary: c rule: rtranclp_induct)
  case (step v v')
  from step_codes [OF step.hyps(2) step.prems(2)] show ?case
    using step.IH [OF step.prems(1)] drawn_step [OF step.hyps(2)] by (auto simp: drawn_def)
qed

lemma gone_stays_gone:
  assumes distinct: "\<And>m n. env_random E 32 m = env_random E 32 n \<Longrightarrow> m = n"
    and "step\<^sup>*\<^sup>* w w'" "drawn E w c" "c \<notin> codes w"
  shows "c \<notin> codes w'"
proof -
  have "drawn E w' c \<and> c \<notin> codes w'"
    using assms(2-4)
  proof (induction rule: rtranclp_induct)
    case (step v v')
    then have v: "drawn E v c" "c \<notin> codes v" by blast+
    obtain m where m: "m < w_tokens v" "c = env_random E 32 m" using v(1) by (auto simp: drawn_def)
    have "c \<notin> codes v'"
    proof
      assume "c \<in> codes v'"
      then obtain n where n: "w_tokens v \<le> n" "c = env_random E 32 n"
        using step_codes [OF step.hyps(2)] v(2) by blast
      with m distinct [of m n] show False by simp
    qed
    then show ?case using drawn_step [OF step.hyps(2) v(1)] by blast
  qed blast
  then show ?thesis by blast
qed

end

lemma sweep_SomeD:
  "sweep_expired now ttl f m k = Some v \<Longrightarrow> m k = Some v \<and> now - f v < ttl"
  by (auto simp: sweep_expired_def split: option.splits if_splits)

lemma begin_login_maps:
  assumes "begin_login E config w = (Ok url, w')"
  shows "w_handoff_codes w' = w_handoff_codes w" "w_tokens w \<le> w_tokens w'"
    "dom (w_pending_logins w') \<subseteq> insert (env_random E 32 (w_tokens w)) (dom (w_pending_logins w))"
    "w_tokens w < w_tokens w'"
  using assms
  by (auto simp: begin_login_def random_token_def random_bytes_def add_pending_login_def bindM_apply Let_def
      dest!: sweep_SomeD)

lemma take_pending_login_maps:
  assumes "take_pending_login E state w = (r, w')"
  shows "w_handoff_codes w' = w_handoff_codes w" "w_tokens w' = w_tokens w"
    "dom (w_pending_logins w') \<subseteq> dom (w_pending_logins w)" "state \<notin> dom (w_pending_logins w')"
  using assms
  by (auto simp: take_pending_login_def Let_def dest!: sweep_SomeD split: option.splits if_splits)

lemma issue_handoff_code_maps:
  assumes "issue_handoff_code E user_id w = (Ok code, w')"
  shows "w_pending_logins w' = w_pending_logins w" "w_tokens w < w_tokens w'"
    "dom (w_handoff_codes w') \<subseteq> insert (env_random E 32 (w_tokens w)) (dom (w_handoff_codes w))"
  using assms
  by (auto simp: issue_handoff_code_def random_token_def random_bytes_def bindM_apply Let_def
      dest!: sweep_SomeD)

lemma redeem_handoff_code_maps:
  assumes "redeem_handoff_code E code w = (r, w')"
  shows "w_pending_logins w' = w_pending_logins w" "w_tokens w' = w_tokens w"
    "dom (w_handoff_codes w') \<subseteq> dom (w_handoff_codes w)" "code \<notin> dom (w_handoff_codes w')"
  using assms
  by (auto simp: redeem_handoff_code_def Let_def dest!: sweep_SomeD split: option.splits if_splits)

lemmas sso_maps = begin_login_maps take_pending_login_maps issue_handoff_code_maps redeem_handoff_code_maps

lemma sso_step_tokens: "sso_step E config w w' \<Longrightarrow> w_tokens w \<le> w_tokens w'"
  by (erule sso_stepE) (auto dest: sso_maps(2,6,10,13) less_imp_le)

lemma drawn_now:
  "c \<in> S' \<Longrightarrow> S' \<subseteq> insert (env_random E 32 m) S \<Longrightarrow> m < m' \<Longrightarrow>
   c \<in> S \<or> (\<exists>n. m \<le> n \<and> n < m' \<and> c = env_random E 32 n)"
  by blast

interpretation handoff: once_codes E "sso_step E config" "\<lambda>w. dom (w_handoff_codes w)"
proof
  fix w w' c
  assume step: "sso_step E config w w'"
  then show "w_tokens w \<le> w_tokens w'" by (rule sso_step_tokens)
  assume "c \<in> dom (w_handoff_codes w')"
  with step show "c \<in> dom (w_handoff_codes w) \<or>
      (\<exists>n. w_tokens w \<le> n \<and> n < w_tokens w' \<and> c = env_random E 32 n)"
  proof cases
    case (issue user_id code)
    then show ?thesis
      using \<open>c \<in> dom (w_handoff_codes w')\<close> sso_maps(10,11) [OF issue] by (intro drawn_now)
  qed (use \<open>c \<in> dom (w_handoff_codes w')\<close> in \<open>auto dest: sso_maps(1,5,14)\<close>)
qed

interpretation attempt: once_codes E "sso_step E config" "\<lambda>w. dom (w_pending_logins w)"
proof
  fix w w' c
  assume step: "sso_step E config w w'"
  then show "w_tokens w \<le> w_tokens w'" by (rule sso_step_tokens)
  assume "c \<in> dom (w_pending_logins w')"
  with step show "c \<in> dom (w_pending_logins w) \<or>
      (\<exists>n. w_tokens w \<le> n \<and> n < w_tokens w' \<and> c = env_random E 32 n)"
  proof cases
    case (begun url)
    then show ?thesis
      using \<open>c \<in> dom (w_pending_logins w')\<close> sso_maps(3,4) [OF begun] by (intro drawn_now)
  qed (use \<open>c \<in> dom (w_pending_logins w')\<close> in \<open>auto dest: sso_maps(7,9,12)\<close>)
qed

definition sign_in_expired :: ApiError where
  "sign_in_expired = BadRequest ''sign-in session expired or invalid; please try again''"

lemma redeem_handoff_code_OkD:
  "redeem_handoff_code E c w = (Ok u, w1) \<Longrightarrow>
   \<exists>h. w_handoff_codes w c = Some h \<and> hc_user_id h = u \<and>
     env_instant E (w_io w) - hc_created_at h < HANDOFF_CODE_TTL"
  by (auto simp: redeem_handoff_code_def Let_def dest!: sweep_SomeD split: option.splits)

lemma take_pending_login_OkD:
  "take_pending_login E s w = (Ok p, w1) \<Longrightarrow>
   w_pending_logins w s = Some p \<and> env_instant E (w_io w) - pl_created_at p < PENDING_LOGIN_TTL"
  by (auto simp: take_pending_login_def Let_def dest!: sweep_SomeD split: option.splits)

lemma redeem_handoff_code_gone:
  "c \<notin> dom (w_handoff_codes w) \<Longrightarrow> fst (redeem_handoff_code E c w) = Err Unauthorized"
  by (simp add: redeem_handoff_code_def sweep_expired_def Let_def domIff)

lemma take_pending_login_gone:
  "s \<notin> dom (w_pending_logins w) \<Longrightarrow> fst (take_pending_login E s w) = Err sign_in_expired"
  by (simp add: take_pending_login_def sweep_expired_def sign_in_expired_def Let_def domIff)

text \<open>C25: handoff codes and login attempts are single-use. Starting from a freshly started service
  and provided the random source never repeats a token, a code that was redeemed once is
  refused with 401 for ever after, and a \<^verbatim>\<open>state\<close> parameter that completed a callback once is
  refused with 400, whatever requests come in between.\<close>

theorem sso_codes_single_use:
  assumes "\<And>m n. env_random E 32 m = env_random E 32 n \<Longrightarrow> m = n"
    and "w_pending_logins w0 = Map.empty" "w_handoff_codes w0 = Map.empty"
    and "(sso_step E config)\<^sup>*\<^sup>* w0 w" "(sso_step E config)\<^sup>*\<^sup>* w1 w2"
  shows "(redeem_handoff_code E c w = (Ok u, w1) \<longrightarrow> fst (redeem_handoff_code E c w2) = Err Unauthorized) \<and>
    (take_pending_login E s w = (Ok p, w1) \<longrightarrow> fst (take_pending_login E s w2) = Err sign_in_expired)"
proof (intro conjI impI)
  assume ok: "redeem_handoff_code E c w = (Ok u, w1)"
  then have "c \<in> dom (w_handoff_codes w)" by (auto dest: redeem_handoff_code_OkD)
  then have "drawn E w c" using handoff.codes_drawn [OF assms(4)] assms(3) by simp
  then have "drawn E w1 c" using sso_maps(13) [OF ok] by (simp add: drawn_def)
  then have "c \<notin> dom (w_handoff_codes w2)"
    using handoff.gone_stays_gone [OF assms(1,5)] sso_maps(15) [OF ok] by blast
  then show "fst (redeem_handoff_code E c w2) = Err Unauthorized" by (rule redeem_handoff_code_gone)
next
  assume ok: "take_pending_login E s w = (Ok p, w1)"
  then have "s \<in> dom (w_pending_logins w)" by (auto dest: take_pending_login_OkD)
  then have "drawn E w s" using attempt.codes_drawn [OF assms(4)] assms(2) by simp
  then have "drawn E w1 s" using sso_maps(6) [OF ok] by (simp add: drawn_def)
  then have "s \<notin> dom (w_pending_logins w2)"
    using attempt.gone_stays_gone [OF assms(1,5)] sso_maps(8) [OF ok] by blast
  then show "fst (take_pending_login E s w2) = Err sign_in_expired" by (rule take_pending_login_gone)
qed

section \<open>Where an identity comes from\<close>

lemma cached_jwk_kid: "cached_jwk E kid w = (Ok (Some k), w') \<Longrightarrow> jwk_kid k = kid"
  by (auto simp: cached_jwk_def find_Some_iff split: option.splits prod.splits if_splits)

lemma signing_key_kid: "signing_key E config kid w = (Ok k, w') \<Longrightarrow> jwk_kid k = kid"
  unfolding signing_key_def from_rsa_components_def
  by (auto elim!: bindM_OkE dest!: ok_or_OkD cached_jwk_kid split: option.splits)

lemma validate_id_token_OkE:
  assumes "validate_id_token E config tok w = (Ok claims, w')"
  obtains k now where "env_jwt_kid E tok = Some (Some (jwk_kid k))"
    "env_id_token_decode E k (az_client_id config) (expected_issuer config) now tok = Some claims"
  using assms unfolding validate_id_token_def
  by (auto elim!: bindM_OkE dest!: ok_or_OkD dest: signing_key_kid)

text \<open>C26: an identity is asserted only on good evidence. If \<^verbatim>\<open>complete_login\<close> returns one, the
  \<^verbatim>\<open>state\<close> belonged to a login attempt of the last ten minutes, and the identity is taken from
  an ID token that was validated with the signing key its header names, for this application
  and this tenant's issuer, and whose nonce is that attempt's.\<close>

theorem sso_identity_validated:
  assumes "complete_login E config code state w = (Ok identity, w')"
  shows "\<exists>p k now tok claims. w_pending_logins w state = Some p \<and>
    env_instant E (w_io w) - pl_created_at p < seconds 600 \<and>
    env_jwt_kid E tok = Some (Some (jwk_kid k)) \<and>
    env_id_token_decode E k (az_client_id config) (expected_issuer config) now tok = Some claims \<and>
    it_nonce claims = Some (pl_nonce p) \<and>
    ai_external_idp_subject identity = it_oid claims \<and>
    Some (ai_email identity) \<in> {it_email claims, it_preferred_username claims}"
proof -
  obtain p w1 w2 w3 tok claims where take: "take_pending_login E state w = (Ok p, w1)"
    and valid: "validate_id_token E config tok w2 = (Ok claims, w3)"
    and id: "it_nonce claims = Some (pl_nonce p)" "ai_external_idp_subject identity = it_oid claims"
      "Some (ai_email identity) \<in> {it_email claims, it_preferred_username claims}"
    using assms unfolding complete_login_def
    by (auto elim!: bindM_OkE dest!: ok_or_OkD split: if_splits option.splits)
  obtain k now where "env_jwt_kid E tok = Some (Some (jwk_kid k))"
    "env_id_token_decode E k (az_client_id config) (expected_issuer config) now tok = Some claims"
    using valid by (rule validate_id_token_OkE)
  with take_pending_login_OkD [OF take] id show ?thesis
    by (auto simp: PENDING_LOGIN_TTL_def)
qed

section \<open>Accounts of single sign-on\<close>

lemma keeps_db_io:
  "(\<And>w. w_db (snd (m w)) = w_db w) \<Longrightarrow> keeps (\<lambda>w. I (w_db w)) m"
  by (simp add: keeps_def)

lemma keeps_sso [keeps_intros]:
  "keeps (\<lambda>w. I (w_db w)) (begin_login E config)"
  "keeps (\<lambda>w. I (w_db w)) (take_pending_login E state)"
  "keeps (\<lambda>w. I (w_db w)) (cached_jwk E kid)"
  "keeps (\<lambda>w. I (w_db w)) (refresh_jwks E config)"
  "keeps (\<lambda>w. I (w_db w)) (issue_handoff_code E i)"
  "keeps (\<lambda>w. I (w_db w)) (redeem_handoff_code E code)"
proof -
  show "keeps (\<lambda>w. I (w_db w)) (refresh_jwks E config)"
    unfolding refresh_jwks_def by (intro keeps_intros) (simp_all add: keeps_def instant_now_def)
qed (auto intro!: keeps_db_io simp: begin_login_def random_token_def random_bytes_def add_pending_login_def
  take_pending_login_def cached_jwk_def issue_handoff_code_def redeem_handoff_code_def bindM_apply Let_def
  split: option.split)

lemma complete_login_keeps [keeps_intros]: "keeps (\<lambda>w. I (w_db w)) (complete_login E config code state)"
  unfolding complete_login_def validate_id_token_def signing_key_def from_rsa_components_def
  by (intro keeps_intros)

lemma sso_via_steps [keeps_intros]:
  fixes E :: env and d0 :: db
  defines "I \<equiv> \<lambda>w. (db_step E)\<^sup>*\<^sup>* d0 (w_db w)"
  shows "keeps I (sso_login E state)" "keeps I (provision_or_link_user E identity)"
    "keeps I (sso_callback E state cd sp err)" "keeps I (sso_token E state code)"
  unfolding I_def sso_login_def provision_or_link_user_def sso_callback_def sso_token_def
    token_response_def
  by (intro keeps_intros)+

text \<open>The account an identity leads to carries its subject; a new account is a plain requester
  without a password.\<close>

lemma users_create_Ok:
  assumes "users_create E new h w = (Ok u, w')"
  shows "u_external_idp_subject u = nu_external_idp_subject new \<and> u_role u = nu_role new \<and>
    u_password_hash u = h \<and> u_is_active u \<and> u_id u \<notin> user_ids (w_db w) \<and>
    db_users (w_db w') = db_users (w_db w) @ [u]"
  using assms unfolding users_create_def users_get_by_id_def
  by (auto simp: new_uuid_def users_create_stmt_def insert_if_def find_row_append find_row_fresh
      elim!: bindM_OkE sql_OkE dest!: ok_or_OkD sql_query_Ok split: if_splits)

lemma link_external_idp_subject_Ok:
  assumes "users_link_external_idp_subject E i subject w = (Ok (Some u), w')"
  shows "u_external_idp_subject u = Some subject"
proof -
  obtain w1 where link: "sql E (users_link_external_idp_subject_stmt E i subject) w = (Ok (), w1)"
    and u: "find_row (\<lambda>r. u_id r = i) (db_users (w_db w1)) = Some u"
    using assms unfolding users_link_external_idp_subject_def users_get_by_id_def
    by (auto elim!: bindM_OkE dest!: sql_query_Ok)
  from link have "db_users (w_db w1) = update_rows (\<lambda>r. u_id r = i)
      (touched user_stamp (env_time E (w_io w)) (\<lambda>r. r\<lparr>u_external_idp_subject := Some subject\<rparr>)) (db_users (w_db w))"
    by (auto simp: users_link_external_idp_subject_stmt_def insert_if_def Let_def elim!: sql_OkE
        split: if_splits)
  with u show ?thesis
    by (auto simp: find_row_update_same touched_user touched_proj [of u_external_idp_subject])
qed

lemma provision_or_link_user_subject:
  assumes "provision_or_link_user E identity w = (Ok u, w')"
  shows "\<exists>s. u_external_idp_subject u = Some s \<and> same_text E s (ai_external_idp_subject identity)"
  using assms unfolding provision_or_link_user_def users_get_by_external_idp_subject_def
  by (auto elim!: bindM_OkE dest!: sql_query_Ok ok_or_OkD found_row users_create_Ok
      link_external_idp_subject_Ok split: option.splits if_splits)

lemma sso_token_active:
  assumes "sso_token E state code w = (Ok t, w')"
  shows "\<exists>u \<in> set (db_users (w_db w)). u_is_active u \<and> u_id u = up_id (tr_user t)"
proof -
  obtain i w1 w2 u where "redeem_handoff_code E code w = (Ok i, w1)"
    "users_get_by_id E i w1 = (Ok (Some u), w2)" "u_is_active u" "up_id (tr_user t) = u_id u"
    using assms unfolding sso_token_def
    by (auto simp: active_user_def elim!: bindM_OkE dest!: ok_or_OkD token_response_user
        split: option.splits if_splits)
  moreover have "w_db w1 = w_db w"
    using calculation(1) by (auto simp: redeem_handoff_code_def Let_def)
  ultimately show ?thesis by (auto simp: users_get_by_id_def dest!: sql_query_Ok found_row)
qed

section \<open>Witnesses\<close>

definition sample_azure :: AzureSsoConfig where
  "sample_azure = \<lparr>az_tenant_id = ''t'', az_client_id = ''c'', az_client_secret = ''s'',
     az_redirect_uri = ''https://a/cb'', az_frontend_redirect_url = ''https://a/done''\<rparr>"

definition attempt_world :: world where
  "attempt_world = sample_world\<lparr>
     w_pending_logins := [''st'' \<mapsto> \<lparr>pl_pkce_verifier = ''v'', pl_nonce = ''1'', pl_created_at = 5\<rparr>],
     w_jwks := Some (10, [\<lparr>jwk_kid = ''kid'', jwk_n = ''n'', jwk_e = ''e''\<rparr>])\<rparr>"

lemma sample_random: "env_random (sample_env g m) b n = nat_to_string n"
  by (simp add: sample_env_def)

lemma sample_random_distinct:
  "env_random (sample_env g m) b i = env_random (sample_env g m) b j \<Longrightarrow> i = j"
  by (metis sample_random parse_digits_nat option.inject)

theorem sso_codes_single_use_witness:
  "\<exists>code w w1. (issue_handoff_code E0 2 :: (ApiError, string) act) sample_world = (Ok code, w) \<and>
     redeem_handoff_code E0 code w = (Ok 2, w1) \<and>
     fst (redeem_handoff_code E0 code w1) = Err Unauthorized"
proof -
  define code where "code = env_random E0 32 0"
  obtain w where issue: "(issue_handoff_code E0 2 :: (ApiError, string) act) sample_world = (Ok code, w)"
    and w: "w_handoff_codes w code = Some \<lparr>hc_user_id = 2, hc_created_at = env_instant E0 10\<rparr>" "w_io w = 10"
    by (simp add: issue_handoff_code_def random_token_def random_bytes_def bindM_apply Let_def
        sample_world_def code_def)
  obtain w1 where ok: "redeem_handoff_code E0 code w = (Ok 2, w1)"
    by (simp add: redeem_handoff_code_def sweep_expired_def w HANDOFF_CODE_TTL_def seconds_def)
  have steps: "(sso_step E0 sample_azure)\<^sup>*\<^sup>* sample_world w"
    using issue by (blast intro: sso_step.issue)
  have distinct: "env_random E0 32 i = env_random E0 32 j \<Longrightarrow> i = j" for i j
    by (rule sample_random_distinct)
  have empty: "w_pending_logins sample_world = Map.empty" "w_handoff_codes sample_world = Map.empty"
    by (simp_all add: sample_world_def)
  have "fst (redeem_handoff_code E0 code w1) = Err Unauthorized"
    using sso_codes_single_use [OF _ empty steps rtranclp.rtrancl_refl] distinct ok by blast
  then show ?thesis using issue ok by blast
qed

theorem sso_identity_validated_witness:
  "\<exists>identity w' p. complete_login E0 sample_azure ''code'' ''st'' attempt_world = (Ok identity, w') \<and>
     ai_external_idp_subject identity = ''oid'' \<and> w_pending_logins attempt_world ''st'' = Some p"
proof -
  obtain identity w' where ok: "complete_login E0 sample_azure ''code'' ''st'' attempt_world = (Ok identity, w')"
    by (simp add: complete_login_def take_pending_login_def sweep_expired_def PENDING_LOGIN_TTL_def seconds_def
        validate_id_token_def signing_key_def from_rsa_components_def cached_jwk_def JWKS_CACHE_TTL_def
        http_send_def is_success_def io_simps attempt_world_def sample_world_def sample_env_def)
  obtain p k now tok claims where "w_pending_logins attempt_world ''st'' = Some p"
    "env_id_token_decode E0 k (az_client_id sample_azure) (expected_issuer sample_azure) now tok = Some claims"
    "ai_external_idp_subject identity = it_oid claims"
    using sso_identity_validated [OF ok] by blast
  then show ?thesis using ok by (auto simp: sample_env_def)
qed

end
