(* ===== verification/Web_Session.thy ===== *)
theory Web_Session
  imports Sso
begin

text \<open>
  The browser's side of authentication: \<^verbatim>\<open>src/crates/server/src/web/session.rs\<close>, \<^verbatim>\<open>render.rs\<close>,
  \<^verbatim>\<open>layout.rs\<close> and \<^verbatim>\<open>web/pages/auth.rs\<close>. A page is the record its Askama template is rendered
  from (what the templates make of it is not modelled); a cookie jar is the values of the two
  session cookies.

  Shown: a page behind \<^verbatim>\<open>require_session\<close> runs only for an active user; a completed password reset
  signs the user out everywhere; the \<^verbatim>\<open>next\<close> parameter
  survives its encoding and stays a path of this site.
\<close>

section \<open>Responses\<close>

datatype 'p web_response =
    Redirect string
  | Page 'p
  | BadRequestPage 'p
      \<comment> \<open>the page with status 400\<close>

record Cookie =
  ck_name :: string
  ck_value :: string
  ck_http_only :: bool
  ck_path :: string
  ck_same_site_lax :: bool
  ck_max_age :: int

record ErrorTemplate =
  et_status :: nat
  et_message :: string

text \<open>\<^verbatim>\<open>impl IntoResponse for WebError\<close>: a missing session leads to the login page, any other
  error to the error page with the API's status and message.\<close>

definition web_error_into_response :: "ApiError \<Rightarrow> ErrorTemplate web_response" where
  "web_error_into_response e =
     (case e of
        Unauthorized \<Rightarrow> Redirect ''/login''
      | _ \<Rightarrow> Page \<lparr>et_status = api_status e, et_message = api_message e\<rparr>)"

section \<open>layout.rs\<close>

record Layout =
  ly_app_name :: string
  ly_logo_url :: "string option"
  ly_user_display_name :: string
  ly_user_role_label :: string
  ly_is_admin :: bool
  ly_active_nav :: string
  ly_timezone :: string

definition layout_load :: "env \<Rightarrow> User \<Rightarrow> string \<Rightarrow> (ApiError, Layout) act" where
  "layout_load E user active_nav =
     bindM (map_err api_of_db (org_settings_get E)) (\<lambda>settings.
     return \<lparr>ly_app_name = os_app_name settings, ly_logo_url = os_logo_url settings,
       ly_user_display_name = u_display_name user, ly_user_role_label = role_label (u_role user),
       ly_is_admin = (u_role user = Admin), ly_active_nav = active_nav,
       ly_timezone = os_timezone settings\<rparr>)"

text \<open>What the templates call for every date they show.\<close>

definition layout_format_local :: "env \<Rightarrow> Layout \<Rightarrow> timestamp \<Rightarrow> string" where
  "layout_format_local E layout dt = timezone_format_local E dt (ly_timezone layout)"

section \<open>session.rs\<close>

definition ACCESS_COOKIE :: string where
  "ACCESS_COOKIE = ''sc_at''"

definition REFRESH_COOKIE :: string where
  "REFRESH_COOKIE = ''sc_rt''"

definition push_cookie :: "string \<Rightarrow> string \<Rightarrow> i64 \<Rightarrow> Cookie" where
  "push_cookie name value max_age_secs =
     \<lparr>ck_name = name, ck_value = value, ck_http_only = True, ck_path = ''/'',
      ck_same_site_lax = True, ck_max_age = max (sint max_age_secs) 0\<rparr>"

text \<open>The cookies a response sets; \<^verbatim>\<open>as i64\<close> keeps the bits of the duration in seconds.\<close>

definition set_session_cookies :: "AppState \<Rightarrow> string \<Rightarrow> string \<Rightarrow> Cookie list" where
  "set_session_cookies state access_token refresh_token =
     [push_cookie ACCESS_COOKIE access_token (ac_access_token_ttl (as_config state)),
      push_cookie REFRESH_COOKIE refresh_token (ac_refresh_token_ttl (as_config state))]"

definition clear_session_cookies :: "Cookie list" where
  "clear_session_cookies = [push_cookie ACCESS_COOKIE [] 0, push_cookie REFRESH_COOKIE [] 0]"

definition hex_digit :: "nat \<Rightarrow> char" where
  "hex_digit n = (if n < 10 then char_of (48 + n) else char_of (55 + n))"

definition unreserved :: "char \<Rightarrow> bool" where
  "unreserved c \<longleftrightarrow>
     (65 \<le> (of_char c :: nat) \<and> (of_char c :: nat) \<le> 90) \<or>
     (97 \<le> (of_char c :: nat) \<and> (of_char c :: nat) \<le> 122) \<or>
     (48 \<le> (of_char c :: nat) \<and> (of_char c :: nat) \<le> 57) \<or> c \<in> set ''-_.~/?=''"

fun urlencoding_encode :: "string \<Rightarrow> string" where
  "urlencoding_encode [] = []"
| "urlencoding_encode (c # cs) =
     (if unreserved c then c # urlencoding_encode cs
      else CHR ''%'' # hex_digit (of_char c div 16) # hex_digit (of_char c mod 16) # urlencoding_encode cs)"

definition valid_user_for_access_token :: "env \<Rightarrow> AppState \<Rightarrow> string \<Rightarrow> ('e, User option) act" where
  "valid_user_for_access_token E state token =
     bindM (try_io (verify_access_token E (as_config state) token)) (\<lambda>claims.
     case claims of
       Inl _ \<Rightarrow> return None
     | Inr (user_id, _) \<Rightarrow>
         bindM (try_io (users_get_by_id E user_id)) (\<lambda>r. return (case r of
           Inl _ \<Rightarrow> None
         | Inr user \<Rightarrow> active_user user)))"

definition peek_user :: "env \<Rightarrow> AppState \<Rightarrow> string option \<Rightarrow> ('e, User option) act" where
  "peek_user E state access_cookie =
     (case access_cookie of
        None \<Rightarrow> return None
      | Some token \<Rightarrow> valid_user_for_access_token E state token)"

text \<open>The second \<^verbatim>\<open>if let\<close> chain of \<^verbatim>\<open>require_session\<close>: each failure falls through.\<close>

definition refreshed_session ::
    "env \<Rightarrow> AppState \<Rightarrow> string option \<Rightarrow> ('e, (User \<times> string \<times> string) option) act" where
  "refreshed_session E state refresh_cookie =
     (case refresh_cookie of
        None \<Rightarrow> return None
      | Some token \<Rightarrow>
          bindM (try_io (redeem_refresh_token E token)) (\<lambda>redeemed.
          case redeemed of
            Inl _ \<Rightarrow> return None
          | Inr user_id \<Rightarrow>
              bindM (try_io (users_get_by_id E user_id)) (\<lambda>r.
              case r of
                Inl _ \<Rightarrow> return None
              | Inr found \<Rightarrow>
                  (case active_user found of
                     None \<Rightarrow> return None
                   | Some user \<Rightarrow>
                       bindM (try_io (issue_token_pair E state user)) (\<lambda>pair.
                       return (case pair of
                         Inl _ \<Rightarrow> None
                       | Inr (access_token, refresh_token) \<Rightarrow> Some (user, access_token, refresh_token)))))))"

datatype 'r session_response =
    Passed 'r "Cookie list"
  | ToLogin string

text \<open>\<open>next\<close> is the page behind the middleware, for the user the request extension carries.\<close>

definition require_session ::
    "env \<Rightarrow> AppState \<Rightarrow> string option \<Rightarrow> string option \<Rightarrow> string \<Rightarrow> (User \<Rightarrow> ('e, 'r) act) \<Rightarrow>
     ('e, 'r session_response) act" where
  "require_session E state access_cookie refresh_cookie path next =
     bindM (peek_user E state access_cookie) (\<lambda>signed_in.
     case signed_in of
       Some user \<Rightarrow> bindM (next user) (\<lambda>res. return (Passed res []))
     | None \<Rightarrow>
         bindM (refreshed_session E state refresh_cookie) (\<lambda>session.
         case session of
           Some (user, access_token, refresh_token) \<Rightarrow>
             bindM (next user) (\<lambda>res.
             return (Passed res (set_session_cookies state access_token refresh_token)))
         | None \<Rightarrow> return (ToLogin (''/login?next='' @ urlencoding_encode path))))"

section \<open>pages/auth.rs\<close>

definition safe_next :: "string option \<Rightarrow> string" where
  "safe_next next =
     (case next of
        Some n \<Rightarrow> if starts_with ''/'' n \<and> \<not> starts_with ''//'' n then n else ''/''
      | None \<Rightarrow> ''/'')"

record LoginTemplate =
  lt_app_name :: string
  lt_logo_url :: "string option"
  lt_sso_enabled :: bool
  lt_reset_enabled :: bool
  lt_invalid_credentials :: bool
  lt_reset_success :: bool
  lt_next :: string

definition show_login ::
    "env \<Rightarrow> AppState \<Rightarrow> string option \<Rightarrow> string option \<Rightarrow> bool \<Rightarrow> bool \<Rightarrow> (ApiError, LoginTemplate web_response) act" where
  "show_login E state access_cookie query_next error reset =
     (let next = safe_next query_next in
      bindM (peek_user E state access_cookie) (\<lambda>user.
      if user \<noteq> None then return (Redirect next)
      else
        bindM (map_err api_of_db (org_settings_get E)) (\<lambda>settings.
        return (Page \<lparr>lt_app_name = os_app_name settings, lt_logo_url = os_logo_url settings,
          lt_sso_enabled = (as_sso state \<noteq> None), lt_reset_enabled = (as_mailer state \<noteq> None),
          lt_invalid_credentials = error, lt_reset_success = reset, lt_next = next\<rparr>))))"

text \<open>A redirect and the cookies it sets. (axum answers 500 instead of redirecting to a location that is
  not the value of a header, a line break in it for instance.)\<close>

definition submit_login ::
    "env \<Rightarrow> AppState \<Rightarrow> string \<Rightarrow> string \<Rightarrow> string option \<Rightarrow> ('e, string \<times> Cookie list) act" where
  "submit_login E state email password form_next =
     (let next = safe_next form_next; failed = (''/login?error=1&next='' @ next, []) in
      bindM (try_io (authenticate_local E email password)) (\<lambda>r.
      case r of
        Inl _ \<Rightarrow> return failed
      | Inr user \<Rightarrow>
          bindM (try_io (issue_token_pair E state user)) (\<lambda>pair.
          return (case pair of
            Inl _ \<Rightarrow> failed
          | Inr (access_token, refresh_token) \<Rightarrow>
              (next, set_session_cookies state access_token refresh_token)))))"

definition sso_complete ::
    "env \<Rightarrow> AppState \<Rightarrow> string \<Rightarrow> string option \<Rightarrow> ('e, string \<times> Cookie list) act" where
  "sso_complete E state code query_next =
     (let next = safe_next query_next; failed = (''/login?error=1'', []) in
      if as_sso state = None then return (''/login'', [])
      else
        bindM (try_io (redeem_handoff_code E code)) (\<lambda>redeemed.
        case redeemed of
          Inl _ \<Rightarrow> return failed
        | Inr user_id \<Rightarrow>
            bindM (try_io (users_get_by_id E user_id)) (\<lambda>r.
            case r of
              Inl _ \<Rightarrow> return failed
            | Inr found \<Rightarrow>
                (case active_user found of
                   None \<Rightarrow> return failed
                 | Some user \<Rightarrow>
                     bindM (try_io (issue_token_pair E state user)) (\<lambda>pair.
                     return (case pair of
                       Inl _ \<Rightarrow> failed
                     | Inr (access_token, refresh_token) \<Rightarrow>
                         (next, set_session_cookies state access_token refresh_token)))))))"

definition web_logout :: "env \<Rightarrow> string option \<Rightarrow> ('e, string \<times> Cookie list) act" where
  "web_logout E refresh_cookie =
     bindM (case refresh_cookie of
              None \<Rightarrow> return ()
            | Some token \<Rightarrow> bindM (try_io (redeem_refresh_token E token)) (\<lambda>_. return ())) (\<lambda>_.
     return (''/login'', clear_session_cookies))"

record ForgotPasswordTemplate =
  fp_app_name :: string
  fp_logo_url :: "string option"
  fp_submitted :: bool

definition forgot_password_page :: "env \<Rightarrow> bool \<Rightarrow> (ApiError, ForgotPasswordTemplate web_response) act" where
  "forgot_password_page E submitted =
     bindM (map_err api_of_db (org_settings_get E)) (\<lambda>settings.
     return (Page \<lparr>fp_app_name = os_app_name settings, fp_logo_url = os_logo_url settings,
       fp_submitted = submitted\<rparr>))"

definition show_forgot_password :: "env \<Rightarrow> AppState \<Rightarrow> (ApiError, ForgotPasswordTemplate web_response) act" where
  "show_forgot_password E state =
     (if as_mailer state = None then return (Redirect ''/login'') else forgot_password_page E False)"

definition submit_forgot_password ::
    "env \<Rightarrow> AppState \<Rightarrow> string \<Rightarrow> (ApiError, ForgotPasswordTemplate web_response) act" where
  "submit_forgot_password E state email =
     (case as_mailer state of
        None \<Rightarrow> return (Redirect ''/login'')
      | Some mailer \<Rightarrow>
          bindM (send_password_reset_email E mailer email) (\<lambda>_. forgot_password_page E True))"

record ResetPasswordTemplate =
  rp_app_name :: string
  rp_logo_url :: "string option"
  rp_invalid_token :: bool
  rp_token :: string
  rp_error :: "string option"

definition show_reset_password ::
    "env \<Rightarrow> string option \<Rightarrow> (ApiError, ResetPasswordTemplate web_response) act" where
  "show_reset_password E query_token =
     bindM (map_err api_of_db (org_settings_get E)) (\<lambda>settings.
     let token = unwrap_or [] query_token in
     return (Page \<lparr>rp_app_name = os_app_name settings, rp_logo_url = os_logo_url settings,
       rp_invalid_token = (token = []), rp_token = token, rp_error = None\<rparr>))"

definition submit_reset_password ::
    "env \<Rightarrow> string \<Rightarrow> string \<Rightarrow> (ApiError, ResetPasswordTemplate web_response) act" where
  "submit_reset_password E token new_password =
     bindM (map_err api_of_db (org_settings_get E)) (\<lambda>settings.
     let page = (\<lambda>invalid error. Page \<lparr>rp_app_name = os_app_name settings,
           rp_logo_url = os_logo_url settings, rp_invalid_token = invalid, rp_token = token,
           rp_error = error\<rparr>) in
     if length new_password < 12
     then return (page False (Some ''Password must be at least 12 characters.''))
     else
       bindM (try_io (redeem_password_reset_token E token)) (\<lambda>redeemed.
       case redeemed of
         Inl _ \<Rightarrow> return (page True None)
       | Inr user_id \<Rightarrow>
           bindM (hash_password E new_password) (\<lambda>password_hash.
           bindM (map_err api_of_db (users_set_password_hash E user_id password_hash)) (\<lambda>_.
           bindM (revoke_all_sessions E user_id) (\<lambda>_.
           return (Redirect ''/login?reset=1''))))))"

section \<open>The encoding of the next parameter\<close>

definition hex_value :: "char \<Rightarrow> nat" where
  "hex_value c = (let n = of_char c in if n < 58 then n - 48 else n - 55)"

fun url_decode :: "string \<Rightarrow> string option" where
  "url_decode [] = Some []"
| "url_decode (c # cs) =
     (if c \<noteq> CHR ''%'' then map_option (Cons c) (url_decode cs)
      else case cs of
        h # l # rest \<Rightarrow> map_option (Cons (char_of (16 * hex_value h + hex_value l))) (url_decode rest)
      | _ \<Rightarrow> None)"

lemma of_char_less: "of_char c < (256 :: nat)"
  by (metis of_char_mod_256 mod_less_divisor zero_less_numeral)

lemma hex_value_digit: "n < 16 \<Longrightarrow> hex_value (hex_digit n) = n"
  by (auto simp: hex_value_def hex_digit_def Let_def of_char_of)

lemma hex_digit_unreserved: "n < 16 \<Longrightarrow> unreserved (hex_digit n)"
  by (auto simp: unreserved_def hex_digit_def of_char_of)

lemma percent_reserved: "\<not> unreserved CHR ''%''"
  by (simp add: unreserved_def)

text \<open>The path a visitor asked for survives the detour over the login page: percent-decoding
  undoes the hand-written encoder on every byte string, and the encoded text consists only of
  characters that cannot end the query parameter (letters, digits, \<^verbatim>\<open>-_.~/?=\<close> and escapes).\<close>

lemma next_parameter_survives:
  "url_decode (urlencoding_encode s) = Some s \<and>
   set (urlencoding_encode s) \<subseteq> {c. unreserved c} \<union> {CHR ''%''}"
proof (induction s)
  case (Cons c s)
  have b: "of_char c div 16 < (16 :: nat)" "of_char c mod 16 < (16 :: nat)"
    using of_char_less [of c] by (simp_all add: less_mult_imp_div_less)
  have "char_of (16 * (of_char c div 16) + of_char c mod (16 :: nat)) = c" by simp
  then show ?case
    using Cons.IH b percent_reserved hex_digit_unreserved [OF b(1)] hex_digit_unreserved [OF b(2)]
    by (auto simp: hex_value_digit)
qed simp

section \<open>Redirects stay on this site\<close>

definition same_site_path :: "string \<Rightarrow> bool" where
  "same_site_path p \<longleftrightarrow> starts_with ''/'' p \<and> \<not> starts_with ''//'' p"

lemma safe_next_same_site: "same_site_path (safe_next n)"
  by (auto simp: safe_next_def same_site_path_def starts_with_def split: option.split)

lemma login_path_same_site [simp]: "same_site_path (CHR ''/'' # CHR ''l'' # p)"
  by (simp add: same_site_path_def starts_with_def)

text \<open>Whatever \<^verbatim>\<open>next\<close> parameter a login link carries, signing in with a password, through
  single sign-on, or visiting the login page while signed in redirects only to a path that
  starts with one slash, never to a URL with a scheme or a host.\<close>

lemma login_redirects_on_site:
  "(submit_login E state email pw next w = (Ok (target, cookies), w') \<longrightarrow> same_site_path target) \<and>
   (sso_complete E state code next w = (Ok (target, cookies), w') \<longrightarrow> same_site_path target) \<and>
   (show_login E state access next err reset w = (Ok (Redirect target), w') \<longrightarrow> same_site_path target)"
proof (intro conjI impI)
  assume "submit_login E state email pw next w = (Ok (target, cookies), w')"
  then show "same_site_path target"
    by (auto simp: submit_login_def Let_def safe_next_same_site elim!: bindM_OkE
        split: sum.splits prod.splits)
next
  assume "sso_complete E state code next w = (Ok (target, cookies), w')"
  then show "same_site_path target"
    by (auto simp: sso_complete_def Let_def safe_next_same_site elim!: bindM_OkE
        split: sum.splits prod.splits option.splits if_splits)
next
  assume "show_login E state access next err reset w = (Ok (Redirect target), w')"
  then show "same_site_path target"
    by (auto simp: show_login_def Let_def safe_next_same_site elim!: bindM_OkE split: if_splits)
qed

section \<open>Pages behind the session\<close>

lemma try_io_OkE:
  assumes "try_io m w = (Ok r, w')"
  obtains (ok) x where "r = Inr x" "m w = (Ok x, w')" | (err) e where "r = Inl e" "m w = (Err e, w')"
  using assms by (auto simp: try_io_def split: prod.splits res.splits)

lemma active_user_Some: "active_user r = Some u \<longleftrightarrow> r = Some u \<and> u_is_active u"
  by (auto simp: active_user_def split: option.splits)

lemma peek_user_active:
  assumes "peek_user E state cookie w = (Ok (Some u), w')"
  shows "u \<in> set (db_users (w_db w)) \<and> u_is_active u \<and> w_db w' = w_db w"
  using assms unfolding peek_user_def valid_user_for_access_token_def verify_access_token_def users_get_by_id_def
  by (auto elim!: bindM_OkE try_io_OkE dest!: ok_or_OkD sql_query_Ok found_row simp: active_user_Some
      split: option.splits sum.splits)

lemma db_unchangedD: "(\<And>d. keeps (\<lambda>w. w_db w = d) m) \<Longrightarrow> m w = (r, w') \<Longrightarrow> w_db w' = w_db w"
  using db_unchangedI [of m w] by simp

lemma peek_user_db:
  assumes "peek_user E state cookie w = (Ok r, w')"
  shows "w_db w' = w_db w"
  using assms by (rule db_unchangedD [rotated])
    (auto simp: peek_user_def valid_user_for_access_token_def intro!: keeps_intros)

lemma create_session_users:
  "create_session E config i ua ip w = (Ok tok, w') \<Longrightarrow> db_users (w_db w') = db_users (w_db w)"
  unfolding create_session_def
  by (auto elim!: bindM_OkE sql_OkE simp: new_token_def new_uuid_def Let_def sessions_create_stmt_def
      insert_if_def split: option.splits if_splits)

lemma issue_token_pair_users:
  "issue_token_pair E state u w = (Ok p, w') \<Longrightarrow> db_users (w_db w') = db_users (w_db w)"
  unfolding issue_token_pair_def issue_access_token_def
  by (auto elim!: bindM_OkE dest!: create_session_users ok_or_OkD split: option.splits)

lemma refreshed_session_active:
  assumes "refreshed_session E state cookie w = (Ok (Some (u, a, r)), w')"
  shows "u \<in> set (db_users (w_db w)) \<and> u_is_active u \<and> db_users (w_db w') = db_users (w_db w)"
  using assms unfolding refreshed_session_def users_get_by_id_def
  by (auto elim!: bindM_OkE try_io_OkE dest!: sql_query_Ok found_row issue_token_pair_users
      redeem_refresh_token_users simp: active_user_Some split: option.splits sum.splits prod.splits)

text \<open>Every page behind the session middleware runs for an account that is active in the
  database at that moment: if the middleware lets a request pass, its access cookie carries a
  valid token of that account, or its refresh cookie was redeemed for it. Without either the
  answer is a redirect to the login page, and the page does not run.\<close>

lemma session_pages_need_active_user:
  fixes "next" :: "User \<Rightarrow> ('e, 'r) act"
  assumes "require_session E state access rcookie path next w = (Ok res, w')"
  shows "(\<exists>u w1 w2 r cookies. res = Passed r cookies \<and> next u w1 = (Ok r, w2) \<and>
      u \<in> set (db_users (w_db w)) \<and> u_is_active u \<and> db_users (w_db w1) = db_users (w_db w)) \<or>
    res = ToLogin (''/login?next='' @ urlencoding_encode path)"
  using assms unfolding require_session_def
proof (elim bindM_OkE)
  fix peeked w1
  assume peek: "peek_user E state access w = (Ok peeked, w1)"
    and rest: "(case peeked of
       Some user \<Rightarrow> bindM (next user) (\<lambda>res. return (Passed res []))
     | None \<Rightarrow>
         bindM (refreshed_session E state rcookie) (\<lambda>session.
         case session of
           Some (user, access_token, refresh_token) \<Rightarrow>
             bindM (next user) (\<lambda>res.
             return (Passed res (set_session_cookies state access_token refresh_token)))
         | None \<Rightarrow> return (ToLogin (''/login?next='' @ urlencoding_encode path)))) w1 = (Ok res, w')"
  show ?thesis
  proof (cases peeked)
    case (Some u)
    with peek have "u \<in> set (db_users (w_db w))" "u_is_active u" "db_users (w_db w1) = db_users (w_db w)"
      by (auto dest: peek_user_active)
    moreover obtain r where "next u w1 = (Ok r, w')" "res = Passed r []"
      using rest Some by (auto elim!: bindM_OkE)
    ultimately show ?thesis by blast
  next
    case None
    obtain session w2 where s: "(refreshed_session E state rcookie :: ('e, _) act) w1 = (Ok session, w2)"
      using rest None by (auto elim!: bindM_OkE)
    show ?thesis
    proof (cases session)
      case None2: None
      then show ?thesis using rest None s by (simp add: bindM_apply)
    next
      case (Some t)
      obtain u a f where t: "t = (u, a, f)" by (cases t)
      have "u \<in> set (db_users (w_db w)) \<and> u_is_active u \<and> db_users (w_db w2) = db_users (w_db w)"
        using s Some t peek_user_db [OF peek] by (auto dest: refreshed_session_active)
      moreover have "\<exists>r. next u w2 = (Ok r, w') \<and> res = Passed r (set_session_cookies state a f)"
        using rest None s Some t by (auto simp: bindM_apply split: prod.splits res.splits)
      ultimately show ?thesis by blast
    qed
  qed
qed

section \<open>A completed password reset\<close>

lemma set_password_hash_ids:
  "users_set_password_hash E i h w = (Ok (), w') \<Longrightarrow> map u_id (db_users (w_db w')) = map u_id (db_users (w_db w)) \<and>
     db_sessions (w_db w') = db_sessions (w_db w)"
  by (auto simp: users_set_password_hash_def users_set_password_hash_stmt_def map_update_rows touched_user
      elim!: sql_OkE)

lemma redeem_password_reset_row:
  assumes "redeem_password_reset_token E token w = (Ok i, w1)"
  obtains s where "s \<in> set (db_password_resets (w_db w))" "same_text E (pr_token_hash s) (env_sha256_hex E token)"
    "pr_used_at s = None" "env_time E (w_io w) < pr_expires_at s" "pr_user_id s = i"
    "db_sessions (w_db w1) = db_sessions (w_db w)"
  using assms
  by (auto simp: redeem_password_reset_token_def password_resets_find_live_def password_resets_use_stmt_def query_def
      elim!: bindM_OkE sql_OkE dest!: ok_or_OkD find_row_SomeD)

text \<open>The two ways to finish a reset, the API's and the form's, are the same four calls.\<close>

lemma completed_reset:
  assumes "confirm_password_reset E token pw w = (Ok (), w') \<or>
    submit_reset_password E token pw w = (Ok (Redirect ''/login?reset=1''), w')"
  obtains i h w0 w1 w2 w3 where "12 \<le> length pw" "w_db w0 = w_db w" "w_io w \<le> w_io w0"
    "redeem_password_reset_token E token w0 = (Ok i, w1)" "hash_password E pw w1 = (Ok h, w2)"
    "users_set_password_hash E i h w2 = (Ok (), w3)" "revoke_all_sessions E i w3 = (Ok (), w')"
  using assms
proof (elim disjE)
  assume "confirm_password_reset E token pw w = (Ok (), w')"
  then show thesis
    using that [of w] by (auto simp: confirm_password_reset_def elim!: bindM_OkE split: if_splits)
next
  assume "submit_reset_password E token pw w = (Ok (Redirect ''/login?reset=1''), w')"
  then obtain settings w0 where "org_settings_get E w = (Ok settings, w0)"
    and rest: "\<exists>i w1 h w2 w3. 12 \<le> length pw \<and> redeem_password_reset_token E token w0 = (Ok i, w1) \<and>
      hash_password E pw w1 = (Ok h, w2) \<and> users_set_password_hash E i h w2 = (Ok (), w3) \<and>
      revoke_all_sessions E i w3 = (Ok (), w')"
    by (fastforce simp: submit_reset_password_def Let_def elim!: bindM_OkE try_io_OkE split: if_splits sum.splits)
  then have "w_db w0 = w_db w" "w_io w \<le> w_io w0"
    by (auto simp: org_settings_get_def org_settings_get_stmt_def elim!: sql_OkE split: option.splits)
  then show thesis using rest that by blast
qed

lemma revoke_all_others:
  assumes "revoke_all_sessions E i w = (Ok (), w')"
  shows "filter (\<lambda>x. ss_user_id x \<noteq> i) (db_sessions (w_db w')) = filter (\<lambda>x. ss_user_id x \<noteq> i) (db_sessions (w_db w))"
proof -
  have "filter (\<lambda>x. ss_user_id x \<noteq> i)
        (update_rows (\<lambda>r. ss_user_id r = i \<and> ss_revoked_at r = None) (ss_revoked_at_update g) t) =
      filter (\<lambda>x. ss_user_id x \<noteq> i) t" for g and t :: "session_row list"
    by (induction t) auto
  then show ?thesis
    using sql_Ok_world [OF assms [unfolded revoke_all_sessions_def map_err_Ok_iff]]
    by (simp add: sessions_revoke_all_stmt_def)
qed

text \<open>C24: a completed password reset, through the API or through the form. The token was an unused one of
  a reset that had not expired, and the user that reset was made for exists and has a new
  password, one that verifies against the password sent (given that Argon2 verifies what it
  hashed). That user is signed out everywhere: none of their sessions is live, and no refresh
  token issued so far leads to them any more. The token is spent, and no other account and no
  other account's session is touched.\<close>

theorem password_reset_signs_out:
  assumes "db_wf E (w_db w)"
    and "confirm_password_reset E token pw w = (Ok (), w') \<or>
      submit_reset_password E token pw w = (Ok (Redirect ''/login?reset=1''), w')"
    and "\<And>salt h. env_argon2_hash E salt pw = Some h \<Longrightarrow> env_argon2_verify E pw h = Some True"
  shows "12 \<le> length pw \<and> reset_spent E (env_sha256_hex E token) (w_db w') \<and>
    map u_id (db_users (w_db w')) = map u_id (db_users (w_db w)) \<and>
    (\<exists>s \<in> set (db_password_resets (w_db w)). \<exists>u \<in> set (db_users (w_db w')). \<exists>h n.
       same_text E (pr_token_hash s) (env_sha256_hex E token) \<and> pr_used_at s = None \<and>
       w_io w \<le> n \<and> env_time E n < pr_expires_at s \<and>
       u_id u = pr_user_id s \<and> u_password_hash u = Some h \<and> env_argon2_verify E pw h = Some True \<and>
       filter (\<lambda>v. u_id v \<noteq> u_id u) (db_users (w_db w')) = filter (\<lambda>v. u_id v \<noteq> u_id u) (db_users (w_db w)) \<and>
       (\<forall>x \<in> set (db_sessions (w_db w')). ss_user_id x = u_id u \<longrightarrow> ss_revoked_at x \<noteq> None) \<and>
       filter (\<lambda>x. ss_user_id x \<noteq> u_id u) (db_sessions (w_db w')) =
         filter (\<lambda>x. ss_user_id x \<noteq> u_id u) (db_sessions (w_db w)) \<and>
       (\<forall>tok j w''. redeem_refresh_token E tok w' = (Ok j, w'') \<longrightarrow> j \<noteq> u_id u))"
  using assms(2)
proof (rule completed_reset)
  fix i h w0 w1 w2 w3
  assume len: "12 \<le> length pw" and w0: "w_db w0 = w_db w" "w_io w \<le> w_io w0"
    and redeem: "redeem_password_reset_token E token w0 = (Ok i, w1)"
    and hash: "hash_password E pw w1 = (Ok h, w2)"
    and set: "users_set_password_hash E i h w2 = (Ok (), w3)"
    and revoke: "revoke_all_sessions E i w3 = (Ok (), w')"
  note steps = hash_password_Ok [OF hash] set_password_hash_Ok [OF set] set_password_hash_ids [OF set]
    revoke_all_signed_out [OF revoke] revoke_all_others [OF revoke] redeem_password_reset_token_users [OF redeem]
  from redeem obtain s where s: "s \<in> set (db_password_resets (w_db w0))"
    "same_text E (pr_token_hash s) (env_sha256_hex E token)" "pr_used_at s = None"
    "env_time E (w_io w0) < pr_expires_at s" "pr_user_id s = i" "db_sessions (w_db w1) = db_sessions (w_db w0)"
    by (rule redeem_password_reset_row)
  have ids: "map u_id (db_users (w_db w')) = map u_id (db_users (w_db w))" using steps w0 by simp
  have "i \<in> u_id ` set (db_users (w_db w))"
    using assms(1) s w0 by (auto simp: db_wf_def password_resets_ok_def)
  then have "i \<in> u_id ` set (db_users (w_db w'))" using arg_cong [OF ids, of set] by simp
  then obtain u where u: "u \<in> set (db_users (w_db w'))" "u_id u = i" by blast
  have "u_password_hash u = Some h" using steps u by simp
  moreover have "env_argon2_verify E pw h = Some True" using steps assms(3) by blast
  moreover have "reset_spent E (env_sha256_hex E token) (w_db w1)"
    by (rule reset.redeem_spends [OF _ redeem]) (simp add: w0 assms(1))
  then have "reset_spent E (env_sha256_hex E token) (w_db w')" using steps by (simp add: reset_spent_def)
  moreover have "filter (\<lambda>v. u_id v \<noteq> i) (db_users (w_db w')) = filter (\<lambda>v. u_id v \<noteq> i) (db_users (w_db w))"
    using steps w0 by simp
  moreover have "\<forall>x \<in> set (db_sessions (w_db w')). ss_user_id x = i \<longrightarrow> ss_revoked_at x \<noteq> None"
    using revoke_all_signed_out(1) [OF revoke] by (simp add: signed_out_def)
  moreover have "\<forall>tok j w''. redeem_refresh_token E tok w' = (Ok j, w'') \<longrightarrow> j \<noteq> i"
    using signed_out_no_refresh [OF revoke_all_signed_out(1) [OF revoke]] by blast
  moreover have "filter (\<lambda>x. ss_user_id x \<noteq> i) (db_sessions (w_db w')) = filter (\<lambda>x. ss_user_id x \<noteq> i) (db_sessions (w_db w))"
    using steps s(6) w0 by simp
  ultimately show ?thesis
    using len ids s w0 u
    by (intro conjI bexI [of _ s] bexI [of _ u] exI [of _ h] exI [of _ "w_io w0"]) simp_all
qed

section \<open>Witnesses\<close>

theorem password_reset_signs_out_witness:
  "\<exists>u w'. confirm_password_reset E0 ''t'' ''longpassword'' token_world = (Ok (), w') \<and>
     u \<in> set (db_users (w_db w')) \<and> u_id u = 1 \<and>
     (\<exists>h. u_password_hash u = Some h \<and> env_argon2_verify E0 ''longpassword'' h = Some True) \<and>
     reset_spent E0 (env_sha256_hex E0 ''t'') (w_db w')"
proof -
  obtain w' where ok: "confirm_password_reset E0 ''t'' ''longpassword'' token_world = (Ok (), w')"
    by (simp add: confirm_password_reset_def redeem_password_reset_token_def password_resets_find_live_def
        password_resets_use_stmt_def same_text_def hash_password_def random_bytes_def
        users_set_password_hash_def users_set_password_hash_stmt_def revoke_all_sessions_def
        sessions_revoke_all_stmt_def token_eval)
  have argon: "env_argon2_hash E0 salt pw = Some h \<Longrightarrow> env_argon2_verify E0 pw h = Some True" for salt pw h
    by (simp add: sample_env_def)
  have "\<forall>s \<in> set (db_password_resets (w_db token_world)). pr_user_id s = 1"
    by (simp add: token_world_def sample_reset_def)
  then show ?thesis
    using password_reset_signs_out [OF token_world_wf disjI1 [OF ok] argon] ok by fastforce
qed

lemma session_pages_need_active_user_example:
  "\<exists>u w1 w2 r. (require_session E0 sample_state (Some ''1s'') None ''/requests''
      (\<lambda>user. return (u_email user)) sample_world :: (unit, _) res \<times> _) = (Ok (Passed r []), w2) \<and>
     r = ''m@x'' \<and> u \<in> set (db_users (w_db sample_world)) \<and> u_is_active u \<and>
     (return (u_email u) w1 :: (unit, _) res \<times> _) = (Ok r, w1)"
proof -
  obtain w2 where ok: "(require_session E0 sample_state (Some ''1s'') None ''/requests''
      (\<lambda>user. return (u_email user)) sample_world :: (unit, _) res \<times> _) = (Ok (Passed ''m@x'' []), w2)"
    by (simp add: require_session_def peek_user_def valid_user_for_access_token_def admin_eval
        sample_defs token_eval)
  show ?thesis using session_pages_need_active_user [OF ok] ok by auto
qed

lemma login_redirects_on_site_example:
  "\<exists>target cookies w'. (submit_login E0 sample_state ''m@x'' ''pw'' (Some ''//evil'') sample_world
      :: (unit, _) res \<times> _) = (Ok (target, cookies), w') \<and> same_site_path target"
proof -
  obtain target cookies w' where ok: "(submit_login E0 sample_state ''m@x'' ''pw'' (Some ''//evil'') sample_world
      :: (unit, _) res \<times> _) = (Ok (target, cookies), w')"
    by (simp add: submit_login_def authenticate_local_def users_get_by_email_def verify_password_def
        same_text_def issue_token_pair_def issue_access_token_def create_session_def new_token_def new_uuid_def
        sessions_create_stmt_def insert_if_def Let_def admin_eval sample_defs token_eval)
  show ?thesis using ok login_redirects_on_site by blast
qed

end
