(* ===== verification/Web_Pages.thy ===== *)
theory Web_Pages
  imports Web_Session Catalog_Seed
begin

text \<open>
  The requester's pages, \<^verbatim>\<open>src/crates/server/src/web/pages\<close>: catalog, requests, approvals and
  dashboard. Each handler takes the user the session middleware resolved.

  Shown: the catalog page shows every item once, under its category, in order; a form field
  becomes the JSON shape the workflow conditions compare with; the preview of a starter
  item's questions ends and lists exactly its questions.
\<close>

section \<open>catalog.rs\<close>

definition CATEGORY_ORDER :: "string list" where
  "CATEGORY_ORDER =
     [''Accounts & Access'', ''Network & Connectivity'', ''Workstations & Devices'', ''Software'',
      ''Printing, Copying & Scanning'', ''Telephone & Mobile'', ''Audio/Visual & Collaboration'',
      ''Servers, Data & Infrastructure'', ''Security & Physical Access'', ''Other'']"

record CatalogCard =
  cc_item :: ServiceCatalogItem
  cc_search_blob :: string

record CategoryGroup =
  cg_name :: string
  cg_cards :: "CatalogCard list"

definition catalog_card :: "env \<Rightarrow> ServiceCatalogItem \<Rightarrow> CatalogCard" where
  "catalog_card E item =
     \<lparr>cc_item = item,
      cc_search_blob = env_to_lowercase E (ci_name item) @ '' '' @
        env_to_lowercase E (unwrap_or [] (ci_summary item)) @ '' '' @
        env_to_lowercase E (join '' '' (cd_keywords (item_details item)))\<rparr>"

definition card_category :: "CatalogCard \<Rightarrow> string" where
  "card_category c = unwrap_or ''Other'' (ci_category (cc_item c))"

text \<open>The map from categories to cards: the loop pushes each card to its category's list, then
  each list is sorted (stably) by \<^verbatim>\<open>sort_order\<close> and name.\<close>

fun push_cards :: "CatalogCard list \<Rightarrow> (string \<rightharpoonup> CatalogCard list) \<Rightarrow> (string \<rightharpoonup> CatalogCard list)" where
  "push_cards [] m = m"
| "push_cards (c # cards) m =
     push_cards cards (m(card_category c \<mapsto> unwrap_or [] (m (card_category c)) @ [c]))"

definition sort_cards :: "CatalogCard list \<Rightarrow> CatalogCard list" where
  "sort_cards cards = sort_key (\<lambda>c. (sint (ci_sort_order (cc_item c)), ci_name (cc_item c))) cards"

definition by_category :: "CatalogCard list \<Rightarrow> (string \<rightharpoonup> CatalogCard list)" where
  "by_category cards = (\<lambda>k. map_option sort_cards (push_cards cards Map.empty k))"

text \<open>The map's keys: the categories of the cards.\<close>

definition build_groups :: "env \<Rightarrow> ServiceCatalogItem list \<Rightarrow> CategoryGroup list \<times> string list" where
  "build_groups E items =
     (let cards = map (catalog_card E) items;
          m = by_category cards;
          names = filter (\<lambda>c. m c \<noteq> None) CATEGORY_ORDER @
            sort (filter (\<lambda>c. c \<notin> set CATEGORY_ORDER) (remdups (map card_category cards)))
      in (map (\<lambda>name. \<lparr>cg_name = name, cg_cards = unwrap_or [] (m name)\<rparr>) names, names))"

record CatalogTemplate =
  ct_layout :: Layout
  ct_groups :: "CategoryGroup list"
  ct_categories :: "string list"
  ct_has_items :: bool

definition catalog_show :: "env \<Rightarrow> User \<Rightarrow> (ApiError, CatalogTemplate web_response) act" where
  "catalog_show E user =
     bindM (layout_load E user ''catalog'') (\<lambda>layout.
     bindM (map_err api_of_db (catalog_list E False)) (\<lambda>items.
     let (groups, categories) = build_groups E items in
     return (Page \<lparr>ct_layout = layout, ct_groups = groups, ct_categories = categories,
       ct_has_items = (items \<noteq> [])\<rparr>)))"

record QuestionPreview =
  qp_label :: string
  qp_required :: bool

text \<open>The walk has no bound; \<open>None\<close> is a walk that never ends.\<close>

partial_function (option) preview_loop ::
    "WorkflowGraph \<Rightarrow> Step option \<Rightarrow> QuestionPreview list \<Rightarrow> QuestionPreview list option" where
  "preview_loop graph current questions =
     (case current of
        None \<Rightarrow> Some questions
      | Some step \<Rightarrow>
          (case s_kind step of
             Question _ _ required _ next \<Rightarrow>
               preview_loop graph (graph_step graph next)
                 (questions @ [\<lparr>qp_label = s_label step, qp_required = required\<rparr>])
           | _ \<Rightarrow> Some questions))"

definition preview_questions :: "WorkflowGraph \<Rightarrow> QuestionPreview list option" where
  "preview_questions graph = preview_loop graph (graph_step graph (g_entry_step_id graph)) []"

record CatalogItemTemplate =
  cit_layout :: Layout
  cit_item :: ServiceCatalogItem
  cit_details :: CatalogItemDetails
  cit_questions :: "QuestionPreview list"

definition item_detail :: "env \<Rightarrow> User \<Rightarrow> uuid \<Rightarrow> (world, ApiError, CatalogItemTemplate web_response) run" where
  "item_detail E user i =
     then_run
       (bindM (layout_load E user ''catalog'') (\<lambda>layout.
        bindM (map_err api_of_db (catalog_get_by_id E i)) (\<lambda>r.
        bindM (ok_or (ApiNotFound ''service catalog item not found'')
                 (case r of None \<Rightarrow> None | Some item \<Rightarrow> if ci_is_active item then Some item else None)) (\<lambda>item.
        bindM (map_err api_of_db (definitions_get_by_id E (ci_workflow_definition_id item))) (\<lambda>d.
        bindM (ok_or Internal d) (\<lambda>definition. return (layout, item, definition)))))))
       (\<lambda>(layout, item, definition) w.
          map_option (\<lambda>questions.
            (Ok (Page \<lparr>cit_layout = layout, cit_item = item, cit_details = item_details item,
               cit_questions = questions\<rparr>), w)) (preview_questions (wd_graph definition)))"

text \<open>The handlers around the orchestrator redirect when it returns.\<close>

definition run_then :: "(world, 'e, 'a) run \<Rightarrow> ('a \<Rightarrow> 'b) \<Rightarrow> (world, 'e, 'b) run" where
  "run_then m f w =
     (case m w of
        None \<Rightarrow> None
      | Some (Ok x, w') \<Rightarrow> Some (Ok (f x), w')
      | Some (Err e, w') \<Rightarrow> Some (Err e, w')
      | Some (Panic, w') \<Rightarrow> Some (Panic, w'))"

definition start_request :: "env \<Rightarrow> AppState \<Rightarrow> User \<Rightarrow> uuid \<Rightarrow> (world, ApiError, unit web_response) run" where
  "start_request E state user i =
     run_then (start_instance E (deps_of state) i user)
       (\<lambda>instance. Redirect (''/requests/'' @ env_uuid_str E (wi_id instance)))"

section \<open>requests.rs\<close>

record RequestsListTemplate =
  rl_layout :: Layout
  rl_requests :: "WorkflowInstance list"

definition requests_list_mine :: "env \<Rightarrow> User \<Rightarrow> (ApiError, RequestsListTemplate web_response) act" where
  "requests_list_mine E user =
     bindM (layout_load E user ''requests'') (\<lambda>layout.
     bindM (map_err api_of_db (instances_list_for_requester E (u_id user))) (\<lambda>requests.
     return (Page \<lparr>rl_layout = layout, rl_requests = requests\<rparr>)))"

record CurrentQuestion =
  cq_field_key :: string
  cq_label :: string
  cq_input_type :: InputType
  cq_required :: bool
  cq_options :: "QuestionOption list"

record RequestDetailTemplate =
  rd_layout :: Layout
  rd_instance :: WorkflowInstance
  rd_catalog_item_name :: string
  rd_question :: "CurrentQuestion option"
  rd_answers :: "(string \<times> string) list"
  rd_ticket :: "Ticket option"
  rd_ticket_error :: "string option"

fun display_value :: "env \<Rightarrow> json \<Rightarrow> string" where
  "display_value E (JString s) = s"
| "display_value E other = env_json_str E other"

definition current_question :: "WorkflowInstance \<Rightarrow> WorkflowGraph \<Rightarrow> CurrentQuestion option" where
  "current_question instance graph =
     (if wi_status instance \<noteq> InProgress then None
      else case graph_step graph (wi_current_step_id instance) of
        None \<Rightarrow> None
      | Some step \<Rightarrow>
          (case s_kind step of
             Question field_key input_type required options _ \<Rightarrow>
               Some \<lparr>cq_field_key = field_key, cq_label = s_label step, cq_input_type = input_type,
                 cq_required = required, cq_options = options\<rparr>
           | _ \<Rightarrow> None))"

definition requests_show :: "env \<Rightarrow> User \<Rightarrow> uuid \<Rightarrow> (ApiError, RequestDetailTemplate web_response) act" where
  "requests_show E user i =
     bindM (layout_load E user ''requests'') (\<lambda>layout.
     bindM (map_err api_of_db (instances_get_by_id E i)) (\<lambda>r.
     bindM (ok_or (ApiNotFound ''request not found'') r) (\<lambda>instance.
     if wi_requester_user_id instance \<noteq> u_id user \<and> \<not> is_staff user then fail Forbidden
     else
       bindM (map_err api_of_db (catalog_get_by_id E (wi_catalog_item_id instance))) (\<lambda>c.
       bindM (ok_or Internal c) (\<lambda>item.
       bindM (map_err api_of_db (definitions_get_by_id E (wi_workflow_definition_id instance))) (\<lambda>d.
       bindM (ok_or Internal d) (\<lambda>definition.
       bindM (map_err api_of_db (tickets_get_by_instance_id E (wi_id instance))) (\<lambda>ticket.
       return (Page
         \<lparr>rd_layout = layout, rd_instance = instance, rd_catalog_item_name = ci_name item,
          rd_question = current_question instance (wd_graph definition),
          rd_answers = (case as_object (wi_answers_json instance) of
             None \<Rightarrow> [] | Some m \<Rightarrow> map (\<lambda>(k, v). (k, display_value E v)) m),
          rd_ticket = ticket,
          rd_ticket_error = (if is_staff user
             then (case ticket of None \<Rightarrow> None | Some t \<Rightarrow> t_last_error t) else None)\<rparr>)))))))))"

fun coerce_answer :: "env \<Rightarrow> InputType option \<Rightarrow> string \<Rightarrow> json" where
  "coerce_answer E (Some IBoolean) raw = JBool (raw = ''true'' \<or> raw = ''on'')"
| "coerce_answer E (Some INumber) raw =
     (case env_parse_f64 E raw of None \<Rightarrow> JNull | Some x \<Rightarrow> JNumber (Float x))"
| "coerce_answer E (Some IMultiSelect) raw =
     JArray (map JString (filter (\<lambda>s. s \<noteq> []) (map trim (split_on CHR '','' raw))))"
| "coerce_answer E other raw = JString raw"

definition asked_input_type :: "Step option \<Rightarrow> InputType option" where
  "asked_input_type step =
     (case step of
        None \<Rightarrow> None
      | Some s \<Rightarrow> (case s_kind s of Question _ input_type _ _ _ \<Rightarrow> Some input_type | _ \<Rightarrow> None))"

definition requests_submit_answer ::
    "env \<Rightarrow> AppState \<Rightarrow> User \<Rightarrow> uuid \<Rightarrow> string \<Rightarrow> string \<Rightarrow> (world, ApiError, unit web_response) run" where
  "requests_submit_answer E state user i field_key form_value =
     then_run
       (bindM (map_err api_of_db (instances_get_by_id E i)) (\<lambda>r.
        bindM (ok_or (ApiNotFound ''request not found'') r) (\<lambda>instance.
        bindM (map_err api_of_db (definitions_get_by_id E (wi_workflow_definition_id instance))) (\<lambda>d.
        bindM (ok_or Internal d) (\<lambda>definition.
        return (coerce_answer E
          (asked_input_type (graph_step (wd_graph definition) (wi_current_step_id instance))) form_value))))))
       (\<lambda>value. run_then (submit_answer E (deps_of state) i user field_key value)
          (\<lambda>_. Redirect (''/requests/'' @ env_uuid_str E i)))"

section \<open>approvals.rs\<close>

record ApprovalRow =
  ar_id :: uuid
  ar_catalog_item_name :: string
  ar_requester_display_name :: string
  ar_created_at :: timestamp

record ApprovalsListTemplate =
  al_layout :: Layout
  al_approvals :: "ApprovalRow list"

fun approval_rows :: "env \<Rightarrow> PendingApproval list \<Rightarrow> (ApiError, ApprovalRow list) act" where
  "approval_rows E [] = return []"
| "approval_rows E (approval # pending) =
     bindM (map_err api_of_db (instances_get_by_id E (pa_workflow_instance_id approval))) (\<lambda>r.
     case r of
       None \<Rightarrow> approval_rows E pending
     | Some instance \<Rightarrow>
         bindM (map_err api_of_db (catalog_get_by_id E (wi_catalog_item_id instance))) (\<lambda>item.
         bindM (map_err api_of_db (users_get_by_id E (wi_requester_user_id instance))) (\<lambda>requester.
         bindM (approval_rows E pending) (\<lambda>rows.
         return (\<lparr>ar_id = pa_id approval,
             ar_catalog_item_name = unwrap_or ''(deleted service)'' (map_option ci_name item),
             ar_requester_display_name = unwrap_or ''(deactivated user)'' (map_option u_display_name requester),
             ar_created_at = pa_created_at approval\<rparr> # rows)))))"

definition approvals_list_mine :: "env \<Rightarrow> User \<Rightarrow> (ApiError, ApprovalsListTemplate web_response) act" where
  "approvals_list_mine E user =
     bindM (layout_load E user ''approvals'') (\<lambda>layout.
     bindM (map_err api_of_db (approvals_list_pending_for_approver E (u_id user))) (\<lambda>pending.
     bindM (approval_rows E pending) (\<lambda>rows.
     return (Page \<lparr>al_layout = layout, al_approvals = rows\<rparr>))))"

definition decision_of_form :: "string \<Rightarrow> ApprovalDecision option" where
  "decision_of_form s =
     (if s = ''approve'' then Some Approve else if s = ''reject'' then Some Reject else None)"

definition web_decide ::
    "env \<Rightarrow> AppState \<Rightarrow> User \<Rightarrow> uuid \<Rightarrow> string \<Rightarrow> string option \<Rightarrow> (world, ApiError, unit web_response) run" where
  "web_decide E state user i form_decision form_comment =
     (case decision_of_form form_decision of
        None \<Rightarrow> (\<lambda>w. Some (Err (BadRequest ''invalid decision''), w))
      | Some decision \<Rightarrow>
          let comment = (case form_comment of None \<Rightarrow> None | Some c \<Rightarrow> if trim c = [] then None else Some c) in
          run_then (approvals_route_decide E (deps_of state) user i decision comment)
            (\<lambda>_. Redirect ''/approvals''))"

section \<open>dashboard.rs\<close>

record DashboardTemplate =
  db_layout :: Layout
  db_open_request_count :: nat
  db_pending_approval_count :: nat

definition dashboard_show :: "env \<Rightarrow> User \<Rightarrow> (ApiError, DashboardTemplate web_response) act" where
  "dashboard_show E user =
     bindM (layout_load E user ''dashboard'') (\<lambda>layout.
     bindM (map_err api_of_db (instances_list_for_requester E (u_id user))) (\<lambda>requests.
     bindM (map_err api_of_db (approvals_list_pending_for_approver E (u_id user))) (\<lambda>pending.
     return (Page \<lparr>db_layout = layout,
       db_open_request_count =
         length (filter (\<lambda>i. wi_status i \<in> {InProgress, AwaitingApprovalStatus}) requests),
       db_pending_approval_count = length pending\<rparr>))))"

section \<open>The catalog page\<close>

lemma push_cards_at:
  "push_cards cards m k =
     (if filter (\<lambda>c. card_category c = k) cards = [] then m k
      else Some (unwrap_or [] (m k) @ filter (\<lambda>c. card_category c = k) cards))"
  by (induction cards arbitrary: m) (auto simp: unwrap_or_def)

lemma by_category_at:
  "by_category cards k =
     (if filter (\<lambda>c. card_category c = k) cards = [] then None
      else Some (sort_cards (filter (\<lambda>c. card_category c = k) cards)))"
  by (simp add: by_category_def push_cards_at unwrap_or_def)

lemma mset_by_key:
  "distinct ks \<Longrightarrow> (\<And>x. x \<in> set xs \<Longrightarrow> f x \<in> set ks) \<Longrightarrow>
   mset (concat (map (\<lambda>k. filter (\<lambda>x. f x = k) xs) ks)) = mset xs"
proof (induction ks arbitrary: xs)
  case Nil
  then show ?case by (cases xs) auto
next
  case (Cons k ks)
  let ?rest = "filter (\<lambda>x. f x \<noteq> k) xs"
  have "mset (concat (map (\<lambda>j. filter (\<lambda>x. f x = j) ?rest) ks)) = mset ?rest"
    by (rule Cons.IH) (use Cons.prems in auto)
  moreover have "map (\<lambda>j. filter (\<lambda>x. f x = j) ?rest) ks = map (\<lambda>j. filter (\<lambda>x. f x = j) xs) ks"
    using Cons.prems(1) by (auto intro!: filter_cong)
  moreover have "mset (filter (\<lambda>x. f x = k) xs) + mset ?rest = mset xs"
    by (induction xs) auto
  ultimately show ?case by (simp only: list.map concat.simps mset_append)
qed

lemma mset_sort_cards [simp]: "mset (sort_cards cards) = mset cards"
  by (simp add: sort_cards_def)

lemma sort_cards_empty [simp]: "sort_cards cards = [] \<longleftrightarrow> cards = []"
  by (metis mset_sort_cards mset_zero_iff)

lemma set_sort_cards [simp]: "set (sort_cards cards) = set cards"
  by (metis mset_sort_cards set_mset_mset)

lemma distinct_CATEGORY_ORDER: "distinct CATEGORY_ORDER"
  by (simp add: CATEGORY_ORDER_def)

lemma item_of_card [simp]: "cc_item (catalog_card E item) = item"
  by (simp add: catalog_card_def)

text \<open>C38: the catalog page shows every item exactly once, each under its category, or under
  \<^verbatim>\<open>Other\<close> when it has none, and no group is empty. The groups stand in this order: first the
  known categories that have an item, in the order of the fixed list \<^verbatim>\<open>CATEGORY_ORDER\<close>, then the
  other categories that have one, alphabetically and each once. Inside a group the cards are
  ordered by sort order and name.\<close>

theorem catalog_groups_partition:
  assumes "build_groups E items = (groups, names)"
  defines "categories \<equiv> (\<lambda>item. unwrap_or ''Other'' (ci_category item)) ` set items"
  shows "mset (map cc_item (concat (map cg_cards groups))) = mset items \<and>
    map cg_name groups = names \<and>
    (\<exists>others. names = filter (\<lambda>c. c \<in> categories) CATEGORY_ORDER @ others \<and>
       distinct names \<and> sorted others \<and> set others = categories - set CATEGORY_ORDER) \<and>
    (\<forall>g \<in> set groups. cg_cards g \<noteq> [] \<and>
       (\<forall>c \<in> set (cg_cards g). unwrap_or ''Other'' (ci_category (cc_item c)) = cg_name g) \<and>
       sorted_wrt (\<lambda>a b. (sint (ci_sort_order (cc_item a)), ci_name (cc_item a)) \<le>
         (sint (ci_sort_order (cc_item b)), ci_name (cc_item b))) (cg_cards g))"
proof -
  define cards where "cards = map (catalog_card E) items"
  define part where "part = (\<lambda>k. filter (\<lambda>c. card_category c = k) cards)"
  have names: "names = filter (\<lambda>c. by_category cards c \<noteq> None) CATEGORY_ORDER @
      sort (filter (\<lambda>c. c \<notin> set CATEGORY_ORDER) (remdups (map card_category cards)))"
    and groups: "groups = map (\<lambda>name. \<lparr>cg_name = name, cg_cards = unwrap_or [] (by_category cards name)\<rparr>) names"
    using assms by (auto simp: build_groups_def cards_def Let_def)
  have set_names: "set names = card_category ` set cards"
    by (auto simp: names by_category_at filter_empty_conv image_iff)
  have distinct: "distinct names"
    using distinct_CATEGORY_ORDER by (auto simp: names)
  have categories: "card_category ` set cards = categories"
    by (simp add: categories_def cards_def card_category_def image_image)
  have known: "by_category cards c \<noteq> None \<longleftrightarrow> c \<in> categories" for c
    by (auto simp: by_category_at filter_empty_conv categories [symmetric])
  let ?others = "sort (filter (\<lambda>c. c \<notin> set CATEGORY_ORDER) (remdups (map card_category cards)))"
  have "names = filter (\<lambda>c. c \<in> categories) CATEGORY_ORDER @ ?others"
    unfolding names known ..
  moreover have "sorted ?others" "set ?others = categories - set CATEGORY_ORDER"
    by (auto simp: categories [symmetric])
  ultimately have order: "\<exists>others. names = filter (\<lambda>c. c \<in> categories) CATEGORY_ORDER @ others \<and>
      distinct names \<and> sorted others \<and> set others = categories - set CATEGORY_ORDER"
    using distinct by blast
  have part: "unwrap_or [] (by_category cards k) = sort_cards (part k)" for k
    by (simp add: by_category_at part_def unwrap_or_def sort_cards_def)
  have "mset (concat (map (\<lambda>k. sort_cards (part k)) ks)) = mset (concat (map part ks))" for ks
    by (induction ks) simp_all
  then have "mset (concat (map cg_cards groups)) = mset (concat (map part names))"
    by (simp add: groups part comp_def)
  also have "\<dots> = mset cards"
    unfolding part_def by (rule mset_by_key [OF distinct]) (simp add: set_names)
  finally have "mset (map cc_item (concat (map cg_cards groups))) = mset (map cc_item cards)"
    by (simp only: mset_map)
  moreover have "map cc_item cards = items" by (simp add: cards_def comp_def)
  moreover have "cg_cards g \<noteq> [] \<and>
       (\<forall>c \<in> set (cg_cards g). unwrap_or ''Other'' (ci_category (cc_item c)) = cg_name g) \<and>
       sorted_wrt (\<lambda>a b. (sint (ci_sort_order (cc_item a)), ci_name (cc_item a)) \<le>
         (sint (ci_sort_order (cc_item b)), ci_name (cc_item b))) (cg_cards g)"
    if g: "g \<in> set groups" for g
  proof -
    obtain k where "k \<in> set names" "g = \<lparr>cg_name = k, cg_cards = unwrap_or [] (by_category cards k)\<rparr>"
      using g unfolding groups by auto
    then have k: "k \<in> set names" "g = \<lparr>cg_name = k, cg_cards = sort_cards (part k)\<rparr>"
      by (simp_all only: part)
    then have "part k \<noteq> []" by (auto simp: set_names part_def filter_empty_conv)
    moreover have "sorted (map (\<lambda>c. (sint (ci_sort_order (cc_item c)), ci_name (cc_item c))) (sort_cards (part k)))"
      by (simp add: sort_cards_def)
    ultimately show ?thesis
      using k by (auto simp: sorted_map part_def card_category_def)
  qed
  moreover have "map cg_name groups = names" by (simp add: groups comp_def)
  ultimately show ?thesis using order by blast
qed

section \<open>Form values\<close>

lemma trim_space: "trim (CHR '' '' # s) = trim s"
proof -
  have "List.find (\<lambda>w. w \<noteq> [] \<and> starts_with w (CHR '' '' # s)) white_space = Some '' ''"
    by (simp add: white_space_def starts_with_def)
  then have "strip_all white_space (CHR '' '' # s) = strip_all white_space s"
    by (subst strip_all.simps) simp
  then show ?thesis by (simp add: trim_def trim_start_def)
qed

lemma trim_empty: "trim [] = []"
  using strip_all_suffix [of "[]"] by (simp add: trim_def trim_start_def trim_end_def)

text \<open>Pieces without the separator, joined and split again.\<close>

lemma split_on_join:
  "ps \<noteq> [] \<Longrightarrow> (\<And>p. p \<in> set ps \<Longrightarrow> c \<notin> set p) \<Longrightarrow> split_on c (join [c] ps) = ps"
  by (induction "[c]" ps rule: join.induct) (auto simp: split_on_simple split_on_append)

lemma join_padded: "join (c # pad) (p # ps) = join [c] (p # map ((@) pad) ps)"
proof (induction ps arbitrary: p)
  case (Cons q ps)
  then show ?case by (cases ps) auto
qed simp

definition choice_text :: "string \<Rightarrow> bool" where
  "choice_text c \<longleftrightarrow> c \<noteq> [] \<and> trim c = c \<and> CHR '','' \<notin> set c"

lemma coerce_choices:
  assumes "list_all choice_text choices" "pad = [] \<or> pad = '' ''"
  shows "coerce_answer E (Some IMultiSelect) (join ('','' @ pad) choices) = JArray (map JString choices)"
proof (cases choices)
  case Nil
  show ?thesis by (simp add: Nil trim_empty)
next
  case (Cons p ps)
  have split: "split_on CHR '','' (join [CHR '',''] (p # map ((@) pad) ps)) = p # map ((@) pad) ps"
    by (rule split_on_join) (use assms in \<open>auto simp: Cons list_all_iff choice_text_def\<close>)
  have "trim (pad @ c) = trim c" for c using assms(2) by (auto simp: trim_space)
  then have "map trim (p # map ((@) pad) ps) = p # ps"
    using assms(1) by (simp add: Cons list_all_iff choice_text_def map_idI)
  then show ?thesis
    using assms(1) split join_padded [of "CHR '',''" pad p ps]
    by (simp add: Cons list_all_iff choice_text_def filter_id_conv del: list.map)
qed

text \<open>C39: an answer typed into a form is the value the branches of the workflow compare with. After
  the answer is stored under its key, whatever is stored under others: a condition
  \<^verbatim>\<open>equals true\<close> holds of a checkbox exactly when the form sent \<^verbatim>\<open>true\<close> or \<^verbatim>\<open>on\<close>, and \<^verbatim>\<open>equals false\<close> exactly when
  it sent anything else; \<^verbatim>\<open>equals x\<close>, for a float \<open>x\<close>, holds of a number exactly when the text parses to
  \<open>x\<close>, and a text that does not parse is \<^verbatim>\<open>null\<close>; \<^verbatim>\<open>equals s\<close> holds of a text, a selection or a date
  exactly when \<open>s\<close> is what was typed, unchanged, and that is what the request's page shows
  again. The choices of a multiple choice, sent separated by commas with or without a space,
  arrive as the array of exactly these choices in their order; this is stated for choices that
  are not empty, hold no comma and have no white space at their ends.\<close>

theorem coerced_answer_compares:
  assumes "list_all choice_text choices" "plain \<in> {None, Some IText, Some ITextArea, Some ISelect, Some IDate}"
  shows "(eval_condition (Equals key (JBool b)) (obj_insert key (coerce_answer E (Some IBoolean) raw) answers) \<longleftrightarrow>
        b = (raw \<in> {''true'', ''on''})) \<and>
    (eval_condition (Equals key (JNumber (Float x))) (obj_insert key (coerce_answer E (Some INumber) raw) answers) \<longleftrightarrow>
        env_parse_f64 E raw = Some x) \<and>
    (eval_condition (Equals key JNull) (obj_insert key (coerce_answer E (Some INumber) raw) answers) \<longleftrightarrow>
        env_parse_f64 E raw = None) \<and>
    (eval_condition (Equals key (JString s)) (obj_insert key (coerce_answer E plain raw) answers) \<longleftrightarrow> s = raw) \<and>
    display_value E (coerce_answer E plain raw) = raw \<and>
    (\<forall>separator \<in> {'','', '', ''}.
       eval_condition (Equals key (JArray items))
         (obj_insert key (coerce_answer E (Some IMultiSelect) (join separator choices)) answers) \<longleftrightarrow>
       items = map JString choices)"
proof -
  have "coerce_answer E plain raw = JString raw" using assms(2) by auto
  moreover have "coerce_answer E (Some IMultiSelect) (join '','' choices) = JArray (map JString choices)"
    "coerce_answer E (Some IMultiSelect) (join '', '' choices) = JArray (map JString choices)"
    using coerce_choices [OF assms(1), of "[]"] coerce_choices [OF assms(1), of "'' ''"] by simp_all
  ultimately show ?thesis by (auto split: option.splits)
qed

theorem coerced_answer_compares_witness:
  "coerce_answer E1 (Some IMultiSelect) ''mouse, keyboard'' = JArray [JString ''mouse'', JString ''keyboard'']"
proof -
  have "list_all choice_text [''mouse'', ''keyboard'']"
    by (simp add: choice_text_def trim_def trim_start_def trim_end_def strip_all.simps white_space_def starts_with_def)
  then show ?thesis
    using coerced_answer_compares [where choices = "[''mouse'', ''keyboard'']" and plain = None
        and E = E1 and items = "[JString ''mouse'', JString ''keyboard'']" and answers = "[]"
        and key = "''k''" and b = True and raw = "''on''" and x = 0 and s = "''on''"]
    by (simp add: obj_get_def del: coerce_answer.simps)
qed

text \<open>A number typed into a form arrives as a float, and floats are never equal to integers: no
  condition on an integer an administrator wrote can hold of it.\<close>

lemma coerced_number_not_integer:
  "\<not> eval_condition (Equals key (JNumber (PosInt n))) [(key, coerce_answer E (Some INumber) raw)]"
  by (simp add: obj_get_def split: option.split)

section \<open>The preview of questions\<close>

lemma preview_loop_None [simp]: "preview_loop graph None acc = Some acc"
  by (simp add: preview_loop.simps)

lemma graph_step_distinct:
  assumes "distinct (map s_id (g_steps graph))" "s \<in> set (g_steps graph)"
  shows "graph_step graph (s_id s) = Some s"
proof -
  obtain s' where s': "graph_step graph (s_id s) = Some s'"
    using assms(2) graph_step_None_iff [of graph "s_id s"] by (cases "graph_step graph (s_id s)") (auto simp: step_ids_def)
  with graph_step_Some [OF s'] assms show ?thesis by (auto simp: distinct_map dest: inj_onD)
qed

lemma preview_questions_of_steps:
  assumes "distinct (map s_id (g_steps graph))" "set (question_steps i qs (s_id r) @ [r]) \<subseteq> set (g_steps graph)"
    and "\<And>a b c d e. s_kind r \<noteq> Question a b c d e"
  shows "preview_loop graph (Some (hd (question_steps i qs (s_id r) @ [r]))) acc =
    Some (acc @ map (\<lambda>q. \<lparr>qp_label = sq_label q, qp_required = sq_required q\<rparr>) qs)"
  using assms(2)
proof (induction qs arbitrary: i acc)
  case Nil
  then show ?case using assms(3) by (subst preview_loop.simps) (simp split: StepKind.split)
next
  case (Cons q qs)
  let ?next = "hd (question_steps (Suc i) qs (s_id r) @ [r])"
  have "graph_step graph (if qs \<noteq> [] then question_id (i + 2) else s_id r) = Some ?next"
  proof (cases qs)
    case Nil
    then show ?thesis using Cons.prems assms(1) by (simp add: graph_step_distinct)
  next
    case (Cons q' qs')
    then have "?next \<in> set (g_steps graph)" "s_id ?next = question_id (i + 2)"
      using Cons.prems by auto
    then show ?thesis using graph_step_distinct [OF assms(1)] Cons by fastforce
  qed
  then show ?case using Cons.IH [of "Suc i"] Cons.prems by (subst preview_loop.simps) simp
qed

lemma pattern_steps_shape:
  "\<exists>r rest. pattern_steps pattern questions = question_steps 0 questions (s_id r) @ r # rest \<and>
     (\<forall>a b c d e. s_kind r \<noteq> Question a b c d e)"
  by (cases pattern)
    (fastforce simp: push_submit_and_ends_def append_questions_def end_step_def approval_step_def)+

text \<open>The preview of a starter item's questions ends, and shows exactly the questions the
  item was seeded with, in their order and with their required flags, whatever its pattern.\<close>

lemma seeded_preview:
  assumes "build_graph pattern questions = Some graph"
  shows "preview_questions graph =
    Some (map (\<lambda>q. \<lparr>qp_label = sq_label q, qp_required = sq_required q\<rparr>) questions)"
proof -
  obtain r rest where steps: "pattern_steps pattern questions = question_steps 0 questions (s_id r) @ r # rest"
    and r: "\<And>a b c d e. s_kind r \<noteq> Question a b c d e"
    using pattern_steps_shape [of pattern questions] by blast
  let ?steps = "question_steps 0 questions (s_id r) @ r # rest"
  have graph: "graph = \<lparr>g_entry_step_id = s_id (hd ?steps), g_steps = ?steps\<rparr>"
    using assms by (auto simp: build_graph_def steps Let_def split: list.splits)
  have dist: "distinct (map s_id (g_steps graph))"
    using forward_only_valid(1) [OF conjunct1 [OF pattern_steps_forward [of pattern questions]]] by (simp add: graph steps)
  have "hd ?steps \<in> set (g_steps graph)" by (simp add: graph hd_append)
  then have "graph_step graph (g_entry_step_id graph) = Some (hd ?steps)"
    using graph_step_distinct [OF dist] by (simp add: graph)
  moreover have "hd ?steps = hd (question_steps 0 questions (s_id r) @ [r])"
    by (simp add: hd_append)
  ultimately show ?thesis
    using preview_questions_of_steps [OF dist _ r, of 0 questions "[]"] by (auto simp: preview_questions_def graph)
qed

lemma seeded_preview_example:
  "\<exists>graph. build_graph SimpleTicket
      [\<lparr>sq_field_key = ''k'', sq_label = ''Why'', sq_input_type = IText, sq_required = True, sq_options = []\<rparr>] = Some graph \<and>
    preview_questions graph = Some [\<lparr>qp_label = ''Why'', qp_required = True\<rparr>]"
proof -
  let ?q = "\<lparr>sq_field_key = ''k'', sq_label = ''Why'', sq_input_type = IText, sq_required = True, sq_options = []\<rparr>"
  obtain graph where graph: "build_graph SimpleTicket [?q] = Some graph"
    by (simp add: build_graph_def append_questions_def push_submit_and_ends_def)
  then show ?thesis using seeded_preview [OF graph] by simp
qed

text \<open>On a graph an administrator draws, the walk has no bound: a cycle of questions keeps it,
  and with it the request for the item's page, from ever returning.\<close>

lemma preview_never_ends:
  assumes cycle: "\<And>s. s \<in> cycle \<Longrightarrow> \<exists>k ty req opts nxt s'. s_kind s = Question k ty req opts nxt \<and>
      graph_step graph nxt = Some s' \<and> s' \<in> cycle"
    and "graph_step graph (g_entry_step_id graph) = Some s" "s \<in> cycle"
  shows "preview_questions graph = None"
proof -
  have "c \<notin> Some ` cycle" if "preview_loop graph c acc = Some out" for c acc out
  proof -
    have "graph = graph \<longrightarrow> c \<notin> Some ` cycle"
    proof (rule preview_loop.raw_induct [where P = "\<lambda>g c acc out. g = graph \<longrightarrow> c \<notin> Some ` cycle", OF _ that])
      fix loop g and c :: "Step option" and acc out
      assume IH: "\<And>g c acc out. loop g c acc = Some out \<Longrightarrow> g = graph \<longrightarrow> c \<notin> Some ` cycle"
        and run: "(case c of None \<Rightarrow> Some acc
          | Some step \<Rightarrow> (case s_kind step of
              Question _ _ required _ nxt \<Rightarrow>
                loop g (graph_step g nxt) (acc @ [\<lparr>qp_label = s_label step, qp_required = required\<rparr>])
            | _ \<Rightarrow> Some acc)) = Some out"
      show "g = graph \<longrightarrow> c \<notin> Some ` cycle"
      proof (intro impI notI)
        assume "g = graph" "c \<in> Some ` cycle"
        then obtain s k ty req opts nxt s' where "c = Some s" "s_kind s = Question k ty req opts nxt"
          "graph_step g nxt = Some s'" "s' \<in> cycle" using cycle by blast
        then show False using IH run \<open>g = graph\<close> by fastforce
      qed
    qed
    then show ?thesis using that by blast
  qed
  then show ?thesis
    using assms(2,3) unfolding preview_questions_def by (metis imageI not_Some_eq)
qed

theorem catalog_groups_partition_witness:
  "\<exists>groups names. build_groups E1 [sample_item] = (groups, names) \<and>
     mset (map cc_item (concat (map cg_cards groups))) = {#sample_item#} \<and> map cg_name groups = names"
proof -
  obtain groups names where g: "build_groups E1 [sample_item] = (groups, names)"
    by (cases "build_groups E1 [sample_item]")
  then show ?thesis using catalog_groups_partition [OF g] by auto
qed

end
