(* ===== verification/Web_Admin.thy ===== *)
theory Web_Admin
  imports Web_Pages
begin

text \<open>
  The administrator's pages, \<^verbatim>\<open>src/crates/server/src/web/pages/admin\<close>. Each handler takes the
  user the session middleware resolved; a form is the record axum decodes it to.

  Shown: every page refuses whoever is not an administrator, before it reads anything; the
  target time of an item is stored whole or not at all; the pages of the audit log show every
  entry once; the cache of actor names does not change what is shown; only a known time zone
  reaches the settings.
\<close>

section \<open>mod.rs\<close>

definition require_admin :: "User \<Rightarrow> (ApiError, unit) act" where
  "require_admin user = (if u_role user = Admin then return () else fail Forbidden)"

section \<open>audit\_log.rs\<close>

definition PAGE_SIZE :: i64 where
  "PAGE_SIZE = 50"

record AuditRow =
  aw_actor_label :: string
  aw_action :: string
  aw_entity_type :: string
  aw_entity_id :: "string option"
  aw_metadata :: "string option"
  aw_created_at :: timestamp

record AuditLogTemplate =
  at_layout :: Layout
  at_rows :: "AuditRow list"
  at_page :: i64
  at_total_pages :: i64
  at_has_prev :: bool
  at_has_next :: bool
  at_prev_page :: i64
  at_next_page :: i64

definition audit_row :: "env \<Rightarrow> string \<Rightarrow> AuditLogEntry \<Rightarrow> AuditRow" where
  "audit_row E actor_label entry =
     \<lparr>aw_actor_label = actor_label, aw_action = al_action entry, aw_entity_type = al_entity_type entry,
      aw_entity_id = al_entity_id entry, aw_metadata = map_option (env_json_str E) (al_metadata_json entry),
      aw_created_at = al_created_at entry\<rparr>"

definition removed_user :: string where
  "removed_user = ''(deactivated or removed user)''"

text \<open>The label of one entry and the cache of names after it.\<close>

definition actor_label ::
    "env \<Rightarrow> (uuid \<rightharpoonup> string) \<Rightarrow> uuid option \<Rightarrow> (ApiError, string \<times> (uuid \<rightharpoonup> string)) act" where
  "actor_label E actor_names actor_user_id =
     (case actor_user_id of
        None \<Rightarrow> return (''System'', actor_names)
      | Some actor_id \<Rightarrow>
          (case actor_names actor_id of
             Some name \<Rightarrow> return (name, actor_names)
           | None \<Rightarrow>
               bindM (map_err api_of_db (users_get_by_id E actor_id)) (\<lambda>r.
               let name = unwrap_or removed_user (map_option u_display_name r) in
               return (name, actor_names(actor_id \<mapsto> name)))))"

fun audit_rows ::
    "env \<Rightarrow> (uuid \<rightharpoonup> string) \<Rightarrow> AuditLogEntry list \<Rightarrow> (ApiError, AuditRow list) act" where
  "audit_rows E actor_names [] = return []"
| "audit_rows E actor_names (entry # entries) =
     bindM (actor_label E actor_names (al_actor_user_id entry)) (\<lambda>(label, actor_names).
     bindM (audit_rows E actor_names entries) (\<lambda>rows. return (audit_row E label entry # rows)))"

definition total_pages :: "i64 \<Rightarrow> i64" where
  "total_pages entries = max_i64 (word_of_int (sint (max_i64 entries 0 + PAGE_SIZE - 1) sdiv sint PAGE_SIZE)) 1"

definition admin_audit_log :: "env \<Rightarrow> User \<Rightarrow> i64 option \<Rightarrow> (ApiError, AuditLogTemplate web_response) act" where
  "admin_audit_log E user query_page =
     bindM (require_admin user) (\<lambda>_.
     bindM (layout_load E user ''admin'') (\<lambda>layout.
     let page = max_i64 (unwrap_or 1 query_page) 1 in
     bindM (map_err api_of_db (audit_count E)) (\<lambda>total.
     bindM (map_err api_of_db (audit_list E (page - 1) PAGE_SIZE)) (\<lambda>entries.
     bindM (audit_rows E Map.empty entries) (\<lambda>rows.
     return (Page
       \<lparr>at_layout = layout, at_rows = rows, at_page = page, at_total_pages = total_pages total,
        at_has_prev = 1 <s page, at_has_next = page <s total_pages total,
        at_prev_page = page - 1, at_next_page = page + 1\<rparr>))))))"

section \<open>settings.rs\<close>

record TimezoneOption =
  tz_name :: string
  tz_selected :: bool

record SettingsTemplate =
  st_layout :: Layout
  st_app_name :: string
  st_allow_local_signup :: bool
  st_sso_enabled :: bool
  st_timezones :: "TimezoneOption list"
  st_error :: "string option"

definition timezone_options :: "env \<Rightarrow> string \<Rightarrow> TimezoneOption list" where
  "timezone_options E current =
     map (\<lambda>name. \<lparr>tz_name = name, tz_selected = (name = current)\<rparr>) (sort (all_names E))"

definition admin_settings_show :: "env \<Rightarrow> AppState \<Rightarrow> User \<Rightarrow> (ApiError, SettingsTemplate web_response) act" where
  "admin_settings_show E state user =
     bindM (require_admin user) (\<lambda>_.
     bindM (layout_load E user ''admin'') (\<lambda>layout.
     bindM (map_err api_of_db (org_settings_get E)) (\<lambda>settings.
     return (Page
       \<lparr>st_layout = layout, st_app_name = os_app_name settings,
        st_allow_local_signup = os_allow_local_signup settings, st_sso_enabled = (as_sso state \<noteq> None),
        st_timezones = timezone_options E (os_timezone settings), st_error = None\<rparr>))))"

definition admin_settings_update ::
    "env \<Rightarrow> AppState \<Rightarrow> User \<Rightarrow> string \<Rightarrow> bool \<Rightarrow> string \<Rightarrow> (ApiError, SettingsTemplate web_response) act" where
  "admin_settings_update E state user form_app_name form_allow_local_signup form_timezone =
     bindM (require_admin user) (\<lambda>_.
     if \<not> is_valid E form_timezone
     then
       bindM (layout_load E user ''admin'') (\<lambda>layout.
       return (Page
         \<lparr>st_layout = layout, st_app_name = form_app_name,
          st_allow_local_signup = form_allow_local_signup, st_sso_enabled = (as_sso state \<noteq> None),
          st_timezones = timezone_options E form_timezone,
          st_error = Some ''Please choose a valid timezone from the list.''\<rparr>))
     else
       bindM (map_err api_of_db (org_settings_update E
                \<lparr>uos_app_name = Some form_app_name, uos_allow_local_signup = Some form_allow_local_signup,
                 uos_timezone = Some form_timezone\<rparr>)) (\<lambda>_.
       return (Redirect ''/admin/settings'')))"

section \<open>departments.rs\<close>

definition is_selected_parent :: "uuid option \<Rightarrow> uuid \<Rightarrow> bool" where
  "is_selected_parent parent candidate \<longleftrightarrow> parent = Some candidate"

record DepartmentsTemplate =
  dt_layout :: Layout
  dt_departments :: "Department list"

definition admin_departments_list :: "env \<Rightarrow> User \<Rightarrow> (ApiError, DepartmentsTemplate web_response) act" where
  "admin_departments_list E user =
     bindM (require_admin user) (\<lambda>_.
     bindM (layout_load E user ''admin'') (\<lambda>layout.
     bindM (map_err api_of_db (departments_list E)) (\<lambda>all_departments.
     return (Page \<lparr>dt_layout = layout, dt_departments = all_departments\<rparr>))))"

text \<open>\<^verbatim>\<open>.filter(|s| !s.is_empty()).and_then(|s| Uuid::parse_str(&s).ok())\<close>.\<close>

definition form_uuid :: "env \<Rightarrow> string option \<Rightarrow> uuid option" where
  "form_uuid E s = (case s of None \<Rightarrow> None | Some t \<Rightarrow> if t = [] then None else env_uuid_parse E t)"

definition admin_departments_create ::
    "env \<Rightarrow> User \<Rightarrow> string \<Rightarrow> string option \<Rightarrow> (ApiError, unit web_response) act" where
  "admin_departments_create E user form_name form_parent =
     bindM (require_admin user) (\<lambda>_.
     bindM (map_err api_of_db (departments_create E
              \<lparr>nd_name = form_name, nd_parent_department_id = form_uuid E form_parent\<rparr>)) (\<lambda>_.
     return (Redirect ''/admin/departments'')))"

definition admin_departments_update ::
    "env \<Rightarrow> User \<Rightarrow> uuid \<Rightarrow> string \<Rightarrow> string option \<Rightarrow> (ApiError, unit web_response) act" where
  "admin_departments_update E user i form_name form_parent =
     bindM (require_admin user) (\<lambda>_.
     bindM (map_err api_of_db (departments_update E i
              \<lparr>ud_name = Some form_name, ud_parent_department_id = form_uuid E form_parent\<rparr>)) (\<lambda>r.
     bindM (ok_or department_not_found r) (\<lambda>_.
     return (Redirect ''/admin/departments''))))"

definition admin_departments_delete :: "env \<Rightarrow> User \<Rightarrow> uuid \<Rightarrow> (ApiError, unit web_response) act" where
  "admin_departments_delete E user i =
     bindM (require_admin user) (\<lambda>_.
     bindM (map_err api_of_db (departments_delete E i)) (\<lambda>_.
     return (Redirect ''/admin/departments'')))"

section \<open>catalog.rs\<close>

record CatalogAdminTemplate =
  ca_layout :: Layout
  ca_items :: "ServiceCatalogItem list"
  ca_workflow_definitions :: "WorkflowDefinition list"
  ca_seed_message :: "string option"
  ca_seed_item_count :: nat

definition seed_message :: "nat option \<Rightarrow> nat option \<Rightarrow> string option" where
  "seed_message seed_added seed_skipped =
     (case (seed_added, seed_skipped) of
        (Some added, Some skipped) \<Rightarrow>
          Some (''Loaded the starter catalog: added '' @ nat_to_string added @ '' item'' @
            (if added = 1 then [] else ''s'') @ '', skipped '' @ nat_to_string skipped @ '' already present.'')
      | _ \<Rightarrow> None)"

text \<open>\<open>seed\<close> is the starter catalog built into the server.\<close>

definition admin_catalog_list ::
    "env \<Rightarrow> SeedItem list \<Rightarrow> User \<Rightarrow> nat option \<Rightarrow> nat option \<Rightarrow> (ApiError, CatalogAdminTemplate web_response) act" where
  "admin_catalog_list E seed user seed_added seed_skipped =
     bindM (require_admin user) (\<lambda>_.
     bindM (layout_load E user ''admin'') (\<lambda>layout.
     bindM (map_err api_of_db (catalog_list E True)) (\<lambda>items.
     bindM (map_err api_of_db (definitions_list E False)) (\<lambda>definitions.
     return (Page
       \<lparr>ca_layout = layout, ca_items = items, ca_workflow_definitions = definitions,
        ca_seed_message = seed_message seed_added seed_skipped,
        ca_seed_item_count = seed_item_count seed\<rparr>)))))"

record CatalogItemForm =
  cf_name :: string
  cf_summary :: string
  cf_description :: string
  cf_category :: string
  cf_icon :: string
  cf_approval_label :: string
  cf_target_value :: string
  cf_target_unit :: string
  cf_included :: string
  cf_not_included :: string
  cf_needed :: string
  cf_keywords :: string
  cf_workflow_definition_id :: "uuid option"
  cf_is_active :: bool

definition lines_to_vec :: "string \<Rightarrow> string list" where
  "lines_to_vec text = filter (\<lambda>line. line \<noteq> []) (map trim (str_lines text))"

definition parse_target :: "string \<Rightarrow> string \<Rightarrow> string + (i32 option \<times> TargetUnit option)" where
  "parse_target value0 unit0 =
     (let value = trim value0; u = trim unit0 in
      if value = [] \<and> u = [] then Inr (None, None)
      else if value \<noteq> [] \<and> u \<noteq> [] then
        (case parse_i32 value of
           None \<Rightarrow> Inl (''target time '' @ tick @ value @ tick @ '' isn'' @ tick @ ''t a whole number'')
         | Some parsed_value \<Rightarrow>
             if parsed_value <s 0 then Inl (''target time can'' @ tick @ ''t be negative'')
             else
               (case target_unit_from_str u of
                  Inl _ \<Rightarrow> Inl (tick @ u @ tick @ '' isn'' @ tick @ ''t a recognized target time unit'')
                | Inr parsed_unit \<Rightarrow> Inr (Some parsed_value, Some parsed_unit)))
      else Inl ''set both a target time and a unit, or leave both blank'')"

definition details_from_form :: "CatalogItemForm \<Rightarrow> CatalogItemDetails" where
  "details_from_form form =
     \<lparr>cd_included = lines_to_vec (cf_included form), cd_not_included = lines_to_vec (cf_not_included form),
      cd_needed = lines_to_vec (cf_needed form), cd_keywords = lines_to_vec (cf_keywords form)\<rparr>"

definition list_with_error ::
    "env \<Rightarrow> SeedItem list \<Rightarrow> User \<Rightarrow> string \<Rightarrow> (ApiError, CatalogAdminTemplate web_response) act" where
  "list_with_error E seed user error =
     bindM (layout_load E user ''admin'') (\<lambda>layout.
     bindM (map_err api_of_db (catalog_list E True)) (\<lambda>items.
     bindM (map_err api_of_db (definitions_list E False)) (\<lambda>definitions.
     return (BadRequestPage
       \<lparr>ca_layout = layout, ca_items = items, ca_workflow_definitions = definitions,
        ca_seed_message = Some (''Couldn'' @ tick @ ''t save: '' @ error),
        ca_seed_item_count = seed_item_count seed\<rparr>))))"

definition non_empty :: "string \<Rightarrow> string option" where
  "non_empty s = (if s = [] then None else Some s)"

definition admin_catalog_create ::
    "env \<Rightarrow> SeedItem list \<Rightarrow> User \<Rightarrow> CatalogItemForm \<Rightarrow> (ApiError, CatalogAdminTemplate web_response) act" where
  "admin_catalog_create E seed user form =
     bindM (require_admin user) (\<lambda>_.
     case cf_workflow_definition_id form of
       None \<Rightarrow> list_with_error E seed user ''Choose a workflow for this catalog item.''
     | Some workflow_definition_id \<Rightarrow>
         (case parse_target (cf_target_value form) (cf_target_unit form) of
            Inl err \<Rightarrow> list_with_error E seed user err
          | Inr (target_value, target_unit) \<Rightarrow>
              bindM (map_err api_of_db (catalog_create E
                \<lparr>nci_slug = None, nci_name = cf_name form,
                 nci_description = non_empty (cf_description form),
                 nci_summary = non_empty (cf_summary form),
                 nci_details = Some (details_from_form form),
                 nci_approval_label = non_empty (cf_approval_label form),
                 nci_target_value = target_value, nci_target_unit = target_unit,
                 nci_category = non_empty (cf_category form), nci_icon = non_empty (cf_icon form),
                 nci_sort_order = 0, nci_workflow_definition_id = workflow_definition_id\<rparr>
                (u_id user))) (\<lambda>_.
              return (Redirect ''/admin/catalog''))))"

definition admin_catalog_toggle :: "env \<Rightarrow> User \<Rightarrow> uuid \<Rightarrow> bool \<Rightarrow> (ApiError, unit web_response) act" where
  "admin_catalog_toggle E user i form_is_active =
     bindM (require_admin user) (\<lambda>_.
     bindM (map_err api_of_db (catalog_update E i
       \<lparr>uci_name = None, uci_description = None, uci_summary = None, uci_details = None,
        uci_approval_label = None, uci_target_value = None, uci_target_unit = None, uci_category = None,
        uci_icon = None, uci_sort_order = None, uci_is_active = Some form_is_active\<rparr>)) (\<lambda>r.
     bindM (ok_or (ApiNotFound ''catalog item not found'') r) (\<lambda>_.
     return (Redirect ''/admin/catalog''))))"

record CatalogEditTemplate =
  ce_layout :: Layout
  ce_item :: ServiceCatalogItem
  ce_details :: CatalogItemDetails
  ce_error :: "string option"

definition admin_catalog_edit_form :: "env \<Rightarrow> User \<Rightarrow> uuid \<Rightarrow> (ApiError, CatalogEditTemplate web_response) act" where
  "admin_catalog_edit_form E user i =
     bindM (require_admin user) (\<lambda>_.
     bindM (layout_load E user ''admin'') (\<lambda>layout.
     bindM (map_err api_of_db (catalog_get_by_id E i)) (\<lambda>r.
     bindM (ok_or (ApiNotFound ''catalog item not found'') r) (\<lambda>item.
     return (Page \<lparr>ce_layout = layout, ce_item = item, ce_details = item_details item, ce_error = None\<rparr>)))))"

definition edit_form_error ::
    "env \<Rightarrow> User \<Rightarrow> uuid \<Rightarrow> CatalogItemForm \<Rightarrow> string \<Rightarrow> (ApiError, CatalogEditTemplate web_response) act" where
  "edit_form_error E user i form error =
     bindM (layout_load E user ''admin'') (\<lambda>layout.
     bindM (map_err api_of_db (catalog_get_by_id E i)) (\<lambda>r.
     bindM (ok_or (ApiNotFound ''catalog item not found'') r) (\<lambda>item.
     return (Page
       \<lparr>ce_layout = layout,
        ce_item = item\<lparr>ci_name := cf_name form, ci_description := Some (cf_description form),
          ci_summary := Some (cf_summary form), ci_approval_label := Some (cf_approval_label form),
          ci_category := Some (cf_category form), ci_icon := Some (cf_icon form),
          ci_is_active := cf_is_active form\<rparr>,
        ce_details = details_from_form form, ce_error = Some error\<rparr>))))"

definition admin_catalog_edit ::
    "env \<Rightarrow> User \<Rightarrow> uuid \<Rightarrow> CatalogItemForm \<Rightarrow> (ApiError, CatalogEditTemplate web_response) act" where
  "admin_catalog_edit E user i form =
     bindM (require_admin user) (\<lambda>_.
     case parse_target (cf_target_value form) (cf_target_unit form) of
       Inl err \<Rightarrow> edit_form_error E user i form err
     | Inr (target_value, target_unit) \<Rightarrow>
         bindM (map_err api_of_db (catalog_update E i
           \<lparr>uci_name = Some (cf_name form), uci_description = Some (cf_description form),
            uci_summary = Some (cf_summary form), uci_details = Some (details_from_form form),
            uci_approval_label = Some (cf_approval_label form), uci_target_value = target_value,
            uci_target_unit = target_unit, uci_category = Some (cf_category form),
            uci_icon = Some (cf_icon form), uci_sort_order = None,
            uci_is_active = Some (cf_is_active form)\<rparr>)) (\<lambda>updated.
         if updated = None then fail (ApiNotFound ''catalog item not found'')
         else return (Redirect ''/admin/catalog'')))"

definition load_starter :: "env \<Rightarrow> SeedItem list \<Rightarrow> User \<Rightarrow> (ApiError, unit web_response) act" where
  "load_starter E seed user =
     bindM (require_admin user) (\<lambda>_.
     bindM (seed_run E seed (u_id user)) (\<lambda>summary.
     return (Redirect (''/admin/catalog?seed_added='' @ nat_to_string (sm_added summary) @
       ''&seed_skipped='' @ nat_to_string (sm_skipped summary)))))"

section \<open>users.rs\<close>

record UserRow =
  ur_id :: uuid
  ur_email :: string
  ur_display_name :: string
  ur_role :: Role
  ur_department_id :: "uuid option"
  ur_is_active :: bool

record UsersTemplate =
  ut_layout :: Layout
  ut_users :: "UserRow list"
  ut_departments :: "Department list"
  ut_current_user_id :: uuid

definition admin_users_list :: "env \<Rightarrow> User \<Rightarrow> (ApiError, UsersTemplate web_response) act" where
  "admin_users_list E user =
     bindM (require_admin user) (\<lambda>_.
     bindM (layout_load E user ''admin'') (\<lambda>layout.
     bindM (map_err api_of_db (users_list E True)) (\<lambda>all_users.
     bindM (map_err api_of_db (departments_list E)) (\<lambda>all_departments.
     return (Page
       \<lparr>ut_layout = layout,
        ut_users = map (\<lambda>u. \<lparr>ur_id = u_id u, ur_email = u_email u, ur_display_name = u_display_name u,
          ur_role = u_role u, ur_department_id = u_department_id u, ur_is_active = u_is_active u\<rparr>) all_users,
        ut_departments = all_departments, ut_current_user_id = u_id user\<rparr>)))))"

definition form_role :: "string \<Rightarrow> (ApiError, Role) act" where
  "form_role s = map_err (\<lambda>_. BadRequest ''invalid role'') (lift_sum (role_from_str s))"

definition admin_users_create ::
    "env \<Rightarrow> User \<Rightarrow> string \<Rightarrow> string \<Rightarrow> string \<Rightarrow> string \<Rightarrow> (ApiError, unit web_response) act" where
  "admin_users_create E user form_email form_display_name form_password form_role_name =
     bindM (require_admin user) (\<lambda>_.
     bindM (form_role form_role_name) (\<lambda>role.
     bindM (hash_password E form_password) (\<lambda>password_hash.
     bindM (map_err api_of_db (users_create E
              \<lparr>nu_email = form_email, nu_display_name = form_display_name, nu_password = None,
               nu_external_idp_subject = None, nu_department_id = None, nu_manager_user_id = None,
               nu_role = role\<rparr> (Some password_hash))) (\<lambda>created.
     bindM (audit_user_action E user ''user.create'' (u_id created)
              (Some (JObject [(''email'', JString (u_email created)),
                (''role'', JString (role_as_str (u_role created)))]))) (\<lambda>_.
     return (Redirect ''/admin/users''))))))"

definition admin_users_update ::
    "env \<Rightarrow> User \<Rightarrow> uuid \<Rightarrow> string \<Rightarrow> string option \<Rightarrow> string option \<Rightarrow> string option \<Rightarrow>
     (ApiError, unit web_response) act" where
  "admin_users_update E user i form_role_name form_department_id form_manager_user_id form_is_active =
     bindM (require_admin user) (\<lambda>_.
     bindM (form_role form_role_name) (\<lambda>role.
     bindM (map_err api_of_db (users_update E i
              \<lparr>uu_display_name = None, uu_department_id = form_uuid E form_department_id,
               uu_manager_user_id = form_uuid E form_manager_user_id, uu_role = Some role,
               uu_is_active = Some (form_is_active = Some ''true'')\<rparr>)) (\<lambda>r.
     bindM (ok_or (ApiNotFound ''user not found'') r) (\<lambda>updated.
     bindM (audit_user_action E user ''user.update'' (u_id updated) None) (\<lambda>_.
     return (Redirect ''/admin/users''))))))"

definition admin_users_deactivate :: "env \<Rightarrow> User \<Rightarrow> uuid \<Rightarrow> (ApiError, unit web_response) act" where
  "admin_users_deactivate E user i =
     bindM (require_admin user) (\<lambda>_.
     if u_id user = i then fail (BadRequest ''you cannot deactivate your own account'')
     else
       bindM (map_err api_of_db (users_deactivate E i)) (\<lambda>_.
       bindM (revoke_all_sessions E i) (\<lambda>_.
       bindM (audit_user_action E user ''user.deactivate'' i None) (\<lambda>_.
       return (Redirect ''/admin/users'')))))"

section \<open>workflows.rs\<close>

record WorkflowsTemplate =
  wt_layout :: Layout
  wt_definitions :: "WorkflowDefinition list"
  wt_users :: "User list"
  wt_error :: "string option"
  wt_prefill_name :: string
  wt_prefill_target_system :: string
  wt_prefill_graph_json :: string
  wt_prefill_field_mapping_json :: string

record CreateWorkflowForm =
  wf_name :: string
  wf_target_system :: string
  wf_graph_json :: string
  wf_field_mapping_json :: string

definition workflows_page ::
    "env \<Rightarrow> User \<Rightarrow> string option \<Rightarrow> CreateWorkflowForm \<Rightarrow> (ApiError, WorkflowsTemplate web_response) act" where
  "workflows_page E user error form =
     bindM (layout_load E user ''admin'') (\<lambda>layout.
     bindM (map_err api_of_db (definitions_list E False)) (\<lambda>definitions.
     bindM (map_err api_of_db (users_list E False)) (\<lambda>users.
     return (Page
       \<lparr>wt_layout = layout, wt_definitions = definitions, wt_users = users, wt_error = error,
        wt_prefill_name = wf_name form, wt_prefill_target_system = wf_target_system form,
        wt_prefill_graph_json = wf_graph_json form,
        wt_prefill_field_mapping_json = wf_field_mapping_json form\<rparr>))))"

definition admin_workflows_list :: "env \<Rightarrow> User \<Rightarrow> (ApiError, WorkflowsTemplate web_response) act" where
  "admin_workflows_list E user =
     bindM (require_admin user) (\<lambda>_.
     workflows_page E user None
       \<lparr>wf_name = [], wf_target_system = [], wf_graph_json = [], wf_field_mapping_json = []\<rparr>)"

definition workflow_form_error ::
    "env \<Rightarrow> User \<Rightarrow> string \<Rightarrow> CreateWorkflowForm \<Rightarrow> (ApiError, WorkflowsTemplate web_response) act" where
  "workflow_form_error E user error form = workflows_page E user (Some error) form"

text \<open>\<open>graph_from_str\<close> and \<open>mapping_from_str\<close> are \<^verbatim>\<open>serde_json::from_str\<close> at the two types.\<close>

definition form_field_mapping ::
    "(string \<Rightarrow> string + FieldMapping) \<Rightarrow> CreateWorkflowForm \<Rightarrow> string + FieldMapping option" where
  "form_field_mapping mapping_from_str form =
     (if trim (wf_field_mapping_json form) = [] then Inr None
      else case mapping_from_str (wf_field_mapping_json form) of
        Inl err \<Rightarrow> Inl (''field mapping JSON: '' @ err)
      | Inr m \<Rightarrow> Inr (Some m))"

definition form_target_system :: "CreateWorkflowForm \<Rightarrow> string + TargetSystem option" where
  "form_target_system form =
     (if wf_target_system form = [] then Inr None
      else case target_system_from_str (wf_target_system form) of Inl err \<Rightarrow> Inl err | Inr t \<Rightarrow> Inr (Some t))"

definition admin_workflows_create ::
    "env \<Rightarrow> (string \<Rightarrow> string + WorkflowGraph) \<Rightarrow> (string \<Rightarrow> string + FieldMapping) \<Rightarrow> User \<Rightarrow>
     CreateWorkflowForm \<Rightarrow> (ApiError, WorkflowsTemplate web_response) act" where
  "admin_workflows_create E graph_from_str mapping_from_str user form =
     bindM (require_admin user) (\<lambda>_.
     case graph_from_str (wf_graph_json form) of
       Inl err \<Rightarrow> workflow_form_error E user (''graph JSON: '' @ err) form
     | Inr graph \<Rightarrow>
         (case form_field_mapping mapping_from_str form of
            Inl err \<Rightarrow> workflow_form_error E user err form
          | Inr field_mapping \<Rightarrow>
              (case form_target_system form of
                 Inl err \<Rightarrow> workflow_form_error E user err form
               | Inr target \<Rightarrow>
                   bindM (map_err api_of_db (definitions_create E
                     \<lparr>nwd_name = wf_name form, nwd_graph = graph, nwd_field_mapping = field_mapping,
                      nwd_target_system = target\<rparr> (u_id user))) (\<lambda>_.
                   return (Redirect ''/admin/workflows'')))))"

definition admin_workflows_publish :: "env \<Rightarrow> User \<Rightarrow> uuid \<Rightarrow> (ApiError, unit web_response) act" where
  "admin_workflows_publish E user i =
     bindM (require_admin user) (\<lambda>_.
     bindM (map_err api_of_db (definitions_set_published E i True)) (\<lambda>_.
     return (Redirect ''/admin/workflows'')))"

definition admin_workflows_unpublish :: "env \<Rightarrow> User \<Rightarrow> uuid \<Rightarrow> (ApiError, unit web_response) act" where
  "admin_workflows_unpublish E user i =
     bindM (require_admin user) (\<lambda>_.
     bindM (map_err api_of_db (definitions_set_published E i False)) (\<lambda>_.
     return (Redirect ''/admin/workflows'')))"

lemmas admin_page_defs = admin_audit_log_def admin_settings_show_def admin_settings_update_def
  admin_departments_list_def admin_departments_create_def admin_departments_update_def
  admin_departments_delete_def admin_catalog_list_def admin_catalog_create_def admin_catalog_toggle_def
  admin_catalog_edit_form_def admin_catalog_edit_def load_starter_def admin_users_list_def
  admin_users_create_def admin_users_update_def admin_users_deactivate_def admin_workflows_list_def
  admin_workflows_create_def admin_workflows_publish_def admin_workflows_unpublish_def

section \<open>Only administrators\<close>

lemma require_admin_turns_away [simp]:
  "u_role user \<noteq> Admin \<Longrightarrow> bindM (require_admin user) page w = (Err Forbidden, w)"
  by (simp add: require_admin_def bindM_apply fail_def)

text \<open>Every page of the administration answers 403 to a user who is not an administrator,
  before its first call to the database, the password hasher or the file system: the world,
  call counter included, is the one before.\<close>

lemma admin_pages_turn_away:
  assumes "u_role user \<noteq> Admin"
  shows "admin_audit_log E user p w = (Err Forbidden, w) \<and>
    admin_settings_show E state user w = (Err Forbidden, w) \<and>
    admin_settings_update E state user name signup tz w = (Err Forbidden, w) \<and>
    admin_departments_list E user w = (Err Forbidden, w) \<and>
    admin_departments_create E user name parent w = (Err Forbidden, w) \<and>
    admin_departments_update E user i name parent w = (Err Forbidden, w) \<and>
    admin_departments_delete E user i w = (Err Forbidden, w) \<and>
    admin_catalog_list E seed user added skipped w = (Err Forbidden, w) \<and>
    admin_catalog_create E seed user form w = (Err Forbidden, w) \<and>
    admin_catalog_toggle E user i active w = (Err Forbidden, w) \<and>
    admin_catalog_edit_form E user i w = (Err Forbidden, w) \<and>
    admin_catalog_edit E user i form w = (Err Forbidden, w) \<and>
    load_starter E seed user w = (Err Forbidden, w) \<and>
    admin_users_list E user w = (Err Forbidden, w) \<and>
    admin_users_create E user email name password role w = (Err Forbidden, w) \<and>
    admin_users_update E user i role department manager active_field w = (Err Forbidden, w) \<and>
    admin_users_deactivate E user i w = (Err Forbidden, w) \<and>
    admin_workflows_list E user w = (Err Forbidden, w) \<and>
    admin_workflows_create E graph_from_str mapping_from_str user wform w = (Err Forbidden, w) \<and>
    admin_workflows_publish E user i w = (Err Forbidden, w) \<and>
    admin_workflows_unpublish E user i w = (Err Forbidden, w)"
  unfolding admin_page_defs using assms by simp

section \<open>Target times\<close>

definition graphic :: "char \<Rightarrow> bool" where
  "graphic c \<longleftrightarrow> 33 \<le> (of_char c :: nat) \<and> (of_char c :: nat) < 127"

lemma white_space_not_graphic:
  "list_all (\<lambda>p. p \<noteq> [] \<and> \<not> graphic (hd p) \<and> \<not> graphic (last p)) white_space"
  by code_simp

lemma strip_all_solid:
  assumes "\<And>p. p \<in> set ps \<Longrightarrow> p \<noteq> [] \<and> \<not> graphic (hd p)" "s = [] \<or> graphic (hd s)"
  shows "strip_all ps s = s"
proof -
  have "List.find (\<lambda>p. p \<noteq> [] \<and> starts_with p s) ps = None"
    using assms by (cases s) (fastforce simp: find_None_iff starts_with_iff neq_Nil_conv)+
  then show ?thesis by (subst strip_all.simps) simp
qed

lemma trim_solid:
  assumes "s \<noteq> []" "graphic (hd s)" "graphic (last s)"
  shows "trim s = s"
proof -
  have "trim_start s = s"
    unfolding trim_start_def
    by (rule strip_all_solid) (use assms white_space_not_graphic in \<open>auto simp: list_all_iff\<close>)
  moreover have "strip_all (map rev white_space) (rev s) = rev s"
    by (rule strip_all_solid) (use assms white_space_not_graphic in \<open>auto simp: list_all_iff hd_rev\<close>)
  ultimately show ?thesis by (simp add: trim_def trim_end_def)
qed

lemma digits_solid:
  assumes "s \<noteq> []" "list_all is_digit s"
  shows "trim s = s"
proof (rule trim_solid)
  have "is_digit (hd s)" "is_digit (last s)" using assms by (auto simp: list_all_iff)
  then show "graphic (hd s)" "graphic (last s)" by (auto simp: is_digit_def graphic_def)
qed (rule assms)

lemma trim_int_to_string: "0 \<le> n \<Longrightarrow> trim (int_to_string n) = int_to_string n \<and> int_to_string n \<noteq> []"
  using nat_to_string_digits [of "nat n"] by (simp add: int_to_string_def digits_solid)

lemma trim_target_unit:
  "trim (target_unit_as_str u) = target_unit_as_str u \<and> target_unit_as_str u \<noteq> []"
  by (cases u) (simp_all add: trim_solid graphic_def)

text \<open>A target time is stored whole or not at all: what the form's parser accepts is either
  both blank or a non-negative \<^verbatim>\<open>i32\<close> with a unit; and every such pair, printed the way the edit
  form prints it, is read back as it was.\<close>

lemma parse_target_whole:
  "(case parse_target value u of
      Inl _ \<Rightarrow> True
    | Inr (None, None) \<Rightarrow> trim value = [] \<and> trim u = []
    | Inr (Some n, Some _) \<Rightarrow> 0 \<le> sint n
    | Inr _ \<Rightarrow> False) \<and>
   (0 \<le> sint v \<longrightarrow> parse_target (int_to_string (sint v)) (target_unit_as_str tu) = Inr (Some v, Some tu))"
proof
  show "case parse_target value u of
      Inl _ \<Rightarrow> True
    | Inr (None, None) \<Rightarrow> trim value = [] \<and> trim u = []
    | Inr (Some n, Some _) \<Rightarrow> 0 \<le> sint n
    | Inr _ \<Rightarrow> False"
    by (auto simp: parse_target_def Let_def word_sless_alt split: option.splits sum.splits)
  show "0 \<le> sint v \<longrightarrow> parse_target (int_to_string (sint v)) (target_unit_as_str tu) = Inr (Some v, Some tu)"
    using trim_int_to_string [of "sint v"] trim_target_unit [of tu]
    by (simp add: parse_target_def parse_i32_sint target_unit_enum.from_as word_sless_alt)
qed

lemma parse_target_whole_example:
  "parse_target (int_to_string (sint (3 :: i32))) (target_unit_as_str Hours) = Inr (Some 3, Some Hours)"
  using parse_target_whole [where v = "3 :: i32" and tu = Hours] by simp

section \<open>The audit log page\<close>

definition name_of :: "db \<Rightarrow> uuid \<Rightarrow> string" where
  "name_of d i = unwrap_or removed_user (map_option u_display_name (find_row (\<lambda>r. u_id r = i) (db_users d)))"

definition label_of :: "db \<Rightarrow> AuditLogEntry \<Rightarrow> string" where
  "label_of d entry = (case al_actor_user_id entry of None \<Rightarrow> ''System'' | Some i \<Rightarrow> name_of d i)"

definition cache_ok :: "db \<Rightarrow> (uuid \<rightharpoonup> string) \<Rightarrow> bool" where
  "cache_ok d actor_names \<longleftrightarrow> (\<forall>i \<in> dom actor_names. actor_names i = Some (name_of d i))"

lemma cache_ok_lookup: "cache_ok d names \<Longrightarrow> names i = Some name \<Longrightarrow> name = name_of d i"
  by (force simp: cache_ok_def)

lemma actor_label_cached:
  assumes "fault_free E" "cache_ok (w_db w) names"
  shows "\<exists>names' w'. actor_label E names (al_actor_user_id entry) w = (Ok (label_of (w_db w) entry, names'), w') \<and>
    w_db w' = w_db w \<and> cache_ok (w_db w) names'"
proof (cases "al_actor_user_id entry")
  case None
  then show ?thesis using assms by (simp add: actor_label_def label_of_def return_def)
next
  case (Some i)
  then show ?thesis
  proof (cases "names i")
    case None
    then show ?thesis
      using Some assms(2)
      by (auto simp: actor_label_def label_of_def users_get_by_id_def sql_fault_free [OF assms(1)] query_def
          io_simps name_of_def cache_ok_def Let_def)
  next
    case (Some name)
    with \<open>al_actor_user_id entry = Some i\<close> show ?thesis
      using assms(2) cache_ok_lookup [OF assms(2) Some] by (auto simp: actor_label_def label_of_def return_def)
  qed
qed

lemma audit_rows_cached:
  assumes "fault_free E" "cache_ok (w_db w) names"
  shows "\<exists>w'. audit_rows E names entries w =
      (Ok (map (\<lambda>e. audit_row E (label_of (w_db w) e) e) entries), w') \<and> w_db w' = w_db w"
  using assms(2)
proof (induction entries arbitrary: names w)
  case Nil
  then show ?case by (simp add: return_def)
next
  case (Cons e entries)
  obtain names' w1 where l: "actor_label E names (al_actor_user_id e) w = (Ok (label_of (w_db w) e, names'), w1)"
    "w_db w1 = w_db w" "cache_ok (w_db w) names'"
    using actor_label_cached [OF assms(1) Cons.prems] by blast
  obtain w2 where r: "audit_rows E names' entries w1 = (Ok (map (\<lambda>e. audit_row E (label_of (w_db w1) e) e) entries), w2)"
    "w_db w2 = w_db w1" using Cons.IH [of w1 names'] l by auto
  show ?case using l r by (simp add: bindM_apply return_def)
qed

lemma i64_small_sint: "k < 2 ^ 63 \<Longrightarrow> sint (of_nat k :: i64) = int k"
  by (simp add: sint_uint uint_nat i64_small signed_take_bit_int_eq_self)

lemma total_pages_nat:
  assumes "n + 49 < 2 ^ 63"
  shows "sint (total_pages (of_nat n)) = max 1 (int ((n + 49) div 50))"
proof -
  have "max_i64 (of_nat n) 0 = (of_nat n :: i64)"
    using i64_small_sint [of n] assms by (auto simp: max_i64_def word_sle_eq)
  moreover have "sint (of_nat n + 50 - 1 :: i64) = int (n + 49)"
    using i64_small_sint [of "n + 49"] assms by (simp add: add.commute)
  moreover have "sint (50 :: i64) = 50" by simp
  moreover have "int (n + 49) sdiv 50 = int ((n + 49) div 50)"
    by (simp add: signed_divide_int_def zdiv_int)
  moreover have "sint (word_of_int (int ((n + 49) div 50)) :: i64) = int ((n + 49) div 50)"
    using i64_small_sint [of "(n + 49) div 50"] assms by simp
  ultimately show ?thesis by (simp add: total_pages_def PAGE_SIZE_def max_i64_def word_sle_eq)
qed

text \<open>C40: what the audit log page shows. Without faults the page an administrator opens holds
  its slice of the newest-first trail with every actor's current name (the cache of names only
  saves queries), and the number of pages is the least, at least one, whose pages hold the
  whole trail; so \<^verbatim>\<open>next\<close> is offered exactly while entries remain.\<close>

theorem audit_log_page_shows:
  assumes "fault_free E" "u_role user = Admin" "db_org_settings (w_db w) \<noteq> None"
    and "0 < p" "p * 50 < 2 ^ 63" "length (db_audit (w_db w)) + 49 < 2 ^ 63"
  shows "\<exists>t w'. admin_audit_log E user (Some (of_nat p)) w = (Ok (Page t), w') \<and> w_db w' = w_db w \<and>
    at_rows t = map (\<lambda>e. audit_row E (label_of (w_db w) e) e)
      (take 50 (drop ((p - 1) * 50) (audit_order (db_audit (w_db w))))) \<and>
    sint (at_total_pages t) = max 1 (int ((length (db_audit (w_db w)) + 49) div 50)) \<and>
    at_has_prev t = (1 < p) \<and> at_has_next t = (p * 50 < length (db_audit (w_db w)))"
proof -
  obtain q where q: "p = Suc q" using assms(4) by (cases p) auto
  have p: "max_i64 (of_nat p) 1 = (of_nat p :: i64)" "of_nat p - 1 = (of_nat q :: i64)"
    using i64_small_sint [of p] assms(4,5) by (auto simp: max_i64_def word_sle_eq q)
  have pages: "fst (audit_list_stmt (of_nat q) 50 now d) =
      Inr (take 50 (drop (q * 50) (audit_order (db_audit d)))) \<and> snd (audit_list_stmt (of_nat q) 50 now d) = d" for now d
    using i64_small_nonneg [of q] i64_small [of "q * 50"] i64_small_nonneg [of "q * 50"] assms(5)
    by (simp add: audit_list_stmt_def audit_offset_def Let_def q word_sless_alt [of 50])
  let ?d = "w_db w" and ?entries = "take 50 (drop (q * 50) (audit_order (db_audit (w_db w))))"
  obtain s where s: "db_org_settings ?d = Some s" using assms(3) by blast
  let ?w = "w\<lparr>w_io := w_io w + 3\<rparr>"
  obtain w' where rows: "audit_rows E Map.empty ?entries ?w =
      (Ok (map (\<lambda>e. audit_row E (label_of ?d e) e) ?entries), w')" "w_db w' = ?d"
    using audit_rows_cached [OF assms(1), of ?w Map.empty ?entries] by (auto simp: cache_ok_def)
  have q': "p - Suc 0 = q" using q by simp
  have pages': "audit_list_stmt (of_nat q) 50 now ?d = (Inr ?entries, ?d)" for now
    using pages by (metis prod.collapse)
  have total: "sint (total_pages (of_nat (length (db_audit ?d)))) = max 1 (int ((length (db_audit ?d) + 49) div 50))"
    by (rule total_pages_nat [OF assms(6)])
  have "sint (of_nat p :: i64) = int p" using i64_small_sint [of p] assms(5) by simp
  then have "(1 <s (of_nat p :: i64)) = (1 < p)"
    "(of_nat p <s total_pages (of_nat (length (db_audit ?d)))) = (p * 50 < length (db_audit ?d))"
    using total assms(4) by (auto simp: word_sless_alt)
  then show ?thesis
    using rows total s assms(2)
    by (simp add: admin_audit_log_def require_admin_def layout_load_def org_settings_get_def
        org_settings_get_stmt_def audit_count_def audit_list_def query_def io_simps sql_fault_free [OF assms(1)]
        pages' p PAGE_SIZE_def unwrap_or_def q' numeral_3_eq_3 Let_def)
qed

section \<open>Settings\<close>

definition tz_ok :: "env \<Rightarrow> db \<Rightarrow> bool" where
  "tz_ok E d \<longleftrightarrow> (case db_org_settings d of None \<Rightarrow> True | Some s \<Rightarrow> env_tz_valid E (os_timezone s))"

lemma tz_ok_update [stmt_intros]:
  "(\<forall>tz. uos_timezone patch = Some tz \<longrightarrow> env_tz_valid E tz) \<Longrightarrow> stmt_keeps (tz_ok E) (org_settings_update_stmt patch)"
  by (cases "uos_timezone patch")
    (auto simp: stmt_keeps_def org_settings_update_stmt_def tz_ok_def coalesce_def touched_def split: option.splits)

lemma tz_ok_seed [stmt_intros]:
  "env_tz_valid E ''UTC'' \<Longrightarrow> stmt_keeps (tz_ok E) (org_settings_seed_default_stmt name signup)"
  by (auto simp: stmt_keeps_def org_settings_seed_default_stmt_def tz_ok_def split: option.splits)

text \<open>The stored time zone is always one the time zone database knows. The operations that
  write it are the start-up seeding of the settings row (with \<^verbatim>\<open>UTC\<close>), the settings page and the
  settings API; each keeps the invariant on every path, failing calls included.\<close>

lemma timezone_stays_valid:
  assumes "env_tz_valid E ''UTC''" "tz_ok E (w_db w)"
  shows "tz_ok E (w_db (snd (org_settings_seed_default E name signup w))) \<and>
    tz_ok E (w_db (snd (admin_settings_update E state user app_name allow tz w))) \<and>
    tz_ok E (w_db (snd (update_settings E state bearer patch w)))"
proof (intro conjI)
  have "keeps (\<lambda>w. tz_ok E (w_db w)) (org_settings_seed_default E name signup)"
    unfolding org_settings_seed_default_def by (intro keeps_intros stmt_intros assms)
  then show "tz_ok E (w_db (snd (org_settings_seed_default E name signup w)))"
    using assms(2) by (simp add: keeps_def)
  have "keeps (\<lambda>w. tz_ok E (w_db w)) (admin_settings_update E state user app_name allow tz)"
    unfolding admin_settings_update_def require_admin_def layout_load_def org_settings_update_def
    by (intro keeps_intros stmt_intros) auto
  then show "tz_ok E (w_db (snd (admin_settings_update E state user app_name allow tz w)))"
    using assms(2) by (simp add: keeps_def)
  have "keeps (\<lambda>w. tz_ok E (w_db w)) (update_settings E state bearer patch)"
    unfolding update_settings_def as_admin_def org_settings_update_def
    by (intro keeps_intros stmt_intros) (auto split: option.splits)
  then show "tz_ok E (w_db (snd (update_settings E state bearer patch w)))"
    using assms(2) by (simp add: keeps_def)
qed

section \<open>Examples\<close>

lemma admin_pages_turn_away_example:
  "load_starter E1 [] sample_requester sample_world = (Err Forbidden, sample_world) \<and>
   admin_users_deactivate E1 sample_requester 2 sample_world = (Err Forbidden, sample_world)"
  using admin_pages_turn_away [of sample_requester] by (simp add: sample_requester_def)

theorem audit_log_page_shows_witness:
  "\<exists>t w'. admin_audit_log E1 (sample_manager\<lparr>u_role := Admin\<rparr>) (Some (of_nat 1)) admin_world = (Ok (Page t), w') \<and>
     sint (at_total_pages t) = 1 \<and> \<not> at_has_prev t \<and> \<not> at_has_next t"
proof -
  have audit: "db_audit (w_db admin_world) = []" "db_org_settings (w_db admin_world) \<noteq> None"
    by (simp_all add: admin_world_def sample_db_def empty_db_def)
  then show ?thesis
    using audit_log_page_shows [of E1 "sample_manager\<lparr>u_role := Admin\<rparr>" admin_world 1]
    by (auto simp: sample_env_fault_free)
qed

lemma timezone_stays_valid_example:
  "tz_ok E1 (w_db (snd (admin_settings_update E1 sample_state (sample_manager\<lparr>u_role := Admin\<rparr>) ''App'' True ''Mars/Base'' admin_world)))"
proof -
  have "tz_ok E1 (w_db admin_world)" "env_tz_valid E1 ''UTC''"
    by (simp_all add: sample_env_def tz_ok_def admin_world_def sample_defs)
  then show ?thesis using timezone_stays_valid by blast
qed

text \<open>The guard of \<^verbatim>\<open>deactivate\<close> against locking oneself out is not on \<^verbatim>\<open>update\<close>: an administrator
  who saves the own row without the active box is deactivated, with the sessions left open.\<close>

lemma update_deactivates_self:
  "\<exists>w'. admin_users_update E1 (sample_manager\<lparr>u_role := Admin\<rparr>) 1 ''admin'' None None None admin_world =
      (Ok (Redirect ''/admin/users''), w') \<and>
    map (\<lambda>u. (u_id u, u_is_active u)) (db_users (w_db w')) = [(1, False), (2, True)] \<and>
    db_sessions (w_db w') = db_sessions (w_db admin_world)"
  by (simp add: admin_users_update_def require_admin_def form_role_def role_from_str_def sql_from_str_def
      form_uuid_def users_update_def users_update_stmt_def users_get_by_id_def audit_user_action_def
      audit_record_def audit_record_stmt_def insert_if_def new_uuid_def touched_def admin_world_def
      lift_sum_def users_ok_def uniq_def uniq_opt_def Let_def sample_defs token_eval)

end
