(* ===== verification/Always_Answers.thy ===== *)
theory Always_Answers
  imports System Web_Pages
begin

text \<open>
  Two loops of the server have no bound: \<^verbatim>\<open>apply_outcome\<close> (\<^verbatim>\<open>orchestrator.rs\<close>) goes from ticket step
  to ticket step, and \<^verbatim>\<open>preview_questions\<close> (\<^verbatim>\<open>web/pages/catalog.rs\<close>) from question to question.
  Shown here: on a workflow whose steps form no cycle both end, so every handler built on them
  returns; the steps of the starter catalog form none.
\<close>

section \<open>Workflows without cycles always answer\<close>

definition step_edges :: "WorkflowGraph \<Rightarrow> (string \<times> string) set" where
  "step_edges graph = (\<Union>s \<in> set (g_steps graph). set (successors (s_kind s)) \<times> {s_id s})"

definition acyclic_definitions :: "env \<Rightarrow> db \<Rightarrow> bool" where
  "acyclic_definitions E d \<longleftrightarrow>
     (\<forall>row \<in> set (db_definitions d). \<forall>m. row_into_model E row = Inr m \<longrightarrow> acyclic (step_edges (wd_graph m)))"

lemma step_edgeI:
  assumes "graph_step graph i = Some s" "t \<in> set (successors (s_kind s))"
  shows "(t, i) \<in> step_edges graph"
  using graph_step_Some [OF assms(1)] assms(2) by (auto simp: step_edges_def)

lemma branch_step_edge: "branch_step graph answers s t \<Longrightarrow> (t, s) \<in> step_edges graph"
  by (auto simp: branch_step_iff intro: step_edgeI)

lemma branch_steps_edges: "(branch_step graph answers)\<^sup>*\<^sup>* s t \<Longrightarrow> (t, s) \<in> (step_edges graph)\<^sup>*"
  by (induction rule: rtranclp_induct) (auto dest: branch_step_edge intro: converse_rtrancl_into_rtrancl)

lemma next_ticket_edges: "next_ticket graph answers \<subseteq> (step_edges graph)\<^sup>+"
proof
  fix p assume "p \<in> next_ticket graph answers"
  then obtain s' s where p: "p = (s', s)"
    "resume_after_ticket_dispatch graph s answers = Inr (s', ReadyToSubmitTicket)"
    by (auto simp: next_ticket_def)
  then obtain step t where t: "graph_step graph s = Some step" "s_kind step = SubmitTicket t"
    "auto_advance graph t answers = Inr (s', ReadyToSubmitTicket)"
    by (auto simp: resume_after_ticket_dispatch_def split: sum.splits StepKind.splits)
  then have "(s', t) \<in> (step_edges graph)\<^sup>*"
    unfolding auto_advance_def by (auto dest!: auto_loop_reaches simp: reaches_def intro: branch_steps_edges)
  moreover have "(t, s) \<in> step_edges graph" using t by (auto intro: step_edgeI)
  ultimately show "p \<in> (step_edges graph)\<^sup>+" using p(1) by simp
qed

lemma acyclic_next_ticket:
  assumes "acyclic (step_edges graph)"
  shows "wf (next_ticket graph answers)"
proof -
  have "finite (step_edges graph)" by (simp add: step_edges_def)
  then have "wf ((step_edges graph)\<^sup>+)" using assms by (intro wf_trancl finite_acyclic_wf)
  then show ?thesis using next_ticket_edges by (rule wf_subset)
qed

lemma then_run_returns: "(\<And>x w'. m w = (Ok x, w') \<Longrightarrow> f x w' \<noteq> None) \<Longrightarrow> then_run m f w \<noteq> None"
  by (auto simp: then_run_def split: prod.split res.split)

lemma acyclic_apply_outcome:
  assumes "acyclic_definitions E d" "find_row P (db_definitions d) = Some row" "row_into_model E row = Inr m"
  shows "apply_outcome E deps m i rid answers step_id outcome w \<noteq> None"
proof -
  have "acyclic (step_edges (wd_graph m))"
    using assms by (auto simp: acyclic_definitions_def dest: find_row_SomeD)
  then show ?thesis using apply_outcome_returns [OF acyclic_next_ticket] by fastforce
qed

lemma start_instance_returns:
  assumes "acyclic_definitions E (w_db w)"
  shows "start_instance E deps i user w \<noteq> None"
  unfolding start_instance_def
proof (rule then_run_returns, clarify, goal_cases)
  case (1 m inst step_id outcome w')
  then show ?case
    using acyclic_apply_outcome [OF assms]
    by (auto elim!: bindM_OkE dest!: ok_or_OkD catalog_get_OkD definitions_get_OkD split: if_splits)
qed

lemma submit_answer_returns:
  assumes "acyclic_definitions E (w_db w)"
  shows "submit_answer E deps i user key value w \<noteq> None"
  unfolding submit_answer_def
proof (rule then_run_returns, clarify, goal_cases)
  case (1 m inst answers step_id outcome w')
  then show ?case
    using acyclic_apply_outcome [OF assms]
    by (auto elim!: bindM_OkE dest!: ok_or_OkD instances_get_OkD definitions_get_OkD split: if_splits prod.splits)
qed

lemma resume_after_approval_returns:
  assumes "acyclic_definitions E (w_db w)"
  shows "resume_after_approval E deps i step decision w \<noteq> None"
  unfolding resume_after_approval_def
proof (rule then_run_returns, clarify, goal_cases)
  case (1 m inst answers step_id outcome w')
  then show ?case
    using acyclic_apply_outcome [OF assms]
    by (auto simp: Let_def elim!: bindM_OkE dest!: ok_or_OkD instances_get_OkD definitions_get_OkD)
qed
text \<open>No statement a handler of a request sends touches the definitions.\<close>

lemma acyclic_stmts [stmt_intros]:
  "stmt_keeps (acyclic_definitions E) (instances_create_stmt i did cid u s)"
  "stmt_keeps (acyclic_definitions E) (save_progress_stmt i s a st)"
  "stmt_keeps (acyclic_definitions E) (approvals_create_stmt i inst s u x)"
  "stmt_keeps (acyclic_definitions E) (approvals_decide_stmt i ast cm)"
  "stmt_keeps (acyclic_definitions E) (tickets_create_stmt i inst t p)"
  "stmt_keeps (acyclic_definitions E) (tickets_mark_sent_stmt i ext url)"
  "stmt_keeps (acyclic_definitions E) (tickets_mark_failed_stmt i e)"
  by (auto simp: stmt_keeps_def stmt_defs insert_if_snd Let_def acyclic_definitions_def)

interpretation no_cycles: request_writes "acyclic_definitions E" for E
  by unfold_locales (rule stmt_intros)+

lemma handle_expired_returns:
  assumes "acyclic_definitions E (w_db w)"
  shows "\<exists>q w'. handle_expired E deps a w = Some (q, w') \<and> acyclic_definitions E (w_db w')"
proof -
  obtain q w' where q: "resume_after_approval E deps (pa_workflow_instance_id a) (pa_step_id a) Reject w = Some (q, w')"
    using resume_after_approval_returns [OF assms] by fastforce
  then have "acyclic_definitions E (w_db w')"
    using ends_inD [OF no_cycles.resume_after_approval_keeps assms] by blast
  then show ?thesis using q by (cases q) (auto simp: handle_expired_def)
qed

lemma expire_all_returns:
  "acyclic_definitions E (w_db w) \<Longrightarrow> expire_all E (handle_expired E deps) expired w \<noteq> None"
proof (induction expired arbitrary: w)
  case (Cons a expired)
  obtain q w1 where q: "approvals_decide E (pa_id a) Expired (Some expiry_comment) w = (q, w1)" by fastforce
  have w1: "acyclic_definitions E (w_db w1)"
    by (rule keepsD' [OF no_cycles.ops_keep(4) Cons.prems q])
  then obtain q2 w2 where "handle_expired E deps a w1 = Some (q2, w2)" "acyclic_definitions E (w_db w2)"
    using handle_expired_returns by blast
  then show ?case
    using q Cons.IH [OF w1] Cons.IH [of w2] by (auto simp: then_run_def split: res.split)
qed simp

lemma approvals_route_decide_returns:
  assumes "acyclic_definitions E (w_db w)"
  shows "approvals_route_decide E deps user i decision comment w \<noteq> None"
  unfolding approvals_route_decide_def
proof (rule then_run_returns)
  fix a w1 assume "map_err (api_of_approvals E) (decide E i (u_id user) decision comment) w = (Ok a, w1)"
  moreover have "keeps (\<lambda>w. acyclic_definitions E (w_db w)) (map_err (api_of_approvals E) (decide E i (u_id user) decision comment))"
    by (rule keeps_map_err [OF no_cycles.parts_keep(5)])
  ultimately have "acyclic_definitions E (w_db w1)" using assms by (blast dest: keepsD')
  then show "resume_after_approval E deps (pa_workflow_instance_id a) (pa_step_id a) decision w1 \<noteq> None"
    by (rule resume_after_approval_returns)
qed

lemma poll_once_returns:
  assumes "acyclic_definitions E (w_db w)"
  shows "poll_once E (handle_expired E deps) w \<noteq> None"
  unfolding poll_once_def
proof (rule then_run_returns)
  fix expired w1 assume e: "approvals_list_expired E w = (Ok expired, w1)"
  have "keeps (\<lambda>w. acyclic_definitions E (w_db w)) (approvals_list_expired E)" by (intro keeps_intros)
  then have "acyclic_definitions E (w_db w1)" using assms e by (rule keepsD')
  then show "expire_all E (handle_expired E deps) expired w1 \<noteq> None" by (rule expire_all_returns)
qed

lemma forward_only_index:
  assumes "forward_only steps" "s \<in> set steps" "t \<in> set (successors (s_kind s))"
  shows "length (takeWhile (\<lambda>x. s_id x \<noteq> s_id s) steps) < length (takeWhile (\<lambda>x. s_id x \<noteq> t) steps)"
  using assms
proof (induction steps)
  case (Cons a steps)
  have "t \<in> s_id ` set steps" if "s \<in> set steps"
    using forward_only_valid(2) [of steps s] that Cons.prems by auto
  then show ?case using Cons by auto
qed simp

lemma forward_only_acyclic:
  assumes "forward_only (g_steps graph)"
  shows "acyclic (step_edges graph)"
  by (rule acyclicI_order [where f = "\<lambda>i. length (takeWhile (\<lambda>x. s_id x \<noteq> i) (g_steps graph))"])
    (use forward_only_index [OF assms] in \<open>auto simp: step_edges_def\<close>)

lemma preview_returns:
  assumes "acyclic (step_edges graph)"
  shows "preview_questions graph \<noteq> None"
proof -
  have "wf (step_edges graph)" using assms by (simp add: finite_acyclic_wf step_edges_def)
  then have "preview_loop graph (graph_step graph i) acc \<noteq> None" for i acc
  proof (induction i arbitrary: acc rule: wf_induct_rule)
    case (less i)
    show ?case
    proof (cases "graph_step graph i")
      case (Some s)
      then show ?thesis
        using less.IH step_edgeI [OF Some] by (subst preview_loop.simps) (auto split: StepKind.split)
    qed simp
  qed
  then show ?thesis by (simp add: preview_questions_def)
qed

lemma layout_load_keeps [keeps_intros]: "keeps (\<lambda>w. I (w_db w)) (layout_load E user nav)"
  unfolding layout_load_def by (intro keeps_intros)

lemma item_detail_returns:
  assumes "acyclic_definitions E (w_db w)"
  shows "item_detail E user i w \<noteq> None"
  unfolding item_detail_def
proof (rule then_run_returns, clarify, goal_cases)
  case (1 layout item m w')
  then obtain w1 where l: "layout_load E user ''catalog'' w = (Ok layout, w1)"
    and rest: "\<exists>c w2 w3. catalog_get_by_id E i w1 = (Ok c, w2) \<and>
      definitions_get_by_id E (ci_workflow_definition_id item) w2 = (Ok (Some m), w3)"
    by (auto elim!: bindM_OkE dest!: ok_or_OkD)
  have "acyclic_definitions E (w_db w1)"
    by (rule keepsD' [OF layout_load_keeps [where I = "acyclic_definitions E"] assms l])
  with rest have "acyclic (step_edges (wd_graph m))"
    by (auto simp: acyclic_definitions_def dest!: catalog_get_OkD definitions_get_OkD dest: find_row_SomeD)
  then show ?case using preview_returns 1 by auto
qed

end
