(* ===== verification/Footprints.thy ===== *)
theory Footprints
  imports Always_Answers Web_Admin Sso Startup
begin

text \<open>
  What the handlers may write, by kind of handler. A locale names the statements a kind of
  handler sends and what is assumed to survive them; inside it every handler of that kind is
  shown to keep it, wherever the handler stops. The handlers of a request have theirs
  (\<open>request_writes\<close>) in Orchestrator; here are those of signing in (\<open>session_writes\<close>), of accounts
  (\<open>account_writes\<close>) and of administration (\<open>admin_writes\<close>). Each locale is interpreted for what
  the theory Server needs: the statements' own steps, the tables of requests and approvals, and
  the administration's tables.
\<close>

abbreviation keeps_db :: "(db \<Rightarrow> bool) \<Rightarrow> ('e, 'a) act \<Rightarrow> bool" where
  "keeps_db I m \<equiv> keeps (\<lambda>w. I (w_db w)) m"

section \<open>Readers\<close>

lemma reading_handlers_keep [keeps_intros]:
  "keeps_db I (me E state b)" "keeps_db I (departments_route_list E state b)"
  "keeps_db I (public_config E state)" "keeps_db I (catalog_route_list E state b inc)"
  "keeps_db I (instances_route_list_mine E state b)" "keeps_db I (get_one E state b i)"
  "keeps_db I (approvals_route_list_mine E state b)"
  unfolding api_route_defs by (intro keeps_intros)+

lemma approval_rows_keep [keeps_intros]: "keeps_db I (approval_rows E pending)"
  by (induction pending; simp only: approval_rows.simps; intro keeps_intros)

lemma reading_pages_keep [keeps_intros]:
  "keeps_db I (dashboard_show E user)" "keeps_db I (catalog_show E user)"
  "keeps_db I (requests_list_mine E user)" "keeps_db I (requests_show E user i)"
  "keeps_db I (approvals_list_mine E user)"
  unfolding dashboard_show_def catalog_show_def requests_list_mine_def requests_show_def approvals_list_mine_def
  by (intro keeps_intros)+

lemma sign_in_pages_keep [keeps_intros]:
  "keeps_db I (peek_user E state c)" "keeps_db I (forgot_password_page E submitted)"
  "keeps_db I (show_login E state c nxt err reset)" "keeps_db I (show_forgot_password E state)"
  "keeps_db I (show_reset_password E tok)" "keeps_db I (serve E dir path)"
  unfolding peek_user_def valid_user_for_access_token_def forgot_password_page_def show_login_def
    show_forgot_password_def show_reset_password_def serve_def Let_def
  by (intro keeps_intros)+

section \<open>Sessions and accounts\<close>

locale session_writes =
  fixes E :: env and I :: "db \<Rightarrow> bool"
  assumes opens: "stmt_keeps I (sessions_create_stmt E i u h ua ip x)"
    and revokes: "stmt_keeps I (sessions_revoke_stmt i)"
    and revokes_all: "stmt_keeps I (sessions_revoke_all_stmt u)"
begin

lemma session_ops_keep:
  "keeps_db I (create_session E config u ua ip)" "keeps_db I (issue_token_pair E state user)"
  "keeps_db I (redeem_refresh_token E tok)" "keeps_db I (revoke_all_sessions E u)"
  unfolding auth_op_defs by (intro keeps_intros stmt_intros opens revokes revokes_all)+

lemma signing_in_keeps:
  "keeps_db I (token_response E state user)" "keeps_db I (login E state email pw)"
  "keeps_db I (refresh E state tok)" "keeps_db I (logout E tok)"
  "keeps_db I (sso_login E state)" "keeps_db I (sso_token E state code)"
  "keeps_db I (submit_login E state email pw nxt)" "keeps_db I (sso_complete E state code nxt)"
  "keeps_db I (web_logout E tok')" "keeps_db I (refreshed_session E state tok')"
  unfolding token_response_def login_def refresh_def logout_def sso_login_def sso_token_def
    submit_login_def sso_complete_def web_logout_def refreshed_session_def Let_def
  by (intro keeps_intros session_ops_keep)+

end

text \<open>Whoever is not signed in can at most become a plain requester.\<close>

locale account_writes = session_writes +
  assumes joins: "nu_role new = Requester \<Longrightarrow> nu_department_id new = None \<Longrightarrow>
      nu_manager_user_id new = None \<Longrightarrow> stmt_keeps I (users_create_stmt E i new h')"
    and links: "stmt_keeps I (users_link_external_idp_subject_stmt E i sub)"
    and sets: "stmt_keeps I (users_set_password_hash_stmt i ph)"
    and asks_reset: "stmt_keeps I (password_resets_create_stmt E i u h x)"
    and uses_reset: "stmt_keeps I (password_resets_use_stmt i)"
begin

lemma account_ops_keep:
  "nu_role new = Requester \<Longrightarrow> nu_department_id new = None \<Longrightarrow> nu_manager_user_id new = None \<Longrightarrow>
   keeps_db I (users_create E new h')"
  "keeps_db I (users_link_external_idp_subject E i sub)" "keeps_db I (users_set_password_hash E i ph)"
  "keeps_db I (send_password_reset_email E mailer email)" "keeps_db I (redeem_password_reset_token E tok)"
  unfolding users_create_def users_link_external_idp_subject_def users_set_password_hash_def auth_op_defs
  by (intro keeps_intros stmt_intros joins links sets asks_reset uses_reset; simp)+

lemma account_handlers_keep:
  "keeps_db I (register E state email name pw)" "keeps_db I (request_password_reset E state email)"
  "keeps_db I (confirm_password_reset E tok pw)" "keeps_db I (provision_or_link_user E identity)"
  "keeps_db I (sso_callback E state cd sp err)" "keeps_db I (submit_forgot_password E state email)"
  "keeps_db I (submit_reset_password E tok pw)"
  unfolding register_def request_password_reset_def confirm_password_reset_def
    provision_or_link_user_def sso_callback_def submit_forgot_password_def submit_reset_password_def Let_def
  by (intro keeps_intros session_ops_keep signing_in_keeps account_ops_keep; simp)+

end


section \<open>Administration\<close>

locale admin_writes = session_writes +
  assumes admin_statements:
    "stmt_keeps I (departments_create_stmt E i nd)" "stmt_keeps I (departments_update_stmt E i ud)"
    "stmt_keeps I (departments_set_logo_url_stmt i url)" "stmt_keeps I (departments_delete_stmt i)"
    "stmt_keeps I (users_create_stmt E i nu h')" "stmt_keeps I (users_update_stmt E i uu)"
    "stmt_keeps I (users_deactivate_stmt i)" "stmt_keeps I (definitions_create_stmt E i nw u)"
    "stmt_keeps I (definitions_set_published_stmt i pub)" "stmt_keeps I (catalog_create_stmt E i ni u)"
    "stmt_keeps I (catalog_update_stmt i ui)" "stmt_keeps I (catalog_deactivate_stmt i)"
    "stmt_keeps I (org_settings_update_stmt uos)" "stmt_keeps I (org_settings_set_logo_url_stmt url)"
    "stmt_keeps I (audit_record_stmt i entry)"
begin

lemma admin_ops_keep:
  "keeps_db I (departments_create E nd)" "keeps_db I (departments_update E i ud)"
  "keeps_db I (departments_set_logo_url E i url)" "keeps_db I (departments_delete E i)"
  "keeps_db I (users_create E nu h')" "keeps_db I (users_update E i uu)"
  "keeps_db I (users_deactivate E i)" "keeps_db I (definitions_create E nw u)"
  "keeps_db I (definitions_set_published E i pub)" "keeps_db I (catalog_create E ni u)"
  "keeps_db I (catalog_update E i ui)" "keeps_db I (catalog_deactivate E i)"
  "keeps_db I (org_settings_update E uos)" "keeps_db I (org_settings_set_logo_url E url)"
  "keeps_db I (audit_record E entry)"
  unfolding write_op_defs by (intro keeps_intros stmt_intros admin_statements)+

lemma admin_routes_keep:
  "keeps_db I (list_users E state b inc)" "keeps_db I (create_user E state b nu)"
  "keeps_db I (update_user E state b i uu)" "keeps_db I (deactivate_user E state b i)"
  "keeps_db I (departments_route_create E state b nd)" "keeps_db I (departments_route_update E state b i ud)"
  "keeps_db I (departments_route_delete E state b i)"
  "keeps_db I (departments_route_upload_logo E state b i hs body)"
  "keeps_db I (departments_route_remove_logo E state b i)"
  "keeps_db I (update_settings E state b us)" "keeps_db I (settings_upload_logo E state b hs body)"
  "keeps_db I (settings_remove_logo E state b)" "keeps_db I (catalog_route_create E state b ni)"
  "keeps_db I (catalog_route_update E state b i ui)" "keeps_db I (catalog_route_deactivate E state b i)"
  "keeps_db I (definitions_route_list E state b pub)" "keeps_db I (definitions_route_create E state b nw)"
  "keeps_db I (publish E state b i)" "keeps_db I (unpublish E state b i)"
  "keeps_db I (list_audit_log E state b p n)"
  unfolding api_route_defs Let_def by (intro keeps_intros admin_ops_keep session_ops_keep)+

lemma seed_keeps: "keeps_db I (seed_run E items u)"
proof -
  have one: "keeps_db I (seed_one E u k item)" for k item
    unfolding seed_one_def Let_def by (intro keeps_intros admin_ops_keep)
  have "keeps_db I (seed_loop E u slugs k items summary)" for slugs k summary
    by (induction items arbitrary: slugs k summary; simp only: seed_loop.simps Let_def;
        intro keeps_intros one) auto
  then show ?thesis unfolding seed_run_def by (intro keeps_intros)
qed

lemma audit_rows_keep: "keeps_db I (audit_rows E names entries)"
  by (induction entries arbitrary: names; simp only: audit_rows.simps actor_label_def Let_def; intro keeps_intros) auto

lemma admin_pages_keep:
  "keeps_db I (admin_audit_log E user p)" "keeps_db I (admin_settings_show E state user)"
  "keeps_db I (admin_settings_update E state user name allow tz)"
  "keeps_db I (admin_departments_list E user)" "keeps_db I (admin_departments_create E user name parent)"
  "keeps_db I (admin_departments_update E user i name parent)" "keeps_db I (admin_departments_delete E user i)"
  "keeps_db I (admin_catalog_list E seed user added skipped)" "keeps_db I (admin_catalog_create E seed user form)"
  "keeps_db I (admin_catalog_toggle E user i active)" "keeps_db I (admin_catalog_edit_form E user i)"
  "keeps_db I (admin_catalog_edit E user i form)" "keeps_db I (load_starter E seed user)"
  "keeps_db I (admin_users_list E user)" "keeps_db I (admin_users_create E user email name pw role)"
  "keeps_db I (admin_users_update E user i role dept mgr act)" "keeps_db I (admin_users_deactivate E user i)"
  "keeps_db I (admin_workflows_list E user)" "keeps_db I (admin_workflows_create E g2 m2 user wform)"
  "keeps_db I (admin_workflows_publish E user i)" "keeps_db I (admin_workflows_unpublish E user i)"
  unfolding admin_page_defs require_admin_def list_with_error_def edit_form_error_def form_role_def
    workflows_page_def workflow_form_error_def audit_user_action_def Let_def
  by (intro keeps_intros admin_ops_keep session_ops_keep seed_keeps audit_rows_keep)+

end

section \<open>What survives them\<close>

text \<open>Requests and approvals are the requesters' business, the rest of the server leaves them alone.\<close>

definition same_requests :: "db \<Rightarrow> db \<Rightarrow> bool" where
  "same_requests d0 d \<longleftrightarrow> db_instances d = db_instances d0 \<and> db_approvals d = db_approvals d0"

text \<open>What only administrators may change: who somebody is to the server, the departments, the
  workflows, the catalog, the settings and the audit log. Plain requesters may have joined.\<close>

definition standing :: "User \<Rightarrow> uuid \<times> string \<times> Role \<times> bool \<times> uuid option \<times> uuid option" where
  "standing u = (u_id u, u_email u, u_role u, u_is_active u, u_department_id u, u_manager_user_id u)"

definition newcomer :: "User \<Rightarrow> bool" where
  "newcomer u \<longleftrightarrow> u_role u = Requester \<and> u_department_id u = None \<and> u_manager_user_id u = None"

definition same_administration :: "db \<Rightarrow> db \<Rightarrow> bool" where
  "same_administration d0 d \<longleftrightarrow>
     (\<exists>new. map standing (db_users d) = map standing (db_users d0) @ map standing new \<and>
        (\<forall>u \<in> set new. newcomer u)) \<and>
     db_departments d = db_departments d0 \<and> db_definitions d = db_definitions d0 \<and>
     db_items d = db_items d0 \<and> db_org_settings d = db_org_settings d0 \<and> db_audit d = db_audit d0"

lemma same_requests_refl [simp]: "same_requests d d"
  by (simp add: same_requests_def)

lemma same_administration_refl [simp]: "same_administration d d"
  by (simp add: same_administration_def)

lemma standing_update:
  "(\<And>r. standing (f r) = standing r) \<Longrightarrow> map standing (update_rows P f t) = map standing t"
  by (rule map_update_rows)

lemma same_administration_users:
  assumes "same_administration d0 d" "map standing t = map standing (db_users d)"
  shows "same_administration d0 (d\<lparr>db_users := t\<rparr>)"
  using assms by (simp add: same_administration_def)

lemma same_administration_joins:
  assumes "same_administration d0 d" "newcomer u"
  shows "same_administration d0 (d\<lparr>db_users := db_users d @ [u]\<rparr>)"
proof -
  obtain new where "map standing (db_users d) = map standing (db_users d0) @ map standing new"
    "\<forall>u \<in> set new. newcomer u" using assms(1) by (auto simp: same_administration_def)
  then show ?thesis
    using assms by (auto simp: same_administration_def intro!: exI [of _ "new @ [u]"])
qed

interpretation via_accounts: account_writes E "(db_step E)\<^sup>*\<^sup>* d0" for E d0
  by unfold_locales (rule stmt_intros)+

interpretation via_administration: admin_writes E "(db_step E)\<^sup>*\<^sup>* d0" for E d0
  by unfold_locales (rule stmt_intros)+

interpretation accounts_spare: account_writes E "same_requests d0" for E d0
  by unfold_locales (auto simp: stmt_keeps_def stmt_defs insert_if_snd Let_def same_requests_def)

interpretation administration_spares: admin_writes E "same_requests d0" for E d0
  by unfold_locales (auto simp: stmt_keeps_def stmt_defs insert_if_snd Let_def same_requests_def)

lemma same_administration_stmts [stmt_intros]:
  "stmt_keeps (same_administration d0) (sessions_create_stmt E i u h ua ip x)"
  "stmt_keeps (same_administration d0) (sessions_revoke_stmt i)"
  "stmt_keeps (same_administration d0) (sessions_revoke_all_stmt u)"
  "stmt_keeps (same_administration d0) (password_resets_create_stmt E i u h x)"
  "stmt_keeps (same_administration d0) (password_resets_use_stmt i)"
  "stmt_keeps (same_administration d0) (instances_create_stmt i wid cid uid s)"
  "stmt_keeps (same_administration d0) (save_progress_stmt i s j st)"
  "stmt_keeps (same_administration d0) (approvals_create_stmt i rid s uid x')"
  "stmt_keeps (same_administration d0) (approvals_decide_stmt i ast cm)"
  "stmt_keeps (same_administration d0) (tickets_create_stmt i rid ts j)"
  "stmt_keeps (same_administration d0) (tickets_mark_sent_stmt i xid url)"
  "stmt_keeps (same_administration d0) (tickets_mark_failed_stmt i err)"
  by (auto simp: stmt_keeps_def stmt_defs insert_if_snd Let_def same_administration_def)

lemma same_administration_user_stmts [stmt_intros]:
  "stmt_keeps (same_administration d0) (users_link_external_idp_subject_stmt E i sub)"
  "stmt_keeps (same_administration d0) (users_set_password_hash_stmt i ph)"
  by (auto simp: stmt_keeps_def stmt_defs insert_if_snd Let_def touched_proj standing_def
      intro!: same_administration_users standing_update)

lemma same_administration_joining:
  "nu_role new = Requester \<Longrightarrow> nu_department_id new = None \<Longrightarrow> nu_manager_user_id new = None \<Longrightarrow>
   stmt_keeps (same_administration d0) (users_create_stmt E i new h)"
  by (auto simp: stmt_keeps_def users_create_stmt_def insert_if_snd newcomer_def intro!: same_administration_joins)

interpretation unprivileged: account_writes E "same_administration d0" for E d0
  by unfold_locales (rule stmt_intros same_administration_joining; assumption?)+

interpretation requesters: request_writes "same_administration d0" for d0
  by unfold_locales (rule stmt_intros)+

lemma acyclic_sessions [stmt_intros]:
  "stmt_keeps (acyclic_definitions E) (sessions_create_stmt E' i u h ua ip x)"
  "stmt_keeps (acyclic_definitions E) (sessions_revoke_stmt i)"
  "stmt_keeps (acyclic_definitions E) (sessions_revoke_all_stmt u)"
  by (auto simp: stmt_keeps_def stmt_defs insert_if_snd Let_def acyclic_definitions_def)

interpretation no_cycles_signing: session_writes E "acyclic_definitions E" for E
  by unfold_locales (rule stmt_intros)+

end
