(* ===== verification/Http.thy ===== *)
theory Http
  imports Footprints
begin

text \<open>
  The whole server: every request it answers, decoded, and what it does with it. The modules'
  \<^verbatim>\<open>routes()\<close> (under \<^verbatim>\<open>src/crates/server/src/routes\<close> and \<^verbatim>\<open>web/pages\<close>) attach each handler to a
  path; here a request names its handler and carries what the extractors produced: the bearer
  token or the cookies, and the decoded path, query and body. \<open>http_serve\<close> runs the handler, for
  a page behind the session middleware.

  The paths the handlers are attached to are in Routing; what is shown of the server as a whole is
  in Server, Launch, Interleaving and Poller.
\<close>

section \<open>Answers\<close>

datatype answer =
    Success
  | Failure ApiError
  | SignInFirst string
  | Aborted

type_synonym handler = "world \<Rightarrow> (answer \<times> world) option"

fun answer_of :: "(ApiError, 'a) res \<Rightarrow> answer" where
  "answer_of (Ok x) = Success"
| "answer_of (Err e) = Failure e"
| "answer_of Panic = Aborted"

definition respond :: "(ApiError, 'a) act \<Rightarrow> handler" where
  "respond m w = Some (case m w of (r, w') \<Rightarrow> (answer_of r, w'))"

definition respond_run :: "(world, ApiError, 'a) run \<Rightarrow> handler" where
  "respond_run m w = map_option (\<lambda>(r, w'). (answer_of r, w')) (m w)"

section \<open>Requests\<close>

datatype auth_api =
    ApiLogin string string
  | ApiRegister string string string
  | ApiRefresh string
  | ApiLogout string
  | ApiResetRequest string
  | ApiResetConfirm string string

datatype sso_api =
    SsoLogin
  | SsoCallback "string option" "string option" "string option"
  | SsoToken string

datatype sign_in_page =
    ShowLogin "string option" "string option" bool bool
  | SubmitLogin string string "string option"
  | SsoComplete string "string option"
  | WebLogout "string option"
  | ShowForgotPassword
  | SubmitForgotPassword string
  | ShowResetPassword "string option"
  | SubmitResetPassword string string

datatype public_request =
    Health
  | StyleCss
  | WorkflowBuilderJs
  | Uploaded string
  | PublicConfig
  | Auth auth_api
  | Sso sso_api
  | SignIn sign_in_page

datatype member_api =
    Me
  | ListDepartments
  | ListCatalog bool
  | ListMyInstances
  | StartInstance uuid
  | GetInstance uuid
  | SubmitAnswer uuid string json
  | ListMyApprovals
  | DecideApproval uuid ApprovalDecision "string option"

datatype admin_api =
    ListUsers bool
  | CreateUser NewUser
  | UpdateUserRow uuid UpdateUser
  | DeactivateUser uuid
  | CreateDepartment NewDepartment
  | UpdateDepartmentRow uuid UpdateDepartment
  | DeleteDepartment uuid
  | UploadDepartmentLogo uuid "string option" string
  | RemoveDepartmentLogo uuid
  | UpdateSettings UpdateOrgSettings
  | UploadLogo "string option" string
  | RemoveLogo
  | CreateItem NewServiceCatalogItem
  | UpdateItem uuid UpdateServiceCatalogItem
  | DeactivateItem uuid
  | ListDefinitions bool
  | CreateDefinition NewWorkflowDefinition
  | Publish uuid
  | Unpublish uuid
  | ListAuditLog "i64 option" "i64 option"

datatype member_page =
    Dashboard
  | CatalogPage
  | ItemPage uuid
  | RequestItem uuid
  | RequestsPage
  | RequestPage uuid
  | AnswerForm uuid string string
  | ApprovalsPage
  | DecideForm uuid string "string option"

datatype admin_page =
    UsersPage
  | CreateUserForm string string string string
  | UpdateUserForm uuid string "string option" "string option" "string option"
  | DeactivateUserForm uuid
  | DepartmentsPage
  | CreateDepartmentForm string "string option"
  | UpdateDepartmentForm uuid string "string option"
  | DeleteDepartmentForm uuid
  | SettingsPage
  | SettingsForm string bool string
  | WorkflowsPage
  | CreateWorkflow CreateWorkflowForm
  | PublishForm uuid
  | UnpublishForm uuid
  | CatalogAdminPage "nat option" "nat option"
  | CreateItemForm CatalogItemForm
  | ToggleItemForm uuid bool
  | EditItemPage uuid
  | EditItemForm uuid CatalogItemForm
  | LoadStarter
  | AuditLogAdminPage "i64 option"

text \<open>A page comes with the access cookie, the refresh cookie and the path asked for.\<close>

datatype http_request =
    Public public_request
  | MemberApi "string option" member_api
  | AdminApi "string option" admin_api
  | MemberPage "string option" "string option" string member_page
  | AdminPage "string option" "string option" string admin_page

text \<open>What the process was started with: its state, the files built into the binary (the starter
  catalog, the style sheet, the script of the workflow form) and the JSON decoders of that form.\<close>

record site =
  st_state :: AppState
  st_seed :: "SeedItem list"
  st_style_css :: string
  st_workflow_builder_js :: string
  st_graph_from_str :: "string \<Rightarrow> string + WorkflowGraph"
  st_mapping_from_str :: "string \<Rightarrow> string + FieldMapping"

section \<open>Handlers\<close>

fun serve_auth_api :: "env \<Rightarrow> AppState \<Rightarrow> auth_api \<Rightarrow> handler" where
  "serve_auth_api E state (ApiLogin email pw) = respond (login E state email pw)"
| "serve_auth_api E state (ApiRegister email name pw) = respond (register E state email name pw)"
| "serve_auth_api E state (ApiRefresh tok) = respond (refresh E state tok)"
| "serve_auth_api E state (ApiLogout tok) = respond (logout E tok)"
| "serve_auth_api E state (ApiResetRequest email) = respond (request_password_reset E state email)"
| "serve_auth_api E state (ApiResetConfirm tok pw) = respond (confirm_password_reset E tok pw)"

fun serve_sso_api :: "env \<Rightarrow> AppState \<Rightarrow> sso_api \<Rightarrow> handler" where
  "serve_sso_api E state SsoLogin = respond (sso_login E state)"
| "serve_sso_api E state (SsoCallback code st err) = respond (sso_callback E state code st err)"
| "serve_sso_api E state (SsoToken code) = respond (sso_token E state code)"

fun serve_sign_in :: "env \<Rightarrow> AppState \<Rightarrow> sign_in_page \<Rightarrow> handler" where
  "serve_sign_in E state (ShowLogin access nxt err reset) = respond (show_login E state access nxt err reset)"
| "serve_sign_in E state (SubmitLogin email pw nxt) = respond (submit_login E state email pw nxt)"
| "serve_sign_in E state (SsoComplete code nxt) = respond (sso_complete E state code nxt)"
| "serve_sign_in E state (WebLogout refresh_cookie) = respond (web_logout E refresh_cookie)"
| "serve_sign_in E state ShowForgotPassword = respond (show_forgot_password E state)"
| "serve_sign_in E state (SubmitForgotPassword email) = respond (submit_forgot_password E state email)"
| "serve_sign_in E state (ShowResetPassword tok) = respond (show_reset_password E tok)"
| "serve_sign_in E state (SubmitResetPassword tok pw) = respond (submit_reset_password E tok pw)"

text \<open>The health check and the two static files (content type and body).\<close>

definition health :: "(ApiError, json) act" where
  "health = return (JObject [(''status'', JString ''ok'')])"

definition style_css :: "site \<Rightarrow> (ApiError, string \<times> string) act" where
  "style_css st = return (''text/css; charset=utf-8'', st_style_css st)"

definition workflow_builder_js :: "site \<Rightarrow> (ApiError, string \<times> string) act" where
  "workflow_builder_js st = return (''text/javascript; charset=utf-8'', st_workflow_builder_js st)"

fun serve_public :: "env \<Rightarrow> site \<Rightarrow> public_request \<Rightarrow> handler" where
  "serve_public E st Health = respond health"
| "serve_public E st StyleCss = respond (style_css st)"
| "serve_public E st WorkflowBuilderJs = respond (workflow_builder_js st)"
| "serve_public E st (Uploaded path) = respond (serve E (as_uploads_dir (st_state st)) path)"
| "serve_public E st PublicConfig = respond (public_config E (st_state st))"
| "serve_public E st (Auth req) = serve_auth_api E (st_state st) req"
| "serve_public E st (Sso req) = serve_sso_api E (st_state st) req"
| "serve_public E st (SignIn req) = serve_sign_in E (st_state st) req"

fun serve_member_api :: "env \<Rightarrow> AppState \<Rightarrow> string option \<Rightarrow> member_api \<Rightarrow> handler" where
  "serve_member_api E state b Me = respond (me E state b)"
| "serve_member_api E state b ListDepartments = respond (departments_route_list E state b)"
| "serve_member_api E state b (ListCatalog inactive) = respond (catalog_route_list E state b inactive)"
| "serve_member_api E state b ListMyInstances = respond (instances_route_list_mine E state b)"
| "serve_member_api E state b (StartInstance i) = respond_run (instances_route_start E state b i)"
| "serve_member_api E state b (GetInstance i) = respond (get_one E state b i)"
| "serve_member_api E state b (SubmitAnswer i key v) = respond_run (instances_route_submit_answer E state b i key v)"
| "serve_member_api E state b ListMyApprovals = respond (approvals_route_list_mine E state b)"
| "serve_member_api E state b (DecideApproval i dec c) = respond_run (approvals_route_decide_as E state b i dec c)"

fun serve_admin_api :: "env \<Rightarrow> AppState \<Rightarrow> string option \<Rightarrow> admin_api \<Rightarrow> handler" where
  "serve_admin_api E state b (ListUsers inactive) = respond (list_users E state b inactive)"
| "serve_admin_api E state b (CreateUser new) = respond (create_user E state b new)"
| "serve_admin_api E state b (UpdateUserRow i patch) = respond (update_user E state b i patch)"
| "serve_admin_api E state b (DeactivateUser i) = respond (deactivate_user E state b i)"
| "serve_admin_api E state b (CreateDepartment new) = respond (departments_route_create E state b new)"
| "serve_admin_api E state b (UpdateDepartmentRow i patch) = respond (departments_route_update E state b i patch)"
| "serve_admin_api E state b (DeleteDepartment i) = respond (departments_route_delete E state b i)"
| "serve_admin_api E state b (UploadDepartmentLogo i hs body) = respond (departments_route_upload_logo E state b i hs body)"
| "serve_admin_api E state b (RemoveDepartmentLogo i) = respond (departments_route_remove_logo E state b i)"
| "serve_admin_api E state b (UpdateSettings patch) = respond (update_settings E state b patch)"
| "serve_admin_api E state b (UploadLogo hs body) = respond (settings_upload_logo E state b hs body)"
| "serve_admin_api E state b RemoveLogo = respond (settings_remove_logo E state b)"
| "serve_admin_api E state b (CreateItem new) = respond (catalog_route_create E state b new)"
| "serve_admin_api E state b (UpdateItem i patch) = respond (catalog_route_update E state b i patch)"
| "serve_admin_api E state b (DeactivateItem i) = respond (catalog_route_deactivate E state b i)"
| "serve_admin_api E state b (ListDefinitions published) = respond (definitions_route_list E state b published)"
| "serve_admin_api E state b (CreateDefinition new) = respond (definitions_route_create E state b new)"
| "serve_admin_api E state b (Publish i) = respond (publish E state b i)"
| "serve_admin_api E state b (Unpublish i) = respond (unpublish E state b i)"
| "serve_admin_api E state b (ListAuditLog p n) = respond (list_audit_log E state b p n)"

fun serve_member_page :: "env \<Rightarrow> AppState \<Rightarrow> member_page \<Rightarrow> User \<Rightarrow> handler" where
  "serve_member_page E state Dashboard user = respond (dashboard_show E user)"
| "serve_member_page E state CatalogPage user = respond (catalog_show E user)"
| "serve_member_page E state (ItemPage i) user = respond_run (item_detail E user i)"
| "serve_member_page E state (RequestItem i) user = respond_run (start_request E state user i)"
| "serve_member_page E state RequestsPage user = respond (requests_list_mine E user)"
| "serve_member_page E state (RequestPage i) user = respond (requests_show E user i)"
| "serve_member_page E state (AnswerForm i key v) user = respond_run (requests_submit_answer E state user i key v)"
| "serve_member_page E state ApprovalsPage user = respond (approvals_list_mine E user)"
| "serve_member_page E state (DecideForm i dec c) user = respond_run (web_decide E state user i dec c)"

fun serve_admin_page :: "env \<Rightarrow> site \<Rightarrow> admin_page \<Rightarrow> User \<Rightarrow> handler" where
  "serve_admin_page E st UsersPage user = respond (admin_users_list E user)"
| "serve_admin_page E st (CreateUserForm email name pw role) user = respond (admin_users_create E user email name pw role)"
| "serve_admin_page E st (UpdateUserForm i role dept mgr act) user = respond (admin_users_update E user i role dept mgr act)"
| "serve_admin_page E st (DeactivateUserForm i) user = respond (admin_users_deactivate E user i)"
| "serve_admin_page E st DepartmentsPage user = respond (admin_departments_list E user)"
| "serve_admin_page E st (CreateDepartmentForm name parent) user = respond (admin_departments_create E user name parent)"
| "serve_admin_page E st (UpdateDepartmentForm i name parent) user = respond (admin_departments_update E user i name parent)"
| "serve_admin_page E st (DeleteDepartmentForm i) user = respond (admin_departments_delete E user i)"
| "serve_admin_page E st SettingsPage user = respond (admin_settings_show E (st_state st) user)"
| "serve_admin_page E st (SettingsForm name signup tz) user = respond (admin_settings_update E (st_state st) user name signup tz)"
| "serve_admin_page E st WorkflowsPage user = respond (admin_workflows_list E user)"
| "serve_admin_page E st (CreateWorkflow form) user =
     respond (admin_workflows_create E (st_graph_from_str st) (st_mapping_from_str st) user form)"
| "serve_admin_page E st (PublishForm i) user = respond (admin_workflows_publish E user i)"
| "serve_admin_page E st (UnpublishForm i) user = respond (admin_workflows_unpublish E user i)"
| "serve_admin_page E st (CatalogAdminPage added skipped) user = respond (admin_catalog_list E (st_seed st) user added skipped)"
| "serve_admin_page E st (CreateItemForm form) user = respond (admin_catalog_create E (st_seed st) user form)"
| "serve_admin_page E st (ToggleItemForm i active) user = respond (admin_catalog_toggle E user i active)"
| "serve_admin_page E st (EditItemPage i) user = respond (admin_catalog_edit_form E user i)"
| "serve_admin_page E st (EditItemForm i form) user = respond (admin_catalog_edit E user i form)"
| "serve_admin_page E st LoadStarter user = respond (load_starter E (st_seed st) user)"
| "serve_admin_page E st (AuditLogAdminPage p) user = respond (admin_audit_log E user p)"

text \<open>The session middleware for a page that may not return: who the cookies belong to, with the
  cookies to set when the session was renewed, and then the page.\<close>

definition session_user ::
    "env \<Rightarrow> AppState \<Rightarrow> string option \<Rightarrow> string option \<Rightarrow> (ApiError, (User \<times> Cookie list) option) act" where
  "session_user E state access_cookie refresh_cookie =
     bindM (peek_user E state access_cookie) (\<lambda>signed_in.
     case signed_in of
       Some user \<Rightarrow> return (Some (user, []))
     | None \<Rightarrow>
         bindM (refreshed_session E state refresh_cookie) (\<lambda>session.
         case session of
           Some (user, access_token, refresh_token) \<Rightarrow>
             return (Some (user, set_session_cookies state access_token refresh_token))
         | None \<Rightarrow> return None))"

definition with_session ::
    "env \<Rightarrow> AppState \<Rightarrow> string option \<Rightarrow> string option \<Rightarrow> string \<Rightarrow> (User \<Rightarrow> handler) \<Rightarrow> handler" where
  "with_session E state access_cookie refresh_cookie path page w =
     (case session_user E state access_cookie refresh_cookie w of
        (Ok None, w') \<Rightarrow> Some (SignInFirst (''/login?next='' @ urlencoding_encode path), w')
      | (Ok (Some (user, cookies)), w') \<Rightarrow> page user w'
      | (Err e, w') \<Rightarrow> Some (Failure e, w')
      | (Panic, w') \<Rightarrow> Some (Aborted, w'))"

fun http_serve :: "env \<Rightarrow> site \<Rightarrow> http_request \<Rightarrow> handler" where
  "http_serve E st (Public req) = serve_public E st req"
| "http_serve E st (MemberApi b req) = serve_member_api E (st_state st) b req"
| "http_serve E st (AdminApi b req) = serve_admin_api E (st_state st) b req"
| "http_serve E st (MemberPage a r path req) = with_session E (st_state st) a r path (serve_member_page E (st_state st) req)"
| "http_serve E st (AdminPage a r path req) = with_session E (st_state st) a r path (serve_admin_page E st req)"

end
