(* ===== verification/Server.thy ===== *)
theory Server
  imports Http
begin

text \<open>
  The server as it runs: any number of requests and rounds of the expiry poller, one after the
  other (theory Interleaving is about handlers that overlap). A step of it is a step of the
  system of theory System, so what holds there holds of every request the server can be sent.

  Shown: the server refines that system; nobody but an administrator changes what is the
  administrators' to change; on workflows without cycles every handler returns; a decision whose workflow cannot be resumed strands its
  request.
\<close>

section \<open>What a request keeps\<close>

definition handler_keeps :: "(world \<Rightarrow> bool) \<Rightarrow> handler \<Rightarrow> bool" where
  "handler_keeps P h \<longleftrightarrow> (\<forall>w a w'. P w \<longrightarrow> h w = Some (a, w') \<longrightarrow> P w')"

abbreviation handler_keeps_db :: "(db \<Rightarrow> bool) \<Rightarrow> handler \<Rightarrow> bool" where
  "handler_keeps_db I h \<equiv> handler_keeps (\<lambda>w. I (w_db w)) h"

lemma handler_keepsD: "handler_keeps P h \<Longrightarrow> P w \<Longrightarrow> h w = Some (a, w') \<Longrightarrow> P w'"
  by (auto simp: handler_keeps_def)

lemma respond_keeps: "keeps P m \<Longrightarrow> handler_keeps P (respond m)"
  by (auto simp: handler_keeps_def respond_def dest: keepsD' split: prod.splits)

lemma respond_run_keeps: "ends_in P m P \<Longrightarrow> handler_keeps P (respond_run m)"
  by (auto simp: handler_keeps_def respond_run_def dest: ends_inD)

lemma with_session_keeps:
  assumes "keeps P (session_user E state a r)" "\<And>user. handler_keeps P (page user)"
  shows "handler_keeps P (with_session E state a r path page)"
  unfolding handler_keeps_def
proof (intro allI impI)
  fix w ans w' assume "P w" and run: "with_session E state a r path page w = Some (ans, w')"
  obtain q w1 where q: "session_user E state a r w = (q, w1)" by fastforce
  have "P w1" using assms(1) \<open>P w\<close> q by (rule keepsD')
  then show "P w'"
    using run q handler_keepsD [OF assms(2)]
    by (cases q) (auto simp: with_session_def split: option.splits)
qed

lemma static_keeps: "keeps_db I health" "keeps_db I (style_css st)" "keeps_db I (workflow_builder_js st)"
  unfolding health_def style_css_def workflow_builder_js_def by (intro keeps_intros)+

lemma run_then_ends: "ends_in P m R \<Longrightarrow> ends_in P (run_then m f) R"
  by (auto simp: ends_in_def run_then_def split: option.splits prod.splits res.splits)

lemma then_run_ends:
  "keeps P m \<Longrightarrow> (\<And>x. ends_in P (f x) P) \<Longrightarrow> ends_in P (then_run m f) P"
  by (rule ends_in_then_run [OF hoare_keeps])

lemma ends_in_return: "ends_in P (\<lambda>w. Some (x, w)) P"
  by (simp add: ends_in_def)

text \<open>A handler that only reads keeps whatever depends on the database alone.\<close>

lemma reader_keeps:
  assumes "\<And>I. keeps_db I m" "\<And>w w'. P w \<Longrightarrow> w_db w' = w_db w \<Longrightarrow> P w'"
  shows "keeps P m"
proof (rule keepsI)
  fix w assume "P w"
  have "w_db (snd (m w)) = w_db w"
    using keepsD [OF assms(1), of "\<lambda>d. d = w_db w" w] by simp
  with \<open>P w\<close> show "P (snd (m w))" by (rule assms(2))
qed

context session_writes
begin

lemma session_user_keeps: "keeps_db I (session_user E state a r)"
  unfolding session_user_def by (intro keeps_intros signing_in_keeps)

end

context account_writes
begin

lemma serve_public_keeps: "handler_keeps_db I (serve_public E st req)"
proof (cases req)
  case (Auth req)
  then show ?thesis
    by (cases req) (simp_all add: respond_keeps signing_in_keeps account_handlers_keep)
next
  case (Sso req)
  then show ?thesis
    by (cases req) (simp_all add: respond_keeps signing_in_keeps account_handlers_keep)
next
  case (SignIn req)
  then show ?thesis
    by (cases req) (simp_all add: respond_keeps signing_in_keeps account_handlers_keep sign_in_pages_keep)
qed (simp_all add: respond_keeps static_keeps sign_in_pages_keep reading_handlers_keep)

end

context admin_writes
begin

lemma serve_admin_api_keeps: "handler_keeps_db I (serve_admin_api E state b req)"
  by (cases req) (simp_all add: respond_keeps admin_routes_keep)

lemma serve_admin_page_keeps: "handler_keeps_db I (serve_admin_page E st req user)"
  by (cases req) (simp_all add: respond_keeps admin_pages_keep)

end

text \<open>The handlers of a member of the organisation, over the three operations of the orchestrator
  they call.\<close>

locale member_calls =
  fixes E :: env and state :: AppState and P :: "world \<Rightarrow> bool"
  assumes same_db: "P w \<Longrightarrow> w_db w' = w_db w \<Longrightarrow> P w'"
    and starts: "ends_in P (start_instance E (deps_of state) i user) P"
    and answers: "ends_in P (submit_answer E (deps_of state) i user k v) P"
    and decides: "ends_in P (approvals_route_decide E (deps_of state) user i dec c) P"
begin

lemma reads: "(\<And>I. keeps_db I m) \<Longrightarrow> keeps P m"
  by (rule reader_keeps) (auto intro: same_db)

lemma extracts: "keeps P (from_request_parts E state b)"
  by (rule reads) (intro keeps_intros)

lemma member_api_runs:
  "ends_in P (instances_route_start E state b i) P"
  "ends_in P (instances_route_submit_answer E state b i k v) P"
  "ends_in P (approvals_route_decide_as E state b i dec c) P"
  unfolding instances_route_start_def instances_route_submit_answer_def approvals_route_decide_as_def
  by (intro then_run_ends extracts starts answers decides)+

lemma item_detail_ends: "ends_in P (item_detail E user i) P"
  unfolding item_detail_def
  by (rule then_run_ends [OF reads]; (intro keeps_intros)?) (auto simp: ends_in_def)

lemma member_page_runs:
  "ends_in P (start_request E state user i) P"
  "ends_in P (requests_submit_answer E state user i k s) P"
  "ends_in P (web_decide E state user i d cm) P"
proof -
  show "ends_in P (start_request E state user i) P"
    unfolding start_request_def by (intro run_then_ends starts)
  show "ends_in P (requests_submit_answer E state user i k s) P"
    unfolding requests_submit_answer_def
    by (rule then_run_ends [OF reads]; (intro keeps_intros run_then_ends answers)?)
  show "ends_in P (web_decide E state user i d cm) P"
    unfolding web_decide_def Let_def
    by (cases "decision_of_form d") (auto intro: ends_in_return run_then_ends decides)
qed

lemma serve_member_api_keeps: "handler_keeps P (serve_member_api E state b req)"
  by (cases req) (simp_all add: respond_keeps respond_run_keeps member_api_runs reads reading_handlers_keep)

lemma serve_member_page_keeps: "handler_keeps P (serve_member_page E state req user)"
  by (cases req)
    (simp_all add: respond_keeps respond_run_keeps member_page_runs item_detail_ends reads reading_pages_keep)

end

sublocale request_writes \<subseteq> members: member_calls E state "\<lambda>w. I (w_db w)" for E state
  by unfold_locales
    (auto intro: start_instance_keeps submit_answer_keeps route_decide_keeps)

section \<open>The server as a system of requests and approvals\<close>

text \<open>One request that was answered, or one round of the poller (\<^verbatim>\<open>expiry_handler.rs\<close> resumes with
  the state's notifier and connectors).\<close>

inductive server_step :: "env \<Rightarrow> site \<Rightarrow> world \<Rightarrow> world \<Rightarrow> bool" for E :: env and st :: site where
  served: "http_serve E st req w = Some (ans, w') \<Longrightarrow> server_step E st w w'"
| polled: "poll_once E (handle_expired E (deps_of (st_state st))) w = Some (q, w') \<Longrightarrow> server_step E st w w'"

inductive_cases server_stepE: "server_step E st w w'"

text \<open>Handlers that leave requests and approvals alone are administrative steps.\<close>

lemma quiet_handler:
  assumes "\<And>d0. handler_keeps_db ((db_step E)\<^sup>*\<^sup>* d0) h" "\<And>d0. handler_keeps_db (same_requests d0) h"
  shows "handler_keeps ((sys_step E deps)\<^sup>*\<^sup>* w0) h"
  unfolding handler_keeps_def
proof (intro allI impI)
  fix w ans w' assume w: "(sys_step E deps)\<^sup>*\<^sup>* w0 w" and h: "h w = Some (ans, w')"
  have "(db_step E)\<^sup>*\<^sup>* (w_db w) (w_db w')" "same_requests (w_db w) (w_db w')"
    using handler_keepsD [OF assms(1) _ h, of "w_db w"] handler_keepsD [OF assms(2) _ h, of "w_db w"] by simp_all
  then have "sys_step E deps w w'" by (auto simp: same_requests_def intro: step_admin)
  with w show "(sys_step E deps)\<^sup>*\<^sup>* w0 w'" by simp
qed

lemma quiet_act:
  assumes "\<And>d0. keeps_db ((db_step E)\<^sup>*\<^sup>* d0) m" "\<And>d0. keeps_db (same_requests d0) m"
  shows "keeps ((sys_step E deps)\<^sup>*\<^sup>* w0) m"
proof (rule keepsI)
  fix w assume w: "(sys_step E deps)\<^sup>*\<^sup>* w0 w"
  have "(db_step E)\<^sup>*\<^sup>* (w_db w) (w_db (snd (m w)))" "same_requests (w_db w) (w_db (snd (m w)))"
    using keepsD [OF assms(1), of "w_db w" w] keepsD [OF assms(2), of "w_db w" w] by simp_all
  then have "sys_step E deps w (snd (m w))" by (auto simp: same_requests_def intro: step_admin)
  with w show "(sys_step E deps)\<^sup>*\<^sup>* w0 (snd (m w))" by simp
qed

interpretation system: member_calls E state "(sys_step E (deps_of state))\<^sup>*\<^sup>* w0" for E state w0
proof
  show "(sys_step E (deps_of state))\<^sup>*\<^sup>* w0 w'"
    if "(sys_step E (deps_of state))\<^sup>*\<^sup>* w0 w" "w_db w' = w_db w" for w w'
  proof -
    have "sys_step E (deps_of state) w w'" using that(2) by (intro step_admin) simp_all
    with that(1) show ?thesis by simp
  qed
qed (auto simp: ends_in_def intro: rtranclp.rtrancl_into_rtrancl step_start step_answer step_decide)

lemma http_serve_steps: "handler_keeps ((sys_step E (deps_of (st_state st)))\<^sup>*\<^sup>* w0) (http_serve E st req)"
proof (cases req)
  case (Public r)
  then show ?thesis
    by (simp add: quiet_handler via_accounts.serve_public_keeps accounts_spare.serve_public_keeps)
next
  case (MemberApi b r)
  then show ?thesis by (simp add: system.serve_member_api_keeps)
next
  case (AdminApi b r)
  then show ?thesis
    by (simp add: quiet_handler via_administration.serve_admin_api_keeps administration_spares.serve_admin_api_keeps)
next
  case (MemberPage a r path p)
  then show ?thesis
    by (simp add: with_session_keeps quiet_act via_accounts.session_user_keeps accounts_spare.session_user_keeps
        system.serve_member_page_keeps)
next
  case (AdminPage a r path p)
  then show ?thesis
    by (simp add: with_session_keeps quiet_act quiet_handler via_accounts.session_user_keeps
        accounts_spare.session_user_keeps via_administration.serve_admin_page_keeps
        administration_spares.serve_admin_page_keeps)
qed

lemma server_steps_sys:
  "(server_step E st)\<^sup>*\<^sup>* w w' \<Longrightarrow> (sys_step E (deps_of (st_state st)))\<^sup>*\<^sup>* w w'"
proof (induction rule: rtranclp_induct)
  case (step w1 w2)
  show ?case
    using step.hyps(2)
  proof (cases rule: server_step.cases)
    case (served req ans)
    from handler_keepsD [OF http_serve_steps step.IH served] show ?thesis .
  next
    case (polled q)
    then show ?thesis using step.IH by (auto intro: rtranclp.rtrancl_into_rtrancl step_poll)
  qed
qed simp

section \<open>Only administrators administer\<close>

text \<open>A request is an administrator's when its bearer token, or the session its cookies open or
  renew, belongs to a user who is an active administrator in the database now.\<close>

fun by_administrator :: "env \<Rightarrow> site \<Rightarrow> http_request \<Rightarrow> world \<Rightarrow> bool" where
  "by_administrator E st (AdminApi b _) w = admin_bearer E (st_state st) b w"
| "by_administrator E st (AdminPage a r _ _) w =
     (case session_user E (st_state st) a r w of
        (Ok (Some (user, _)), _) \<Rightarrow> u_role user = Admin
      | _ \<Rightarrow> False)"
| "by_administrator E st _ w = False"

lemma turned_away_keeps:
  assumes "turned_away m w" "respond m w = Some (ans, w')"
  shows "w_db w' = w_db w \<and> ans \<in> {Failure Unauthorized, Failure Forbidden, Failure Internal}"
  using assms by (cases "m w") (auto simp: turned_away_def respond_def)

lemma admin_api_turned_away:
  assumes "\<not> admin_bearer E state b w" "serve_admin_api E state b req w = Some (ans, w')"
  shows "w_db w' = w_db w \<and> ans \<in> {Failure Unauthorized, Failure Forbidden, Failure Internal}"
proof -
  have away: "w_db w' = w_db w \<and> ans \<in> {Failure Unauthorized, Failure Forbidden, Failure Internal}"
    if "respond (as_admin E state b handler) w = Some (ans, w')" for handler :: "User \<Rightarrow> (ApiError, 'a) act"
    using as_admin_turned_away [OF assms(1)] that by (rule turned_away_keeps)
  show ?thesis
    using assms(2)
    by (cases req)
      (simp_all only: serve_admin_api.simps list_users_def create_user_def update_user_def
        deactivate_user_def departments_route_create_def departments_route_update_def
        departments_route_delete_def departments_route_upload_logo_def departments_route_remove_logo_def
        update_settings_def settings_upload_logo_def settings_remove_logo_def catalog_route_create_def
        catalog_route_update_def catalog_route_deactivate_def definitions_route_list_def
        definitions_route_create_def publish_def unpublish_def list_audit_log_def away)
qed

lemma admin_page_turned_away:
  "u_role user \<noteq> Admin \<Longrightarrow> serve_admin_page E st req user w = Some (Failure Forbidden, w)"
  by (cases req) (simp_all add: respond_def admin_page_defs)

lemma http_serve_administration:
  assumes "\<not> by_administrator E st req w" "http_serve E st req w = Some (ans, w')"
    and d0: "same_administration d0 (w_db w)"
  shows "same_administration d0 (w_db w')"
proof (cases req)
  case (Public r)
  then show ?thesis
    using handler_keepsD [OF unprivileged.serve_public_keeps d0] assms(2) by simp
next
  case (MemberApi b r)
  then show ?thesis
    using handler_keepsD [OF requesters.members.serve_member_api_keeps d0] assms(2) by simp
next
  case (AdminApi b r)
  then show ?thesis using admin_api_turned_away [of E "st_state st" b w r ans w'] assms by simp
next
  case (MemberPage a r path p)
  have "handler_keeps_db (same_administration d0) (http_serve E st req)"
    unfolding MemberPage http_serve.simps
    by (intro with_session_keeps unprivileged.session_user_keeps requesters.members.serve_member_page_keeps)
  from handler_keepsD [OF this d0 assms(2)] show ?thesis .
next
  case (AdminPage a r path p)
  obtain q w1 where q: "session_user E (st_state st) a r w = (q, w1)" by fastforce
  have "same_administration d0 (w_db w1)" using d0 keepsD' [OF unprivileged.session_user_keeps _ q] by blast
  then show ?thesis
    using assms(1,2) q AdminPage
    by (cases q) (auto simp: with_session_def admin_page_turned_away split: option.splits)
qed

text \<open>A run in which no request is an administrator's.\<close>

inductive member_step :: "env \<Rightarrow> site \<Rightarrow> world \<Rightarrow> world \<Rightarrow> bool" for E :: env and st :: site where
  member_served: "\<not> by_administrator E st req w \<Longrightarrow> http_serve E st req w = Some (ans, w') \<Longrightarrow> member_step E st w w'"
| member_polled: "poll_once E (handle_expired E (deps_of (st_state st))) w = Some (q, w') \<Longrightarrow> member_step E st w w'"

lemma member_steps_administration:
  "(member_step E st)\<^sup>*\<^sup>* w w' \<Longrightarrow> same_administration (w_db w) (w_db w')"
proof (induction rule: rtranclp_induct)
  case (step w1 w2)
  show ?case
    using step.hyps(2)
  proof (cases rule: member_step.cases)
    case (member_served req ans)
    then show ?thesis using http_serve_administration step.IH by blast
  next
    case (member_polled q)
    from ends_inD [OF requesters.poll_once_keeps step.IH this] show ?thesis .
  qed
qed simp

text \<open>Whoever acts for an administrator is one in the database: without an active administrator
  no request is an administrator's.\<close>

definition has_administrator :: "db \<Rightarrow> bool" where
  "has_administrator d \<longleftrightarrow> (\<exists>u \<in> set (db_users d). u_role u = Admin \<and> u_is_active u)"

lemma session_user_active:
  assumes "session_user E state a r w = (Ok (Some (u, cookies)), w')"
  shows "u \<in> set (db_users (w_db w)) \<and> u_is_active u"
proof -
  obtain s w1 where s: "peek_user E state a w = (Ok s :: (ApiError, _) res, w1)"
    and rest: "(case s of Some user \<Rightarrow> return (Some (user, [])) | None \<Rightarrow>
        bindM (refreshed_session E state r) (\<lambda>session. case session of
           Some (user, access_token, refresh_token) \<Rightarrow>
             return (Some (user, set_session_cookies state access_token refresh_token))
         | None \<Rightarrow> return None)) w1 = (Ok (Some (u, cookies)) :: (ApiError, _) res, w')"
    using assms unfolding session_user_def by (auto elim: bindM_OkE)
  have same: "w_db w1 = w_db w"
    using keepsD' [OF sign_in_pages_keep(1) _ s, of "\<lambda>d. d = w_db w"] by simp
  show ?thesis
  proof (cases s)
    case None
    then show ?thesis
      using rest same by (auto elim!: bindM_OkE dest!: refreshed_session_active split: option.splits)
  next
    case (Some user)
    then show ?thesis using rest s peek_user_active [of E state a w user w1] by auto
  qed
qed

lemma by_administrator_has: "by_administrator E st req w \<Longrightarrow> has_administrator (w_db w)"
  by (cases req)
    (auto simp: admin_bearer_def has_administrator_def dest!: session_user_active
      split: prod.splits res.splits option.splits)

lemma standing_has_administrator:
  assumes "same_administration d0 d"
  shows "has_administrator d \<longleftrightarrow> has_administrator d0"
proof -
  have rank: "has_administrator x \<longleftrightarrow> (\<exists>p \<in> set (map standing (db_users x)). fst (snd (snd p)) = Admin \<and> fst (snd (snd (snd p))))" for x
    by (auto simp: has_administrator_def standing_def)
  obtain new where "map standing (db_users d) = map standing (db_users d0) @ map standing new"
    "\<forall>u \<in> set new. newcomer u" using assms by (auto simp: same_administration_def)
  moreover from this have "\<forall>p \<in> set (map standing new). fst (snd (snd p)) \<noteq> Admin"
    by (auto simp: standing_def newcomer_def)
  ultimately show ?thesis by (simp only: rank set_append bex_Un) blast
qed

lemma server_steps_without_administrator:
  assumes "(server_step E st)\<^sup>*\<^sup>* w w'" "\<not> has_administrator (w_db w)"
  shows "(member_step E st)\<^sup>*\<^sup>* w w'"
  using assms(1)
proof (induction rule: rtranclp_induct)
  case (step w1 w2)
  have "\<not> has_administrator (w_db w1)"
    using standing_has_administrator [OF member_steps_administration [OF step.IH]] assms(2) by simp
  then have "member_step E st w1 w2"
    using step.hyps(2) by (auto elim!: server_stepE intro: member_served member_polled dest: by_administrator_has)
  with step.IH show ?case by simp
qed simp

section \<open>Without an identity\<close>

lemma bindM_failed: "fst (m w) = Err e \<Longrightarrow> bindM m f w = (Err e, snd (m w))"
  by (cases "m w") (simp add: bindM_def)

lemma then_run_failed: "fst (m w) = Err e \<Longrightarrow> then_run m f w = Some (Err e, snd (m w))"
  by (cases "m w") (simp add: then_run_def)

lemma api_without_identity:
  assumes "fst (from_request_parts E state b w) = Err e"
  shows "serve_member_api E state b mreq w = Some (Failure e, snd (from_request_parts E state b w))"
    "serve_admin_api E state b areq w = Some (Failure e, snd (from_request_parts E state b w))"
proof -
  note failed = bindM_failed [of "from_request_parts E state b", OF assms]
    then_run_failed [of "from_request_parts E state b", OF assms]
  show "serve_member_api E state b mreq w = Some (Failure e, snd (from_request_parts E state b w))"
    by (cases mreq) (simp_all add: respond_def respond_run_def failed api_route_defs instances_route_start_def
        instances_route_submit_answer_def approvals_route_decide_as_def)
  show "serve_admin_api E state b areq w = Some (Failure e, snd (from_request_parts E state b w))"
    by (cases areq) (simp_all add: respond_def failed api_route_defs)
qed

section \<open>Every request is answered\<close>

lemma respond_returns: "respond m w \<noteq> None"
  by (simp add: respond_def)

lemma respond_run_returns: "m w \<noteq> None \<Longrightarrow> respond_run m w \<noteq> None"
  by (simp add: respond_run_def)

lemma run_then_returns: "m w \<noteq> None \<Longrightarrow> run_then m f w \<noteq> None"
  by (auto simp: run_then_def split: option.splits prod.splits res.splits)

lemma after_reading:
  assumes "acyclic_definitions E (w_db w)" "\<And>I. keeps_db I m"
    and "\<And>x w'. acyclic_definitions E (w_db w') \<Longrightarrow> f x w' \<noteq> None"
  shows "then_run m f w \<noteq> None"
proof (rule then_run_returns)
  fix x w' assume m: "m w = (Ok x, w')"
  have "acyclic_definitions E (w_db w')"
    using assms(2) [of "acyclic_definitions E"] assms(1) m by (rule keepsD')
  then show "f x w' \<noteq> None" by (rule assms(3))
qed

lemma serve_member_api_returns:
  assumes "acyclic_definitions E (w_db w)"
  shows "serve_member_api E state b req w \<noteq> None"
proof -
  have token: "\<And>I. keeps_db I (from_request_parts E state b)" by (intro keeps_intros)
  have after: "respond_run (then_run (from_request_parts E state b) f) w \<noteq> None"
    if "\<And>u w'. acyclic_definitions E (w_db w') \<Longrightarrow> f u w' \<noteq> None" for f :: "User \<Rightarrow> (world, ApiError, WorkflowInstance) run"
    by (rule respond_run_returns, rule after_reading [OF assms token that])
  show ?thesis
    by (cases req)
      (simp_all add: respond_returns instances_route_start_def instances_route_submit_answer_def
        approvals_route_decide_as_def after start_instance_returns submit_answer_returns
        approvals_route_decide_returns del: not_None_eq)
qed

lemma requests_submit_answer_returns:
  assumes "acyclic_definitions E (w_db w)"
  shows "requests_submit_answer E state user i key v w \<noteq> None"
  unfolding requests_submit_answer_def
  by (rule after_reading [OF assms]; (intro keeps_intros run_then_returns submit_answer_returns)?)

lemma serve_member_page_returns:
  assumes "acyclic_definitions E (w_db w)"
  shows "serve_member_page E state req user w \<noteq> None"
proof (cases req)
  case (DecideForm i dec c)
  then show ?thesis
    by (cases "decision_of_form dec")
      (simp_all add: web_decide_def respond_run_returns run_then_returns
        approvals_route_decide_returns [OF assms] Let_def del: not_None_eq)
qed (simp_all add: respond_returns respond_run_returns item_detail_returns [OF assms] start_request_def
    run_then_returns start_instance_returns [OF assms] requests_submit_answer_returns [OF assms]
    del: not_None_eq)

lemma serve_admin_returns:
  "serve_admin_api E state b areq w \<noteq> None" "serve_admin_page E st preq user w \<noteq> None"
  by (cases areq; simp add: respond_returns del: not_None_eq)
    (cases preq; simp add: respond_returns del: not_None_eq)

lemma serve_public_returns: "serve_public E st req w \<noteq> None"
proof (cases req)
  case (Auth r)
  then show ?thesis by (cases r) (simp_all add: respond_returns del: not_None_eq)
next
  case (Sso r)
  then show ?thesis by (cases r) (simp_all add: respond_returns del: not_None_eq)
next
  case (SignIn r)
  then show ?thesis by (cases r) (simp_all add: respond_returns del: not_None_eq)
qed (simp_all add: respond_returns del: not_None_eq)

lemma with_session_returns:
  assumes "acyclic_definitions E (w_db w)"
    and "\<And>user w'. acyclic_definitions E (w_db w') \<Longrightarrow> page user w' \<noteq> None"
  shows "with_session E state a r path page w \<noteq> None"
proof -
  obtain q w1 where q: "session_user E state a r w = (q, w1)" by fastforce
  have "acyclic_definitions E (w_db w1)"
    using no_cycles_signing.session_user_keeps assms(1) q by (rule keepsD')
  then show ?thesis using q assms(2) [of w1] by (cases q) (auto simp: with_session_def split: option.splits)
qed

lemma http_serve_returns:
  assumes "acyclic_definitions E (w_db w)"
  shows "http_serve E st req w \<noteq> None"
  by (cases req)
    (simp_all add: serve_public_returns serve_member_api_returns [OF assms] serve_admin_returns
      with_session_returns [OF assms] serve_member_page_returns del: not_None_eq)

section \<open>The page middleware\<close>

text \<open>\<open>with_session\<close> is \<^verbatim>\<open>require_session\<close> (theory Web\_Session) with the page's response reduced to
  its kind.\<close>

fun answer_of_session :: "(ApiError, 'r session_response) res \<Rightarrow> answer" where
  "answer_of_session (Ok (Passed _ _)) = Success"
| "answer_of_session (Ok (ToLogin url)) = SignInFirst url"
| "answer_of_session (Err e) = Failure e"
| "answer_of_session Panic = Aborted"

lemma with_session_is_require_session:
  "with_session E state a r path (\<lambda>user. respond (page user)) w =
     Some (case require_session E state a r path page w of (q, w') \<Rightarrow> (answer_of_session q, w'))"
  unfolding with_session_def require_session_def session_user_def respond_def
  by (auto simp: bindM_apply split: res.splits prod.splits option.splits)

section \<open>Properties of every run\<close>

text \<open>C29: only administrators administer. As long as no request is made by a user who is an active
  administrator at that moment, whatever is sent to the server, with whatever tokens, cookies
  and forms, leaves everybody's e-mail address, role, activity, department and manager, the
  departments, workflow definitions, catalog, settings and audit log as they were; the only
  accounts that appear are plain requesters without a department or manager.\<close>

theorem only_administrators_administer:
  assumes "(member_step E st)\<^sup>*\<^sup>* w w'"
  shows "\<exists>new. map standing (db_users (w_db w')) = map standing (db_users (w_db w)) @ map standing new \<and>
      (\<forall>u \<in> set new. newcomer u) \<and>
    db_departments (w_db w') = db_departments (w_db w) \<and> db_definitions (w_db w') = db_definitions (w_db w) \<and>
    db_items (w_db w') = db_items (w_db w) \<and> db_org_settings (w_db w') = db_org_settings (w_db w) \<and>
    db_audit (w_db w') = db_audit (w_db w)"
  using member_steps_administration [OF assms] by (auto simp: same_administration_def)

text \<open>C30: nobody becomes an administrator alone. On a server without an active administrator no
  sequence of requests whatsoever makes one, reactivates one, or changes anything that is the
  administrators' to change.\<close>

theorem no_self_promotion:
  assumes "(server_step E st)\<^sup>*\<^sup>* w w'" "\<not> has_administrator (w_db w)"
  shows "\<not> has_administrator (w_db w') \<and> same_administration (w_db w) (w_db w')"
  using member_steps_administration [OF server_steps_without_administrator [OF assms]] assms(2)
    standing_has_administrator by blast

section \<open>Witnesses\<close>

definition sample_site :: site where
  "sample_site = \<lparr>st_state = sample_state, st_seed = [], st_style_css = [],
     st_workflow_builder_js = [], st_graph_from_str = (\<lambda>_. Inl []),
     st_mapping_from_str = (\<lambda>_. Inl [])\<rparr>"

lemmas served_eval = sample_site_def respond_run_def respond_def instances_route_start_def
  from_request_parts_def verify_access_token_def active_user_def users_get_by_id_def
  sample_state_def sample_app_config_def deps_of_def start_eval

lemma completing_served:
  "\<exists>w' r. http_serve E0 sample_site (MemberApi (Some ''2s'') (StartInstance 4)) fresh_world = Some (Success, w') \<and>
     r \<in> set (db_instances (w_db w')) \<and> wi_status r = Completed"
  by (simp add: served_eval)

theorem only_administrators_administer_witness:
  "\<exists>w'. http_serve E0 sample_site (MemberApi (Some ''2s'') (StartInstance 4)) fresh_world = Some (Success, w') \<and>
     db_instances (w_db w') \<noteq> db_instances (w_db fresh_world) \<and> db_items (w_db w') = db_items (w_db fresh_world)"
proof -
  obtain w' r where run: "http_serve E0 sample_site (MemberApi (Some ''2s'') (StartInstance 4)) fresh_world = Some (Success, w')"
    and r: "r \<in> set (db_instances (w_db w'))"
    using completing_served by blast
  have "(member_step E0 sample_site)\<^sup>*\<^sup>* fresh_world w'"
    by (intro r_into_rtranclp member_served [OF _ run]) simp
  then have "db_items (w_db w') = db_items (w_db fresh_world)"
    by (elim only_administrators_administer [elim_format] exE conjE)
  then show ?thesis using run r by (auto simp: fresh_world_def)
qed

theorem no_self_promotion_witness:
  "\<exists>w'. http_serve E0 sample_site (MemberApi (Some ''2s'') (StartInstance 4)) fresh_world = Some (Success, w') \<and>
     \<not> has_administrator (w_db w')"
proof -
  obtain w' where run: "http_serve E0 sample_site (MemberApi (Some ''2s'') (StartInstance 4)) fresh_world = Some (Success, w')"
    using completing_served by blast
  have "\<not> has_administrator (w_db fresh_world)"
    by (simp add: has_administrator_def fresh_world_def sample_defs)
  moreover have "(server_step E0 sample_site)\<^sup>*\<^sup>* fresh_world w'"
    using run by (intro r_into_rtranclp served)
  ultimately show ?thesis using run no_self_promotion by blast
qed

section \<open>Stranded requests\<close>

text \<open>The converse of the invariant does not hold: a decision is committed before the workflow is
  resumed, so when resuming fails (here the workflow names a step that does not exist) the
  request goes on waiting for an approval that is no longer pending, and nobody can move it.\<close>

definition dangling_graph :: WorkflowGraph where
  "dangling_graph = \<lparr>g_entry_step_id = ''approve'',
     g_steps = [\<lparr>s_id = ''approve'', s_label = ''Manager'',
                 s_kind = WaitForApproval ManagerOfRequester ''gone'' ''gone'' None\<rparr>]\<rparr>"

lemma decision_strands_request:
  "\<exists>w'. http_serve (sample_env dangling_graph []) sample_site (MemberApi (Some ''1s'') (DecideApproval 6 Approve None))
       sample_world = Some (Failure Internal, w') \<and>
     (\<exists>r \<in> set (db_instances (w_db w')). wi_id r = 5 \<and> wi_status r = AwaitingApprovalStatus) \<and>
     (\<forall>a \<in> set (db_approvals (w_db w')). pa_status a \<noteq> Pending)"
  by (simp add: served_eval approvals_route_decide_as_def approvals_route_decide_def decide_def
      approvals_get_by_id_def approvals_decide_def approvals_decide_stmt_def resume_after_approval_def
      engine_resume_after_approval_def dangling_graph_def Let_def)

end
