(* ===== verification/Identity.thy ===== *)
theory Identity
  imports Server
begin

text \<open>
  Whose request it is. The server knows a caller by a bearer token (\<^verbatim>\<open>AuthUser\<close>, \<^verbatim>\<open>auth.rs\<close>), by the
  access cookie or by the refresh cookie (\<^verbatim>\<open>web/session.rs\<close>); it hands out tokens at the sign-in
  endpoints and pages and when it renews a session. Here both are stated without the extractors:
  when a token identifies somebody (\<open>identifies\<close>, \<open>renews\<close>), and whose a pair of tokens is
  (\<open>tokens_of\<close>).

  Shown: a protected request that nobody stands behind does nothing; a deactivated account
  gets in nowhere.
\<close>

section \<open>Who a request comes from\<close>

text \<open>A token that verifies now for a user who is active in the database, and a refresh token of a
  live session of such a user.\<close>

definition identifies :: "env \<Rightarrow> AppState \<Rightarrow> string option \<Rightarrow> world \<Rightarrow> User \<Rightarrow> bool" where
  "identifies E state token w v \<longleftrightarrow>
     (\<exists>t claims. token = Some t \<and>
        env_jwt_decode E (ac_jwt_signing_secret (as_config state)) t (env_time E (w_io w)) = Some claims \<and>
        v \<in> set (db_users (w_db w)) \<and> u_id v = cl_sub claims \<and> u_is_active v)"

definition renews :: "env \<Rightarrow> string option \<Rightarrow> world \<Rightarrow> User \<Rightarrow> bool" where
  "renews E cookie w v \<longleftrightarrow>
     (\<exists>t s n. cookie = Some t \<and> s \<in> set (db_sessions (w_db w)) \<and>
        same_text E (ss_refresh_token_hash s) (env_sha256_hex E t) \<and> ss_revoked_at s = None \<and>
        w_io w \<le> n \<and> env_time E n < ss_expires_at s \<and>
        v \<in> set (db_users (w_db w)) \<and> u_id v = ss_user_id s \<and> u_is_active v)"

text \<open>Nothing happened but calls, and at most sessions were revoked.\<close>

definition only_revoked :: "world \<Rightarrow> world \<Rightarrow> bool" where
  "only_revoked w w' \<longleftrightarrow>
     (\<exists>n P now. w' = w\<lparr>w_io := n, w_db := (w_db w)\<lparr>db_sessions :=
        update_rows P (\<lambda>s. s\<lparr>ss_revoked_at := Some now\<rparr>) (db_sessions (w_db w))\<rparr>\<rparr> \<and> w_io w \<le> n)"

lemma only_revoked_calls: "w_io w \<le> n \<Longrightarrow> only_revoked w (w\<lparr>w_io := n\<rparr>)"
  unfolding only_revoked_def
  by (rule exI [of _ n], rule exI [of _ "\<lambda>_. False"]) (simp add: update_rows_nop)

lemma extractor_refuses:
  assumes "\<And>v. \<not> identifies E state b w v"
  obtains e w' where "from_request_parts E state b w = (Err e, w')" "e \<in> {Unauthorized, Internal}"
    "w' \<in> {w, w\<lparr>w_io := Suc (w_io w)\<rparr>}"
    "e = Internal \<longrightarrow> env_fault E (w_io w) \<noteq> NoFault"
proof (cases "from_request_parts E state b w")
  case (Pair q w')
  show ?thesis
  proof (cases q)
    case (Ok v)
    with Pair have "identifies E state b w v"
      by (auto simp: identifies_def elim!: from_request_parts_OkE dest: find_row_SomeD)
    with assms show ?thesis by blast
  next
    case (Err e)
    moreover have "env_fault E (w_io w) \<noteq> NoFault" if "e = Internal"
      using that Err Pair
      by (cases b; cases "env_fault E (w_io w)")
        (auto simp: from_request_parts_def verify_access_token_def users_get_by_id_def io_simps sql_def
          query_def ok_or_def Let_def split: option.splits)
    ultimately show ?thesis
      using that Pair from_request_parts_Err [of E state b w e] from_request_parts_world [of E state b w] by simp
  next
    case Panic
    then show ?thesis using Pair from_request_parts_no_panic [of E state b w] by simp
  qed
qed

lemma nobody_peeked:
  assumes "\<And>v. \<not> identifies E state a w v"
  obtains w' where "(peek_user E state a w :: ('e, _) res \<times> _) = (Ok None, w')" "w' \<in> {w, w\<lparr>w_io := Suc (w_io w)\<rparr>}"
proof -
  have "\<exists>q w'. (peek_user E state a w :: ('e, _) res \<times> _) = (Ok q, w') \<and> w' \<in> {w, w\<lparr>w_io := Suc (w_io w)\<rparr>}"
    by (cases a; cases "env_fault E (w_io w)")
      (auto simp: peek_user_def valid_user_for_access_token_def verify_access_token_def users_get_by_id_def
        io_simps sql_def query_def ok_or_def Let_def split: option.splits)
  moreover have "q = None" if p: "(peek_user E state a w :: ('e, _) res \<times> _) = (Ok q, w')" for q w'
  proof (rule ccontr)
    assume "q \<noteq> None"
    then obtain v where "(peek_user E state a w :: ('e, _) res \<times> _) = (Ok (Some v), w')" using p by auto
    then have "identifies E state a w v"
      unfolding peek_user_def valid_user_for_access_token_def verify_access_token_def users_get_by_id_def identifies_def
      by (auto elim!: bindM_OkE try_io_OkE dest!: ok_or_OkD sql_query_Ok found_row simp: active_user_Some utc_now_def
          split: option.splits sum.splits)
    with assms show False by blast
  qed
  ultimately show ?thesis using that by blast
qed

lemma read_result:
  obtains (answered) "sql E (query q) w = (Ok (q (env_time E (w_io w)) (w_db w)), w\<lparr>w_io := Suc (w_io w)\<rparr>)"
  | (failed) e where "sql E (query q) w = (Err e, w\<lparr>w_io := Suc (w_io w)\<rparr>)"
  by (cases rule: sql_effect [of "query q" E w]) (auto simp: query_def)

lemma only_revokedI:
  "w_io w \<le> n \<Longrightarrow> d = (w_db w)\<lparr>db_sessions := update_rows P (\<lambda>s. s\<lparr>ss_revoked_at := Some now\<rparr>) (db_sessions (w_db w))\<rparr> \<Longrightarrow>
   only_revoked w (w\<lparr>w_io := n, w_db := d\<rparr>)"
  unfolding only_revoked_def by blast

lemma nobody_renewed:
  assumes "\<And>v. \<not> renews E r w v"
  obtains w' where "(refreshed_session E state r :: ('e, _) act) w = (Ok None, w')" "only_revoked w w'"
proof (cases r)
  case None
  then show ?thesis using that [of w] only_revoked_calls [of w "w_io w"] by (simp add: refreshed_session_def)
next
  case (Some t)
  let ?find = "sessions_find_live E (env_sha256_hex E t)"
  note eval = refreshed_session_def Some redeem_refresh_token_def io_simps
  show ?thesis
  proof (cases rule: read_result [of E ?find w])
    case (failed e)
    then show ?thesis
      using that [of "w\<lparr>w_io := Suc (w_io w)\<rparr>"] only_revoked_calls [of w "Suc (w_io w)"] by (simp add: eval)
  next
    case answered
    let ?w1 = "w\<lparr>w_io := Suc (w_io w)\<rparr>"
    show ?thesis
    proof (cases "?find (env_time E (w_io w)) (w_db w)")
      case None
      then show ?thesis using that [of ?w1] only_revoked_calls [of w "Suc (w_io w)"] answered by (simp add: eval)
    next
      case found: (Some p)
      then obtain s where s: "s \<in> set (db_sessions (w_db w))"
          "same_text E (ss_refresh_token_hash s) (env_sha256_hex E t)" "ss_revoked_at s = None"
          "env_time E (w_io w) < ss_expires_at s" "p = (ss_id s, ss_user_id s)"
        by (auto simp: sessions_find_live_def dest!: find_row_SomeD)
      have nobody: "active_user (find_row (\<lambda>u. u_id u = ss_user_id s) (db_users (w_db w))) = None"
      proof (rule ccontr)
        assume "active_user (find_row (\<lambda>u. u_id u = ss_user_id s) (db_users (w_db w))) \<noteq> None"
        then obtain v where "find_row (\<lambda>u. u_id u = ss_user_id s) (db_users (w_db w)) = Some v" "u_is_active v"
          by (auto simp: active_user_Some)
        then have "renews E r w v" using s Some by (auto simp: renews_def dest: find_row_SomeD)
        with assms show False by blast
      qed
      let ?P = "\<lambda>r. ss_id r = ss_id s" and ?now = "env_time E (Suc (w_io w))"
      show ?thesis
      proof (cases rule: sql_effect [of "sessions_revoke_stmt (ss_id s)" E ?w1])
        case (took_effect x d)
        then have d: "d = (w_db w)\<lparr>db_sessions := update_rows ?P (\<lambda>r. r\<lparr>ss_revoked_at := Some ?now\<rparr>) (db_sessions (w_db w))\<rparr>"
          by (simp add: sessions_revoke_stmt_def)
        let ?w3 = "w\<lparr>w_io := Suc (Suc (Suc (w_io w))), w_db := d\<rparr>"
        have revoked: "only_revoked w ?w3" by (rule only_revokedI [OF _ d]) simp
        show ?thesis
        proof (cases rule: read_result [of E "\<lambda>now d. find_row (\<lambda>u. u_id u = ss_user_id s) (db_users d)"
              "?w1\<lparr>w_io := Suc (w_io ?w1), w_db := d\<rparr>"])
          case read: answered
          then show ?thesis
            using that [of ?w3] revoked answered found s(5) took_effect(2) nobody d
            by (simp add: eval users_get_by_id_def)
        next
          case (failed e)
          then show ?thesis
            using that [of ?w3] revoked answered found s(5) took_effect(2) d
            by (simp add: eval users_get_by_id_def)
        qed
      next
        case (refused e d)
        then show ?thesis by (simp add: sessions_revoke_stmt_def)
      next
        case not_sent
        then show ?thesis
          using that [of "w\<lparr>w_io := Suc (Suc (w_io w))\<rparr>"] only_revoked_calls [of w "Suc (Suc (w_io w))"]
            answered found s(5) by (simp add: eval)
      next
        case (unanswered x d)
        then have "only_revoked w (w\<lparr>w_io := Suc (Suc (w_io w)), w_db := d\<rparr>)"
          by (intro only_revokedI [of w _ d ?P ?now]) (simp_all add: sessions_revoke_stmt_def)
        then show ?thesis
          using that [of "w\<lparr>w_io := Suc (Suc (w_io w)), w_db := d\<rparr>"] answered found s(5) unanswered(3) by (simp add: eval)
      qed
    qed
  qed
qed

lemma only_revoked_after:
  assumes "w1 \<in> {w, w\<lparr>w_io := Suc (w_io w)\<rparr>}" "only_revoked w1 w'"
  shows "only_revoked w w'"
proof (cases "w1 = w")
  case False
  then have w1: "w1 = w\<lparr>w_io := Suc (w_io w)\<rparr>" using assms(1) by simp
  obtain n P now where "w' = w1\<lparr>w_io := n, w_db := (w_db w1)\<lparr>db_sessions :=
      update_rows P (\<lambda>s. s\<lparr>ss_revoked_at := Some now\<rparr>) (db_sessions (w_db w1))\<rparr>\<rparr>" "w_io w1 \<le> n"
    using assms(2) unfolding only_revoked_def by blast
  then show ?thesis unfolding w1 by (simp add: only_revokedI)
qed (use assms(2) in simp)

lemma renews_before: "renews E r w1 v \<Longrightarrow> w_db w1 = w_db w \<Longrightarrow> w_io w \<le> w_io w1 \<Longrightarrow> renews E r w v"
  unfolding renews_def by (metis order_trans)

lemma nobody_signed_in:
  assumes "\<And>v. \<not> identifies E state a w v" "\<And>v. \<not> renews E r w v"
  obtains w' where "session_user E state a r w = (Ok None, w')" "only_revoked w w'"
proof -
  obtain w1 where w1: "(peek_user E state a w :: (ApiError, _) res \<times> _) = (Ok None, w1)"
      "w1 \<in> {w, w\<lparr>w_io := Suc (w_io w)\<rparr>}"
    by (rule nobody_peeked [OF assms(1)])
  then have "\<not> renews E r w1 v" for v
    using assms(2) [of v] renews_before [of E r w1 v w] by auto
  then obtain w' where w': "(refreshed_session E state r :: (ApiError, _) act) w1 = (Ok None, w')" "only_revoked w1 w'"
    by (rule nobody_renewed)
  then show ?thesis
    using that [of w'] w1 only_revoked_after [OF w1(2) w'(2)] by (simp add: session_user_def bindM_apply)
qed

text \<open>C31: without an identity nothing protected happens. When the bearer token is missing, does not
  verify, or belongs to no user who is active in the database, every protected route of the API
  answers 401 (500 when the database fails), and nothing at all happened but one call of
  the database. When neither the access cookie verifies for an active user nor the refresh
  cookie is the token of a live session of an active user, every page behind the middleware answers
  with the sign-in page and does not run; all that can have changed is that a
  session was revoked.\<close>

theorem protected_requests_need_identity:
  assumes "\<And>v. \<not> identifies E (st_state st) b w v"
    and "\<And>v. \<not> identifies E (st_state st) a w v" "\<And>v. \<not> renews E r w v"
  shows "(\<forall>req \<in> range (MemberApi b) \<union> range (AdminApi b). \<exists>e w'. http_serve E st req w = Some (Failure e, w') \<and>
      e \<in> {Unauthorized, Internal} \<and> (e = Internal \<longrightarrow> env_fault E (w_io w) \<noteq> NoFault) \<and>
      w' \<in> {w, w\<lparr>w_io := Suc (w_io w)\<rparr>}) \<and>
    (\<forall>req \<in> range (MemberPage a r path) \<union> range (AdminPage a r path). \<exists>w'.
      http_serve E st req w = Some (SignInFirst (''/login?next='' @ urlencoding_encode path), w') \<and> only_revoked w w')"
proof -
  obtain e w1 where e: "from_request_parts E (st_state st) b w = (Err e, w1)" "e \<in> {Unauthorized, Internal}"
      "w1 \<in> {w, w\<lparr>w_io := Suc (w_io w)\<rparr>}" "e = Internal \<longrightarrow> env_fault E (w_io w) \<noteq> NoFault"
    by (rule extractor_refuses [OF assms(1)])
  then have failed: "fst (from_request_parts E (st_state st) b w) = Err e" by simp
  obtain w2 where s: "session_user E (st_state st) a r w = (Ok None, w2)" "only_revoked w w2"
    by (rule nobody_signed_in [OF assms(2,3)])
  show ?thesis
    using api_without_identity [OF failed] e s by (auto simp: with_session_def)
qed

section \<open>A deactivated account\<close>

text \<open>A pair of tokens is somebody's: the access token carries their id and role, the refresh token
  opens a live session of theirs.\<close>

definition tokens_of :: "env \<Rightarrow> AppState \<Rightarrow> User \<Rightarrow> string \<Rightarrow> string \<Rightarrow> world \<Rightarrow> bool" where
  "tokens_of E state v a r w \<longleftrightarrow>
     (\<exists>claims. env_jwt_encode E (ac_jwt_signing_secret (as_config state)) claims = Some a \<and>
        cl_sub claims = u_id v \<and> cl_role claims = u_role v) \<and>
     (\<exists>s \<in> set (db_sessions (w_db w)). ss_refresh_token_hash s = env_sha256_hex E r \<and>
        ss_user_id s = u_id v \<and> ss_revoked_at s = None)"

lemma issued_tokens:
  assumes "issue_token_pair E state v w = (Ok (a, r), w')"
  shows "tokens_of E state v a r w'"
proof -
  obtain w1 where a: "issue_access_token E (as_config state) v w = (Ok a, w1)"
    and r: "create_session E (as_config state) (u_id v) None None w1 = (Ok r, w')"
    using assms by (auto simp: issue_token_pair_def elim!: bindM_OkE)
  obtain expires where "env_jwt_encode E (ac_jwt_signing_secret (as_config state))
      \<lparr>cl_sub = u_id v, cl_role = u_role v, cl_exp = env_unix E expires, cl_iat = env_unix E (env_time E (w_io w))\<rparr> = Some a"
    using a by (auto simp: issue_access_token_def utc_now_def elim!: bindM_OkE dest!: ok_or_OkD split: option.splits)
  then have "\<exists>claims. env_jwt_encode E (ac_jwt_signing_secret (as_config state)) claims = Some a \<and>
      cl_sub claims = u_id v \<and> cl_role claims = u_role v" 
    by (intro conjI exI [of _ "\<lparr>cl_sub = u_id v, cl_role = u_role v, cl_exp = env_unix E expires,
      cl_iat = env_unix E (env_time E (w_io w))\<rparr>"]) simp_all
  then show ?thesis using r by (auto simp: tokens_of_def elim!: create_session_OkE)
qed

lemma token_response_tokens:
  "token_response E state v w = (Ok t, w') \<Longrightarrow>
   tokens_of E state v (tr_access_token t) (tr_refresh_token t) w' \<and> tr_user t = user_profile_from v"
  by (auto simp: token_response_def elim!: bindM_OkE dest!: issued_tokens)

lemma found_active:
  assumes "users_get_by_id E i w = (Ok r, w')"
  shows "\<forall>v. active_user r = Some v \<longrightarrow> v \<in> set (db_users (w_db w)) \<and> u_is_active v"
  using assms by (auto simp: users_get_by_id_def active_user_Some dest!: sql_query_Ok found_row)

lemma redeem_handoff_code_db: "redeem_handoff_code E code w = (r, w') \<Longrightarrow> w_db w' = w_db w"
  by (auto simp: redeem_handoff_code_def Let_def split: option.splits if_splits)

lemma authenticated:
  assumes "authenticate_local E email pw w = (Ok v, w')"
  shows "v \<in> set (db_users (w_db w)) \<and> u_is_active v"
  using assms by (auto simp: authenticate_local_def users_get_by_email_def elim!: bindM_OkE
      dest!: ok_or_OkD sql_query_Ok found_row split: if_splits option.splits)

lemma refreshed_session_tokens:
  assumes "refreshed_session E state cookie w = (Ok (Some (v, a, r)), w')"
  shows "tokens_of E state v a r w'"
  using assms unfolding refreshed_session_def
  by (auto elim!: bindM_OkE try_io_OkE dest!: issued_tokens split: option.splits sum.splits prod.splits)

text \<open>Every way in, with the tokens it hands out: the two endpoints of the API, single sign-on's
  endpoint, the two sign-in pages and the renewal of a session by its refresh cookie.\<close>

inductive signs_in :: "env \<Rightarrow> AppState \<Rightarrow> world \<Rightarrow> string \<Rightarrow> string \<Rightarrow> world \<Rightarrow> bool"
  for E :: env and state :: AppState and w :: world where
  "login E state email pw w = (Ok t, w') \<Longrightarrow> signs_in E state w (tr_access_token t) (tr_refresh_token t) w'"
| "refresh E state tok w = (Ok t, w') \<Longrightarrow> signs_in E state w (tr_access_token t) (tr_refresh_token t) w'"
| "sso_token E state code w = (Ok t, w') \<Longrightarrow> signs_in E state w (tr_access_token t) (tr_refresh_token t) w'"
| "(submit_login E state email pw nxt :: (ApiError, _) act) w = (Ok (target, set_session_cookies state a r), w') \<Longrightarrow>
     signs_in E state w a r w'"
| "(sso_complete E state code nxt :: (ApiError, _) act) w = (Ok (target, set_session_cookies state a r), w') \<Longrightarrow>
     signs_in E state w a r w'"
| "session_user E state access cookie w = (Ok (Some (v, set_session_cookies state a r)), w') \<Longrightarrow>
     signs_in E state w a r w'"

lemma same_cookies:
  "set_session_cookies state a r = set_session_cookies state a' r' \<longleftrightarrow> a = a' \<and> r = r'"
  "[] \<noteq> set_session_cookies state a r" "set_session_cookies state a r \<noteq> []"
  by (auto simp: set_session_cookies_def push_cookie_def)

lemma signs_in_active:
  assumes "signs_in E state w a r w'"
  shows "\<exists>v \<in> set (db_users (w_db w)). u_is_active v \<and> tokens_of E state v a r w'"
  using assms
proof cases
  case (1 email pw t)
  then show ?thesis by (auto intro!: bexI simp: login_def elim!: bindM_OkE dest!: authenticated token_response_tokens)
next
  case (2 tok t)
  then show ?thesis
    by (auto intro!: bexI simp: refresh_def elim!: bindM_OkE dest!: ok_or_OkD redeem_refresh_token_users found_active token_response_tokens)
next
  case (3 code t)
  then show ?thesis
    by (auto intro!: bexI simp: sso_token_def elim!: bindM_OkE dest!: ok_or_OkD redeem_handoff_code_db found_active token_response_tokens)
next
  case (4 email pw nxt target)
  then show ?thesis
    by (auto intro!: bexI simp: submit_login_def Let_def same_cookies elim!: bindM_OkE try_io_OkE dest!: authenticated issued_tokens
        split: sum.splits prod.splits)
next
  case (5 code nxt target)
  then have "\<exists>i w1 f w2 v. redeem_handoff_code E code w = (Ok i, w1) \<and> users_get_by_id E i w1 = (Ok f, w2) \<and>
      active_user f = Some v \<and> issue_token_pair E state v w2 = (Ok (a, r), w')"
    by (auto simp: sso_complete_def Let_def same_cookies elim!: bindM_OkE try_io_OkE
        split: sum.splits prod.splits option.splits if_splits)
  then show ?thesis using redeem_handoff_code_db found_active issued_tokens by metis
next
  case (6 access cookie v)
  then obtain w1 where "w_db w1 = w_db w" "(refreshed_session E state cookie :: (ApiError, _) act) w1 = (Ok (Some (v, a, r)), w')"
    by (auto simp: session_user_def same_cookies elim!: bindM_OkE dest!: peek_user_db split: option.splits prod.splits)
  then show ?thesis using refreshed_session_active refreshed_session_tokens by metis
qed

text \<open>C23: a deactivated account gets in nowhere. No bearer token, no access cookie and no refresh cookie
  makes the server act for it, and no password, refresh token, single sign-on code or cookie makes it
  hand out tokens for it, even when these were issued before and have not expired: whatever
  tokens any of the ways to sign in returns or sets as cookies belong to another user, one
  who is active in the database; their access token carries that user's id and their refresh
  token opens a session of that user.\<close>

theorem deactivated_locked_out:
  assumes "db_wf E (w_db w)" "u \<in> set (db_users (w_db w))" "\<not> u_is_active u"
  shows "(\<forall>bearer v w'. from_request_parts E state bearer w = (Ok v, w') \<longrightarrow> u_id v \<noteq> u_id u) \<and>
    (\<forall>access cookie v c w'. session_user E state access cookie w = (Ok (Some (v, c)), w') \<longrightarrow> u_id v \<noteq> u_id u) \<and>
    (\<forall>a r w'. signs_in E state w a r w' \<longrightarrow>
      (\<exists>v \<in> set (db_users (w_db w)). u_is_active v \<and> u_id v \<noteq> u_id u \<and> tokens_of E state v a r w'))"
proof (intro conjI allI impI)
  note other = inactive_not_returned [OF assms]
  show "u_id v \<noteq> u_id u" if "from_request_parts E state bearer w = (Ok v, w')" for bearer v w'
    using that by (elim from_request_parts_OkE) (metis other find_row_SomeD)
  show "u_id v \<noteq> u_id u" if "session_user E state access cookie w = (Ok (Some (v, c)), w')" for access cookie v c w'
    using session_user_active [OF that] other by blast
  show "\<exists>v \<in> set (db_users (w_db w)). u_is_active v \<and> u_id v \<noteq> u_id u \<and> tokens_of E state v a r w'"
    if "signs_in E state w a r w'" for a r w'
    using signs_in_active [OF that] other by blast
qed

theorem deactivated_locked_out_witness:
  "(\<nexists>t w'. login E0 sample_state ''m@x'' ''pw'' inactive_world = (Ok t, w') \<and>
      (\<forall>s \<in> set (db_sessions (w_db w')). ss_user_id s = 1)) \<and>
   (\<nexists>v c w'. session_user E0 sample_state (Some ''1s'') None inactive_world = (Ok (Some (v, c)), w') \<and> u_id v = 1)"
proof -
  let ?u = "sample_manager\<lparr>u_is_active := False\<rparr>"
  have "?u \<in> set (db_users (w_db inactive_world))" "\<not> u_is_active ?u" and one: "u_id ?u = 1"
    by (simp_all add: inactive_world_def sample_defs)
  note locked = deactivated_locked_out [OF inactive_world_wf this(1,2), of sample_state, unfolded one]
  have "\<nexists>t w'. login E0 sample_state ''m@x'' ''pw'' inactive_world = (Ok t, w') \<and>
      (\<forall>s \<in> set (db_sessions (w_db w')). ss_user_id s = 1)"
    using locked by (fastforce simp: tokens_of_def dest: signs_in.intros(1))
  then show ?thesis using locked by blast
qed

theorem protected_requests_need_identity_witness:
  "(\<exists>e w'. http_serve E0 sample_site (AdminApi (Some ''1s'') (DeactivateUser 2)) inactive_world = Some (Failure e, w') \<and>
      e \<in> {Unauthorized, Internal}) \<and>
   (\<exists>w'. http_serve E0 sample_site (AdminPage (Some ''1s'') None ''/admin/users'' UsersPage) inactive_world =
     Some (SignInFirst (''/login?next='' @ urlencoding_encode ''/admin/users''), w') \<and> only_revoked inactive_world w')"
proof -
  have "\<not> identifies E0 (st_state sample_site) (Some ''1s'') inactive_world v" for v
    by (auto simp: identifies_def inactive_world_def sample_defs sample_env_def)
  moreover have "\<not> renews E0 None inactive_world v" for v by (simp add: renews_def)
  ultimately show ?thesis
    using protected_requests_need_identity [of E0 sample_site "Some ''1s''" inactive_world "Some ''1s''" None "''/admin/users''"]
    by blast
qed

end
