(* ===== verification/No_Panic.thy ===== *)
theory No_Panic
  imports Server
begin

text \<open>
  Where the server can panic, and that it does not otherwise. Besides running out of memory the
  handlers can unwind at four places, all additions to the present: the expiry of an access token,
  of a refresh token and of a reset token, and the deadline an approval step gives
  (chrono and \<^verbatim>\<open>std::time\<close> refuse sums they cannot represent). \<open>calm\<close> says that an action does not panic
  from any state, with one rule per combinator, like \<open>keeps\<close> of Prelude; a run of the
  orchestrator is calm when the deadlines of the stored workflows can be added.

  Shown: when the sums can be represented, no handler and no round of the poller panics.
\<close>

section \<open>Actions that do not panic\<close>

named_theorems calm_intros

definition calm :: "('s, 'e, 'a) io \<Rightarrow> bool" where
  "calm m \<longleftrightarrow> (\<forall>w. fst (m w) \<noteq> Panic)"

lemma calmD: "calm m \<Longrightarrow> m w = (r, w') \<Longrightarrow> r \<noteq> Panic"
  by (auto simp: calm_def dest: spec [of _ w])

lemma calm_return [calm_intros]: "calm (return x)"
  by (simp add: calm_def)

lemma calm_fail [calm_intros]: "calm (fail e)"
  by (simp add: calm_def)

lemma calm_bindM [calm_intros]:
  assumes "calm m" "\<And>x. calm (f x)"
  shows "calm (bindM m f)"
  unfolding calm_def
proof
  fix w
  obtain r w' where m: "m w = (r, w')" by (cases "m w")
  show "fst (bindM m f w) \<noteq> Panic"
    using calmD [OF assms(1) m] m assms(2) by (cases r) (simp_all add: bindM_apply calm_def)
qed

lemma calm_map_err [calm_intros]: "calm m \<Longrightarrow> calm (map_err g m)"
  by (auto simp: calm_def map_err_def split: prod.split res.split) (metis fst_conv)

lemma calm_try_io [calm_intros]: "calm m \<Longrightarrow> calm (try_io m)"
  by (auto simp: calm_def try_io_def split: prod.split res.split) (metis fst_conv)

lemma calm_ok_or [calm_intros]: "calm (ok_or e x)"
  by (cases x) (auto intro: calm_intros)

lemma calm_lift_sum [calm_intros]: "calm (lift_sum x)"
  by (cases x) (auto intro: calm_intros)

lemma calm_guardM [calm_intros]: "calm (guardM b e)"
  by (cases b) (auto intro: calm_intros)

lemma calm_if [calm_intros]: "calm m \<Longrightarrow> calm n \<Longrightarrow> calm (if b then m else n)"
  by simp

lemma calm_case_option [calm_intros]:
  "calm m \<Longrightarrow> (\<And>y. calm (f y)) \<Longrightarrow> calm (case x of None \<Rightarrow> m | Some y \<Rightarrow> f y)"
  by (cases x) auto

lemma calm_case_sum [calm_intros]:
  "(\<And>e. calm (f e)) \<Longrightarrow> (\<And>y. calm (g y)) \<Longrightarrow> calm (case x of Inl e \<Rightarrow> f e | Inr y \<Rightarrow> g y)"
  by (cases x) auto

lemma calm_case_prod [calm_intros]: "(\<And>a b. calm (f a b)) \<Longrightarrow> calm (case x of (a, b) \<Rightarrow> f a b)"
  by (cases x) auto

lemma calm_let [calm_intros]: "calm (f x) \<Longrightarrow> calm (let y = x in f y)"
  by simp

lemma calm_mapM [calm_intros]: "(\<And>x. calm (f x)) \<Longrightarrow> calm (mapM f xs)"
  by (induction xs) (auto intro!: calm_intros)

section \<open>Calls of the outside world\<close>

lemma calm_calls [calm_intros]:
  "calm (sql E s)" "calm (new_uuid E)" "calm (new_token E)" "calm (utc_now E)" "calm (http_send E rq)"
  "calm (smtp_send E tr m)" "calm (random_bytes E n)" "calm (instant_now E)"
  by (auto simp: calm_def new_uuid_def new_token_def utc_now_def http_send_def smtp_send_def random_bytes_def
      instant_now_def split: sum.split) (metis prod.collapse sql_not_panic)

lemma calm_fs [calm_intros]:
  "calm (fs_create_dir_all E p)" "calm (fs_write E p bytes)" "calm (fs_remove_file E p)" "calm (fs_read E p)"
  by (auto simp: calm_def fs_defs Let_def split: option.split)

lemma calm_dispatch [calm_intros]: "calm (connector_dispatch E c p)"
  by (simp add: calm_def registered.dispatch_no_panic)

lemma calm_read_ops [calm_intros]:
  "calm (departments_get_by_id E i)" "calm (departments_list E)" "calm (users_get_by_id E i)"
  "calm (users_get_by_email E s)" "calm (users_get_by_external_idp_subject E s)" "calm (users_list E b)"
  "calm (users_list_active_by_role_in_department E r i)" "calm (definitions_get_by_id E i)"
  "calm (definitions_list E b)" "calm (catalog_get_by_id E i)" "calm (catalog_get_by_slug E s)"
  "calm (catalog_list E b)" "calm (instances_get_by_id E i)" "calm (instances_list_for_requester E i)"
  "calm (instances_list_awaiting_approval E)" "calm (approvals_get_by_id E i)"
  "calm (approvals_list_pending_for_approver E i)" "calm (approvals_list_expired E)"
  "calm (tickets_get_by_id E i)" "calm (tickets_get_by_instance_id E i)"
  "calm (tickets_list_pending_dispatch E)" "calm (audit_list E p n)" "calm (audit_count E)"
  "calm (org_settings_get E)"
  unfolding read_op_defs by (intro calm_intros)+

lemma calm_write_ops [calm_intros]:
  "calm (departments_create E nd)" "calm (departments_update E i ud)" "calm (departments_set_logo_url E i url)"
  "calm (departments_delete E i)" "calm (users_create E nu h)" "calm (users_update E i uu)"
  "calm (users_link_external_idp_subject E i sub)" "calm (users_set_password_hash E i ph)"
  "calm (users_deactivate E i)" "calm (definitions_create E nw u)" "calm (definitions_set_published E i pub)"
  "calm (catalog_create E ni u)" "calm (catalog_update E i ui)" "calm (catalog_deactivate E i)"
  "calm (instances_create E a b c s)" "calm (save_progress E i s j st)" "calm (approvals_create E a s b x)"
  "calm (approvals_decide E i ast cm)" "calm (tickets_create E a ts j)" "calm (tickets_mark_sent E i xid xu)"
  "calm (tickets_mark_failed E i err)" "calm (tickets_set_dispatch_status E i ds)" "calm (audit_record E entry)"
  "calm (org_settings_seed_default E an al)" "calm (org_settings_update E uos)" "calm (org_settings_set_logo_url E url)"
  unfolding write_op_defs by (intro calm_intros)+

lemma calm_mail [calm_intros]: "calm (send_plain_text E mailer r s b)" "calm (notify_new_approval E n ctx)"
  unfolding send_plain_text_def Let_def
  by (intro calm_intros) (cases n; simp add: smtp_notify_def logging_notify_def send_plain_text_def Let_def; intro calm_intros)

section \<open>The sums that have to fit\<close>

text \<open>At every moment the clock shows, the lifetimes of tokens can be added.\<close>

definition lifetimes_fit :: "env \<Rightarrow> AppState \<Rightarrow> bool" where
  "lifetimes_fit E state \<longleftrightarrow>
     (\<forall>n. env_add_std E (env_time E n) (ac_access_token_ttl (as_config state)) \<noteq> None \<and>
        env_add_std E (env_time E n) (ac_refresh_token_ttl (as_config state)) \<noteq> None \<and>
        env_add_seconds E (env_time E n) (PASSWORD_RESET_TTL_MINUTES * 60) \<noteq> None)"

text \<open>And so can the deadline of every approval step of every stored workflow.\<close>

fun deadline_fits :: "env \<Rightarrow> i64 option \<Rightarrow> bool" where
  "deadline_fits E None \<longleftrightarrow> True"
| "deadline_fits E (Some secs) \<longleftrightarrow> (\<forall>n. env_add_seconds E (env_time E n) secs \<noteq> None)"

definition graph_fits :: "env \<Rightarrow> WorkflowGraph \<Rightarrow> bool" where
  "graph_fits E graph \<longleftrightarrow> (\<forall>s \<in> set (g_steps graph). \<forall>res a r t.
     s_kind s = WaitForApproval res a r t \<longrightarrow> deadline_fits E t)"

definition deadlines_fit :: "env \<Rightarrow> db \<Rightarrow> bool" where
  "deadlines_fit E d \<longleftrightarrow>
     (\<forall>row \<in> set (db_definitions d). \<forall>m. row_into_model E row = Inr m \<longrightarrow> graph_fits E (wd_graph m))"

lemma calm_at_now: "(\<And>n. calm (f (env_time E n))) \<Longrightarrow> calm (bindM (utc_now E) f)"
  by (simp add: calm_def bindM_apply utc_now_def)

lemma calm_sum: "t \<noteq> None \<Longrightarrow> (\<And>y. calm (f y)) \<Longrightarrow> calm (case t of None \<Rightarrow> panic | Some y \<Rightarrow> f y)"
  by auto

section \<open>Tokens\<close>

lemma calm_tokens:
  assumes "lifetimes_fit E state"
  shows "calm (issue_access_token E (as_config state) user)"
    "calm (create_session E (as_config state) u ua ip)" "calm (create_password_reset_token E u)"
    "calm (issue_token_pair E state user)"
proof -
  have fit: "env_add_std E (env_time E n) (ac_access_token_ttl (as_config state)) \<noteq> None"
    "env_add_std E (env_time E n) (ac_refresh_token_ttl (as_config state)) \<noteq> None"
    "env_add_seconds E (env_time E n) (PASSWORD_RESET_TTL_MINUTES * 60) \<noteq> None" for n
    using assms by (simp_all add: lifetimes_fit_def)
  note steps = calm_at_now calm_sum fit calm_bindM calm_calls calm_map_err calm_ok_or calm_return
  show access: "calm (issue_access_token E (as_config state) user)"
    unfolding issue_access_token_def by (intro steps)
  show session: "calm (create_session E (as_config state) u ua ip)" for u ua ip
    unfolding create_session_def Let_def by (intro steps)
  show "calm (create_password_reset_token E u)"
    unfolding create_password_reset_token_def Let_def by (intro steps)
  show "calm (issue_token_pair E state user)"
    unfolding issue_token_pair_def by (intro calm_intros access session)
qed

lemma calm_auth [calm_intros]:
  "calm (hash_password E pw)" "calm (authenticate_local E email pw)" "calm (verify_access_token E config tok)"
  "calm (require_role user roles)" "calm (from_request_parts E state b)" "calm (redeem_refresh_token E tok)"
  "calm (revoke_all_sessions E u)" "calm (redeem_password_reset_token E tok)"
  unfolding auth_op_defs by (intro calm_intros)+

lemma calm_reset_mail:
  "lifetimes_fit E state \<Longrightarrow> calm (send_password_reset_email E mailer email)"
  unfolding send_password_reset_email_def by (intro calm_intros calm_tokens)

lemma calm_uploads [calm_intros]:
  "calm (delete_logo E dir url)" "calm (save_logo E dir subdir slot ct bytes url)" "calm (serve E dir path)"
  unfolding delete_logo_def save_logo_def serve_def Let_def by (intro calm_intros)+

section \<open>Signing in\<close>

lemma calm_put [calm_intros]: "calm (\<lambda>w. (Ok (g w), f w))"
  by (simp add: calm_def)

lemma calm_sso_maps [calm_intros]:
  "calm (add_pending_login E s v n)" "calm (cached_jwk E kid)" "calm (take_pending_login E s)"
  "calm (redeem_handoff_code E code)"
  by (auto simp: calm_def add_pending_login_def cached_jwk_def take_pending_login_def redeem_handoff_code_def Let_def
      split: option.split)

lemma calm_sso [calm_intros]:
  "calm (sso_login E state)" "calm (provision_or_link_user E identity)" "calm (sso_callback E state cd sp err)"
  unfolding sso_login_def begin_login_def random_token_def provision_or_link_user_def sso_callback_def
    complete_login_def validate_id_token_def signing_key_def from_rsa_components_def refresh_jwks_def
    issue_handoff_code_def Let_def
  by (intro calm_intros)+

lemma calm_signing_in:
  assumes "lifetimes_fit E state"
  shows "calm (login E state email pw)" "calm (register E state email name pw)" "calm (refresh E state tok)"
    "calm (logout E tok)" "calm (request_password_reset E state email)" "calm (confirm_password_reset E tok pw)"
    "calm (sso_token E state code)"
  unfolding token_response_def login_def register_def refresh_def logout_def request_password_reset_def
    confirm_password_reset_def sso_token_def
  by (intro calm_intros calm_tokens [OF assms] calm_reset_mail [OF assms])+

lemma calm_layout [calm_intros]: "calm (layout_load E user nav)"
  unfolding layout_load_def by (intro calm_intros)

lemma calm_sign_in_pages:
  assumes "lifetimes_fit E state"
  shows "calm (show_login E state c nxt err reset)" "calm (submit_login E state email pw nxt)"
    "calm (sso_complete E state code nxt)" "calm (web_logout E tok')" "calm (show_forgot_password E state)"
    "calm (submit_forgot_password E state email)" "calm (show_reset_password E tok'')"
    "calm (submit_reset_password E tok pw)" "calm (session_user E state a r)"
  unfolding peek_user_def valid_user_for_access_token_def forgot_password_page_def show_login_def submit_login_def
    sso_complete_def web_logout_def show_forgot_password_def submit_forgot_password_def show_reset_password_def
    submit_reset_password_def session_user_def refreshed_session_def Let_def
  by (intro calm_intros calm_tokens [OF assms] calm_reset_mail [OF assms])+

section \<open>Reading and administration\<close>

lemma calm_routes [calm_intros]:
  "calm (me E state b)" "calm (departments_route_list E state b)" "calm (public_config E state)"
  "calm (catalog_route_list E state b inc)" "calm (instances_route_list_mine E state b)" "calm (get_one E state b i)"
  "calm (approvals_route_list_mine E state b)"
  "calm (list_users E state b inc)" "calm (create_user E state b nu)" "calm (update_user E state b i uu)"
  "calm (deactivate_user E state b i)" "calm (departments_route_create E state b nd)"
  "calm (departments_route_update E state b i ud)" "calm (departments_route_delete E state b i)"
  "calm (departments_route_upload_logo E state b i hs body)" "calm (departments_route_remove_logo E state b i)"
  "calm (update_settings E state b us)" "calm (settings_upload_logo E state b hs body)"
  "calm (settings_remove_logo E state b)" "calm (catalog_route_create E state b ni)"
  "calm (catalog_route_update E state b i ui)" "calm (catalog_route_deactivate E state b i)"
  "calm (definitions_route_list E state b pub)" "calm (definitions_route_create E state b nw)"
  "calm (publish E state b i)" "calm (unpublish E state b i)" "calm (list_audit_log E state b p n)"
  unfolding api_route_defs Let_def by (intro calm_intros)+

lemma calm_seed [calm_intros]: "calm (seed_run E items u)"
proof -
  have "build_graph p qs \<noteq> None" for p qs
    using pattern_steps_forward [of p qs] by (cases "pattern_steps p qs") (simp_all add: build_graph_def)
  then have one: "calm (seed_one E u k item)" for k item
    unfolding seed_one_def by (intro calm_sum calm_intros)
  have "calm (seed_loop E u slugs k items summary)" for slugs k summary
    by (induction items arbitrary: k summary) (auto intro!: calm_intros one)
  then show ?thesis unfolding seed_run_def by (intro calm_intros)
qed

lemma calm_audit_rows [calm_intros]: "calm (audit_rows E names entries)"
  by (induction entries arbitrary: names; simp only: audit_rows.simps actor_label_def Let_def; intro calm_intros) auto

lemma calm_admin_pages [calm_intros]:
  "calm (admin_audit_log E user p)" "calm (admin_settings_show E state user)"
  "calm (admin_settings_update E state user name allow tz)" "calm (admin_departments_list E user)"
  "calm (admin_departments_create E user name parent)" "calm (admin_departments_update E user i name parent)"
  "calm (admin_departments_delete E user i)" "calm (admin_catalog_list E seed user added skipped)"
  "calm (admin_catalog_create E seed user form)" "calm (admin_catalog_toggle E user i active)"
  "calm (admin_catalog_edit_form E user i)" "calm (admin_catalog_edit E user i form)" "calm (load_starter E seed user)"
  "calm (admin_users_list E user)" "calm (admin_users_create E user email name pw role)"
  "calm (admin_users_update E user i role dept mgr act)" "calm (admin_users_deactivate E user i)"
  "calm (admin_workflows_list E user)" "calm (admin_workflows_create E g2 m2 user wform)"
  "calm (admin_workflows_publish E user i)" "calm (admin_workflows_unpublish E user i)"
  unfolding admin_page_defs require_admin_def list_with_error_def edit_form_error_def form_role_def
    workflows_page_def workflow_form_error_def audit_user_action_def Let_def
  by (intro calm_intros)+

lemma calm_approval_rows [calm_intros]: "calm (approval_rows E pending)"
  by (induction pending; simp only: approval_rows.simps; intro calm_intros)

lemma calm_member_pages [calm_intros]:
  "calm (dashboard_show E user)" "calm (catalog_show E user)" "calm (requests_list_mine E user)"
  "calm (requests_show E user i)" "calm (approvals_list_mine E user)"
  unfolding dashboard_show_def catalog_show_def requests_list_mine_def requests_show_def approvals_list_mine_def
  by (intro calm_intros)+

lemma calm_static [calm_intros]: "calm health" "calm (style_css st)" "calm (workflow_builder_js st)"
  unfolding health_def style_css_def workflow_builder_js_def by (intro calm_intros)+

section \<open>Requests\<close>

fun outcome_fits :: "env \<Rightarrow> Outcome \<Rightarrow> bool" where
  "outcome_fits E (AwaitingApproval res t) \<longleftrightarrow> deadline_fits E t"
| "outcome_fits E _ \<longleftrightarrow> True"

lemma rests_fits: "rests_at graph s oc \<Longrightarrow> graph_fits E graph \<Longrightarrow> outcome_fits E oc"
  by (auto simp: rests_at_def graph_fits_def dest: graph_step_Some elim!: outcome_of.elims)

lemma auto_advance_fits: "auto_advance graph s answers = Inr (s', oc) \<Longrightarrow> graph_fits E graph \<Longrightarrow> outcome_fits E oc"
  by (auto simp: auto_advance_def reaches_def dest!: auto_loop_reaches intro: rests_fits)

lemma engine_fits:
  assumes "graph_fits E graph"
  shows "start graph = Inr (s, oc) \<Longrightarrow> outcome_fits E oc"
    "engine_submit_answer graph s0 answers k v = (Inr (s, oc), answers') \<Longrightarrow> outcome_fits E oc"
    "engine_resume_after_approval graph s0 answers dec = Inr (s, oc) \<Longrightarrow> outcome_fits E oc"
    "resume_after_ticket_dispatch graph s0 answers = Inr (s, oc) \<Longrightarrow> outcome_fits E oc"
  by (auto simp: start_def engine_submit_answer_def engine_resume_after_approval_def resume_after_ticket_dispatch_def
      Let_def intro: auto_advance_fits [OF _ assms] split: if_splits sum.splits StepKind.splits)

lemma calm_approvals [calm_intros]:
  "calm (resolve_approver_user_id E requester res)" "calm (catalog_item_name_for E i)" "calm (decide E i u dec c)"
  unfolding catalog_item_name_for_def decide_def by (cases res; simp; intro calm_intros) (intro calm_intros)+

lemma calm_create_for_instance:
  assumes "deadline_fits E t"
  shows "calm (create_for_instance E notifier i s requester res t)"
proof -
  have "calm (expiry_time E t)"
    using assms unfolding expiry_time_def
    by (cases t) (auto simp: calm_def bindM_apply utc_now_def split: option.split)
  then show ?thesis unfolding create_for_instance_def by (intro calm_intros)
qed

lemma calm_orchestrator [calm_intros]:
  "calm (dispatch_ticket E deps def i rid answers)" "calm (finish_with E i s answers st)"
  "calm (fail_instance E i s answers err)"
  unfolding dispatch_ticket_def finish_with_def fail_instance_def Let_def by (intro calm_intros)+

lemma calm_await_approval: "deadline_fits E t \<Longrightarrow> calm (await_approval E deps i rid answers s res t)"
  unfolding await_approval_def by (intro calm_intros calm_create_for_instance)

lemma apply_outcome_calm:
  assumes "graph_fits E (wd_graph definition)" "outcome_fits E oc"
    and "apply_outcome E deps definition i rid answers s oc w = Some (r, w')"
  shows "r \<noteq> Panic"
proof -
  let ?P = "\<lambda>E' deps' def' i' rid' answers' (s :: string) (oc :: Outcome) (w :: world)
      (rw :: (ApiError, WorkflowInstance) res \<times> world).
    graph_fits E' (wd_graph def') \<longrightarrow> outcome_fits E' oc \<longrightarrow> fst rw \<noteq> Panic"
  have "?P E deps definition i rid answers s oc w (r, w')"
  proof (rule apply_outcome.raw_induct [where P = ?P, OF _ assms(3)], intro impI)
    fix f E' deps' def' i' rid' answers' s oc w rw
    assume IH: "\<And>E' deps' def' i' rid' answers' s oc w rw.
        f E' deps' def' i' rid' answers' s oc w = Some rw \<Longrightarrow> ?P E' deps' def' i' rid' answers' s oc w rw"
      and fits: "graph_fits E' (wd_graph def')" "outcome_fits E' oc"
      and body: "(case oc of
        AwaitingAnswer _ \<Rightarrow> Some (finish_with E' i' s answers' InProgress w)
      | AwaitingApproval resolution timeout_seconds \<Rightarrow>
          Some (await_approval E' deps' i' rid' answers' s resolution timeout_seconds w)
      | ReadyToSubmitTicket \<Rightarrow>
          (case dispatch_ticket E' deps' def' i' rid' answers' w of
             (Ok _, w1) \<Rightarrow>
               (case resume_after_ticket_dispatch (wd_graph def') s answers' of
                  Inl e \<Rightarrow> Some (Err (api_of_engine e), w1)
                | Inr (next_step_id, next_outcome) \<Rightarrow>
                    f E' deps' def' i' rid' answers' next_step_id next_outcome w1)
           | (Err err, w1) \<Rightarrow> Some (fail_instance E' i' s answers' err w1)
           | (Panic, w1) \<Rightarrow> Some (Panic, w1))
      | Finished end_outcome \<Rightarrow>
          Some (finish_with E' i' s answers' (end_status end_outcome) w)) = Some rw"
    have quiet: "fst rw' \<noteq> Panic" if "calm m" "m w1 = rw'" for m :: "(ApiError, WorkflowInstance) act" and w1 rw'
      using that by (auto simp: calm_def)
    show "fst rw \<noteq> Panic"
    proof (cases oc)
      case (AwaitingAnswer k)
      then show ?thesis using body quiet [OF calm_orchestrator(2)] by auto
    next
      case (AwaitingApproval res t)
      then have "deadline_fits E' t" using fits(2) by simp
      from quiet [OF calm_await_approval [OF this]] show ?thesis using body AwaitingApproval by auto
    next
      case ReadyToSubmitTicket
      obtain q w1 where q: "dispatch_ticket E' deps' def' i' rid' answers' w = (q, w1)" by fastforce
      have "q \<noteq> Panic" using calm_orchestrator(1) q by (rule calmD)
      moreover have "fst rw \<noteq> Panic"
        if "resume_after_ticket_dispatch (wd_graph def') s answers' = Inr (s2, oc2)"
          "f E' deps' def' i' rid' answers' s2 oc2 w1 = Some rw" for s2 oc2
        using IH [OF that(2)] fits(1) engine_fits(4) [OF fits(1) that(1)] by simp
      ultimately show ?thesis
        using body ReadyToSubmitTicket q quiet [OF calm_orchestrator(3)]
        by (cases q) (auto split: sum.splits)
    next
      case (Finished eo)
      then show ?thesis using body quiet [OF calm_orchestrator(2)] by auto
    qed
  qed
  then show ?thesis using assms(1,2) by simp
qed

section \<open>Runs\<close>

text \<open>A definition read from the database, wherever a handler reads it.\<close>

lemma stored_fits:
  "deadlines_fit E d \<Longrightarrow> find_row P (db_definitions d) = Some row \<Longrightarrow> row_into_model E row = Inr m \<Longrightarrow>
   graph_fits E (wd_graph m)"
  by (auto simp: deadlines_fit_def dest: find_row_SomeD)

lemma then_run_calm:
  assumes "calm m" "\<And>x w1. m w = (Ok x, w1) \<Longrightarrow> f x w1 \<noteq> Some (Panic, w')"
  shows "then_run m f w \<noteq> Some (Panic, w')"
  using calmD [OF assms(1)] assms(2) by (auto simp: then_run_def split: prod.splits res.splits)

lemma start_instance_calm:
  assumes "deadlines_fit E (w_db w)"
  shows "start_instance E deps i user w \<noteq> Some (Panic, w')"
  unfolding start_instance_def
proof (rule then_run_calm, (intro calm_intros), clarify, goal_cases)
  case (1 m inst step_id outcome w1)
  then have "graph_fits E (wd_graph m) \<and> start (wd_graph m) = Inr (step_id, outcome)"
    using stored_fits [OF assms]
    by (auto elim!: bindM_OkE dest!: ok_or_OkD lift_sum_OkD catalog_get_OkD definitions_get_OkD split: if_splits)
  then show ?case using 1(2) apply_outcome_calm engine_fits(1) by blast
qed

lemma submit_answer_calm:
  assumes "deadlines_fit E (w_db w)"
  shows "submit_answer E deps i user key value w \<noteq> Some (Panic, w')"
  unfolding submit_answer_def Let_def
proof (rule then_run_calm, (intro calm_intros), clarify, goal_cases)
  case (1 m inst answers step_id outcome w1)
  then have "\<exists>s0 a0. graph_fits E (wd_graph m) \<and>
      engine_submit_answer (wd_graph m) s0 a0 key value = (Inr (step_id, outcome), answers)"
    using stored_fits [OF assms]
    by (auto elim!: bindM_OkE dest!: ok_or_OkD lift_sum_OkD instances_get_OkD definitions_get_OkD
        split: if_splits prod.splits) blast
  then show ?case using 1(2) apply_outcome_calm engine_fits(2) by blast
qed

lemma resume_after_approval_calm:
  assumes "deadlines_fit E (w_db w)"
  shows "resume_after_approval E deps i step decision w \<noteq> Some (Panic, w')"
  unfolding resume_after_approval_def Let_def
proof (rule then_run_calm, (intro calm_intros), clarify, goal_cases)
  case (1 m inst answers step_id outcome w1)
  then have "graph_fits E (wd_graph m) \<and>
      engine_resume_after_approval (wd_graph m) step answers decision = Inr (step_id, outcome)"
    using stored_fits [OF assms]
    by (auto elim!: bindM_OkE dest!: ok_or_OkD lift_sum_OkD instances_get_OkD definitions_get_OkD)
  then show ?case using 1(2) apply_outcome_calm engine_fits(3) by blast
qed

lemma deadlines_stmts [stmt_intros]:
  "stmt_keeps (deadlines_fit E) (instances_create_stmt i did cid u s)"
  "stmt_keeps (deadlines_fit E) (save_progress_stmt i s a st)"
  "stmt_keeps (deadlines_fit E) (approvals_create_stmt i inst s u x)"
  "stmt_keeps (deadlines_fit E) (approvals_decide_stmt i ast cm)"
  "stmt_keeps (deadlines_fit E) (tickets_create_stmt i inst t p)"
  "stmt_keeps (deadlines_fit E) (tickets_mark_sent_stmt i ext url)"
  "stmt_keeps (deadlines_fit E) (tickets_mark_failed_stmt i e)"
  "stmt_keeps (deadlines_fit E) (sessions_create_stmt E j u' h ua ip x')"
  "stmt_keeps (deadlines_fit E) (sessions_revoke_stmt j)"
  "stmt_keeps (deadlines_fit E) (sessions_revoke_all_stmt u')"
  by (auto simp: stmt_keeps_def stmt_defs insert_if_snd Let_def deadlines_fit_def)

interpretation deadlines: request_writes "deadlines_fit E" for E
  by unfold_locales (rule stmt_intros)+

interpretation deadlines_signing: session_writes E "deadlines_fit E" for E
  by unfold_locales (rule stmt_intros)+

lemma approvals_route_decide_calm:
  assumes "deadlines_fit E (w_db w)"
  shows "approvals_route_decide E deps user i decision comment w \<noteq> Some (Panic, w')"
  unfolding approvals_route_decide_def
proof (rule then_run_calm, (intro calm_intros))
  fix a w1 assume "map_err (api_of_approvals E) (decide E i (u_id user) decision comment) w = (Ok a, w1)"
  moreover have "keeps (\<lambda>w. deadlines_fit E (w_db w)) (map_err (api_of_approvals E) (decide E i (u_id user) decision comment))"
    by (rule keeps_map_err [OF deadlines.parts_keep(5)])
  ultimately have "deadlines_fit E (w_db w1)" using assms by (blast dest: keepsD')
  then show "resume_after_approval E deps (pa_workflow_instance_id a) (pa_step_id a) decision w1 \<noteq> Some (Panic, w')"
    by (rule resume_after_approval_calm)
qed

lemma handle_expired_calm:
  assumes "deadlines_fit E (w_db w)"
  shows "handle_expired E deps a w \<noteq> Some (Panic, w')"
  using resume_after_approval_calm [OF assms]
  by (auto simp: handle_expired_def split: option.splits prod.splits res.splits)

lemma expire_all_calm:
  "deadlines_fit E (w_db w) \<Longrightarrow> expire_all E (handle_expired E deps) expired w \<noteq> Some (Panic, w')"
proof (induction expired arbitrary: w)
  case (Cons a expired)
  obtain q w1 where q: "approvals_decide E (pa_id a) Expired (Some expiry_comment) w = (q, w1)" by fastforce
  have "calm (approvals_decide E (pa_id a) Expired (Some expiry_comment))" by (intro calm_intros)
  then have "q \<noteq> Panic" using q by (rule calmD)
  have w1: "deadlines_fit E (w_db w1)"
    by (rule keepsD' [OF deadlines.ops_keep(4) Cons.prems q])
  have w2: "deadlines_fit E (w_db w2)" if "handle_expired E deps a w1 = Some (q2, w2)" for q2 w2
    using ends_inD [OF deadlines.handle_expired_keeps w1 that] .
  show ?case
    using q \<open>q \<noteq> Panic\<close> Cons.IH [OF w1] Cons.IH [OF w2] handle_expired_calm [OF w1]
    by (auto simp: then_run_def split: res.splits option.splits prod.splits if_splits)
qed simp

lemma poll_once_calm:
  assumes "deadlines_fit E (w_db w)"
  shows "poll_once E (handle_expired E deps) w \<noteq> Some (Panic, w')"
  unfolding poll_once_def
proof (rule then_run_calm, (intro calm_intros))
  fix expired w1 assume e: "approvals_list_expired E w = (Ok expired, w1)"
  have "keeps (\<lambda>w. deadlines_fit E (w_db w)) (approvals_list_expired E)" by (intro keeps_intros)
  then have "deadlines_fit E (w_db w1)" using assms e by (rule keepsD')
  then show "expire_all E (handle_expired E deps) expired w1 \<noteq> Some (Panic, w')" by (rule expire_all_calm)
qed

section \<open>The server\<close>

lemma answer_of_Aborted [simp]: "answer_of r = Aborted \<longleftrightarrow> r = Panic"
  by (cases r) simp_all

lemma respond_calm: "calm m \<Longrightarrow> respond m w \<noteq> Some (Aborted, w')"
  by (auto simp: respond_def dest: calmD split: prod.splits)

lemma respond_run_calm: "(\<And>w'. m w \<noteq> Some (Panic, w')) \<Longrightarrow> respond_run m w \<noteq> Some (Aborted, w')"
  by (auto simp: respond_run_def)

lemma run_then_calm: "(\<And>w'. m w \<noteq> Some (Panic, w')) \<Longrightarrow> run_then m f w \<noteq> Some (Panic, w')"
  by (auto simp: run_then_def split: option.splits prod.splits res.splits)

lemma after_reading_calm:
  assumes "deadlines_fit E (w_db w)" "\<And>I. keeps_db I m" "calm m"
    and "\<And>x w1. deadlines_fit E (w_db w1) \<Longrightarrow> f x w1 \<noteq> Some (Panic, w')"
  shows "then_run m f w \<noteq> Some (Panic, w')"
proof (rule then_run_calm [OF assms(3)])
  fix x w1 assume m: "m w = (Ok x, w1)"
  have "deadlines_fit E (w_db w1)"
    using assms(2) [of "deadlines_fit E"] assms(1) m by (rule keepsD')
  then show "f x w1 \<noteq> Some (Panic, w')" by (rule assms(4))
qed

lemma serve_public_calm:
  assumes "lifetimes_fit E (st_state st)"
  shows "serve_public E st req w \<noteq> Some (Aborted, w')"
proof (cases req)
  case (Auth r)
  then show ?thesis by (cases r) (simp_all add: respond_calm calm_signing_in [OF assms])
next
  case (Sso r)
  then show ?thesis by (cases r) (simp_all add: respond_calm calm_signing_in [OF assms] calm_sso)
next
  case (SignIn r)
  then show ?thesis by (cases r) (simp_all add: respond_calm calm_sign_in_pages [OF assms])
qed (simp_all add: respond_calm calm_static calm_uploads calm_routes)

lemma serve_member_api_calm:
  assumes "deadlines_fit E (w_db w)"
  shows "serve_member_api E state b req w \<noteq> Some (Aborted, w')"
proof -
  have token: "\<And>I. keeps_db I (from_request_parts E state b)" by (intro keeps_intros)
  have after: "respond_run (then_run (from_request_parts E state b) f) w \<noteq> Some (Aborted, w')"
    if "\<And>u w1 w'. deadlines_fit E (w_db w1) \<Longrightarrow> f u w1 \<noteq> Some (Panic, w')"
    for f :: "User \<Rightarrow> (world, ApiError, WorkflowInstance) run"
    by (rule respond_run_calm, rule after_reading_calm [OF assms token calm_auth(5) that])
  show ?thesis
    by (cases req)
      (simp_all add: respond_calm calm_routes instances_route_start_def instances_route_submit_answer_def
        approvals_route_decide_as_def after start_instance_calm submit_answer_calm approvals_route_decide_calm)
qed

lemma requests_submit_answer_calm:
  assumes "deadlines_fit E (w_db w)"
  shows "requests_submit_answer E state user i key v w \<noteq> Some (Panic, w')"
  unfolding requests_submit_answer_def
  by (rule after_reading_calm [OF assms]; (intro keeps_intros calm_intros run_then_calm submit_answer_calm)?)

lemma item_detail_calm: "item_detail E user i w \<noteq> Some (Panic, w')"
  unfolding item_detail_def by (rule then_run_calm; (intro calm_intros)?) auto

lemma serve_member_page_calm:
  assumes "deadlines_fit E (w_db w)"
  shows "serve_member_page E state req user w \<noteq> Some (Aborted, w')"
proof (cases req)
  case (DecideForm i dec c)
  then show ?thesis
    by (cases "decision_of_form dec")
      (simp_all add: web_decide_def respond_run_calm run_then_calm approvals_route_decide_calm [OF assms] Let_def)
qed (simp_all add: respond_calm respond_run_calm calm_member_pages item_detail_calm start_request_def
    run_then_calm start_instance_calm [OF assms] requests_submit_answer_calm [OF assms])

lemma serve_admin_calm:
  "serve_admin_api E state b areq w \<noteq> Some (Aborted, w')" "serve_admin_page E st preq user w \<noteq> Some (Aborted, w')"
  by (cases areq; simp add: respond_calm calm_routes) (cases preq; simp add: respond_calm calm_admin_pages)

lemma with_session_calm:
  assumes "lifetimes_fit E state" "deadlines_fit E (w_db w)"
    and "\<And>user w1. deadlines_fit E (w_db w1) \<Longrightarrow> page user w1 \<noteq> Some (Aborted, w')"
  shows "with_session E state a r path page w \<noteq> Some (Aborted, w')"
proof -
  obtain q w1 where q: "session_user E state a r w = (q, w1)" by fastforce
  have "deadlines_fit E (w_db w1)"
    using deadlines_signing.session_user_keeps assms(2) q by (rule keepsD')
  moreover have "q \<noteq> Panic" using calm_sign_in_pages(9) [OF assms(1)] q by (rule calmD)
  ultimately show ?thesis
    using q assms(3) [of w1] by (cases q) (auto simp: with_session_def split: option.splits)
qed

lemma http_serve_calm:
  assumes "lifetimes_fit E (st_state st)" "deadlines_fit E (w_db w)"
  shows "http_serve E st req w \<noteq> Some (Aborted, w')"
  by (cases req)
    (simp_all add: serve_public_calm [OF assms(1)] serve_member_api_calm [OF assms(2)] serve_admin_calm
      with_session_calm [OF assms] serve_member_page_calm)

end
