(* ===== verification/Launch.thy ===== *)
theory Launch
  imports Server
begin

text \<open>
  The life of a deployment (\<^verbatim>\<open>src/crates/server/src/main.rs\<close>): the server is started, serves
  requests, stops between two of them and is started again on the same database, perhaps with
  another configuration. A database that has been migrated is not touched by connecting to it and running
  the migrations again; apart from that the two are arguments.

  Shown: the first start leaves the database ready for requests, and what Server shows of a run
  holds across restarts as long as no statement of the database fails (with one lost statement a
  completed request can become a rejected one, \<open>interrupted_approval\<close>); mail leaves the server
  unencrypted only when the configuration says so.
\<close>

section \<open>What starting changes\<close>

lemma same_requests_seed [stmt_intros]: "stmt_keeps (same_requests d0) (org_settings_seed_default_stmt name signup)"
  by (auto simp: stmt_keeps_def org_settings_seed_default_stmt_def same_requests_def split: option.splits)

lemma bootstrap_spares [keeps_intros]: "keeps_db (same_requests d0) (bootstrap_admin E config)"
  unfolding bootstrap_admin_def by (intro keeps_intros administration_spares.admin_ops_keep)

lemma auto_seed_spares [keeps_intros]: "keeps_db (same_requests d0) (auto_seed_catalog E items)"
  unfolding auto_seed_catalog_def by (intro keeps_intros administration_spares.seed_keeps)

lemma seed_default_spares [keeps_intros]: "keeps_db (same_requests d0) (org_settings_seed_default E name signup)"
  unfolding org_settings_seed_default_def by (intro keeps_intros stmt_intros)

lemma mailer_of_keeps [keeps_intros]: "keeps_db I (mailer_of E config)"
  unfolding mailer_of_def by (intro keeps_intros)

text \<open>Connecting to a migrated database leaves every table as it is.\<close>

definition migrated :: "(nat \<Rightarrow> string \<Rightarrow> (sqlx_error, unit) act) \<Rightarrow> (string, unit) act \<Rightarrow> bool" where
  "migrated connect migrate \<longleftrightarrow>
     (\<forall>n url w. w_db (snd (connect n url w)) = w_db w) \<and> (\<forall>w. w_db (snd (migrate w)) = w_db w)"

lemma migrated_keeps:
  "migrated connect migrate \<Longrightarrow> keeps_db I (connect_and_migrate connect migrate url)"
  unfolding connect_and_migrate_def by (intro keeps_intros) (simp_all add: keeps_def migrated_def)

lemma start_up_keeps:
  assumes "migrated connect migrate"
  shows "keeps_db ((db_step E)\<^sup>*\<^sup>* d0) (start_up E parse_addr vars connect migrate items)"
    "keeps_db (same_requests d0) (start_up E parse_addr vars connect migrate items)"
  unfolding start_up_def by (intro keeps_intros migrated_keeps [OF assms])+

lemma start_up_steps:
  assumes "migrated connect migrate" "start_up E parse_addr vars connect migrate items w = (r, w')"
  shows "(db_step E)\<^sup>*\<^sup>* (w_db w) (w_db w') \<and> same_requests (w_db w) (w_db w')"
  using keepsD' [OF start_up_keeps(1) [OF assms(1)] _ assms(2)] keepsD' [OF start_up_keeps(2) [OF assms(1)] _ assms(2)]
  by simp

text \<open>A start that succeeds leaves a settings row, the state it serves with and, on a database
  without requests, a server that has been set up.\<close>

lemma org_settings_seed_default_Ok:
  assumes "org_settings_seed_default E name signup w = (r, w')" "r = Ok ()"
  shows "db_org_settings (w_db w') \<noteq> None"
  using assms unfolding org_settings_seed_default_def
  by (auto elim!: sql_OkE simp: org_settings_seed_default_stmt_def split: option.splits)

lemma start_up_Ok:
  assumes "start_up E parse_addr vars connect migrate items w = (Ok state, w')"
  obtains config mailer w1 w2 where "from_env parse_addr vars = Inr config"
    "db_org_settings (w_db w1) \<noteq> None" "mailer_of E config w1 = (Ok mailer, w2)"
    "state = app_state config mailer" "w_db w' = w_db w2"
proof -
  from assms obtain config mailer w1 w0 w2 where "from_env parse_addr vars = Inr config"
    "org_settings_seed_default E (ac_bootstrap_app_name config) (ac_bootstrap_allow_local_signup config) w0 = (Ok (), w1)"
    "mailer_of E config w1 = (Ok mailer, w2)" "state = app_state config mailer"
    and sso: "(case ac_sso config of None \<Rightarrow> return () | Some sso_config \<Rightarrow> sso_service_new) w2 = (Ok () :: (startup_error, unit) res, w')"
    unfolding start_up_def by (auto elim!: bindM_OkE dest!: lift_sum_OkD)
  moreover have "w_db w' = w_db w2" using sso by (auto simp: sso_service_new_def split: option.splits)
  ultimately show thesis using that org_settings_seed_default_Ok by metis
qed

lemma first_start_sets_up:
  assumes "migrated connect migrate" "db_wf E (w_db w)" "db_instances (w_db w) = []" "db_approvals (w_db w) = []"
    and run: "start_up E parse_addr vars connect migrate items w = (Ok state, w')"
  shows "set_up E (w_db w')"
proof -
  obtain config mailer w1 w2 where w1: "db_org_settings (w_db w1) \<noteq> None" "mailer_of E config w1 = (Ok mailer, w2)"
    "w_db w' = w_db w2"
    using start_up_Ok [OF run] by metis
  have "w_db w' = w_db w1" using keepsD' [OF mailer_of_keeps [of "\<lambda>d. d = w_db w1"] _ w1(2)] w1(3) by simp
  then show ?thesis
    using start_up_steps [OF assms(1) run] assms(2-4) w1(1) db_steps_wf [of E "w_db w" "w_db w'"]
    by (auto simp: set_up_def same_requests_def)
qed

section \<open>The life of a deployment\<close>

inductive life_step ::
    "env \<Rightarrow> (nat \<Rightarrow> string \<Rightarrow> (sqlx_error, unit) act) \<Rightarrow> (string, unit) act \<Rightarrow> SeedItem list \<Rightarrow> world \<Rightarrow> world \<Rightarrow> bool"
    for E :: env and connect and migrate and items where
  started: "start_up E parse_addr vars connect migrate items w = (r, w') \<Longrightarrow> life_step E connect migrate items w w'"
| serving: "server_step E st w w' \<Longrightarrow> life_step E connect migrate items w w'"

lemma life_steps_inv:
  assumes "(life_step E connect migrate items)\<^sup>*\<^sup>* w w'" "fault_free E" "migrated connect migrate" "sys_inv E F (w_db w)"
  shows "sys_inv E F (w_db w')"
  using assms(1)
proof (induction rule: rtranclp_induct)
  case (step w1 w2)
  show ?case
    using step.hyps(2)
  proof (cases rule: life_step.cases)
    case (started parse_addr vars r)
    from start_up_steps [OF assms(3) this]
    have "sys_step E deps w1 w2" for deps
      by (intro step_admin) (auto simp: same_requests_def)
    then show ?thesis using assms(2) step.IH by (rule sys_step_inv)
  next
    case (serving st)
    then show ?thesis
      using sys_steps_inv [OF server_steps_sys [OF r_into_rtranclp] assms(2) step.IH] by blast
  qed
qed (rule assms(4))

lemma deployed_inv:
  assumes "fault_free E" "migrated connect migrate" "db_wf E (w_db w0)" "db_instances (w_db w0) = []"
    "db_approvals (w_db w0) = []" "start_up E parse_addr vars connect migrate items w0 = (Ok state, w1)"
    "(life_step E connect migrate items)\<^sup>*\<^sup>* w1 w"
  shows "sys_inv E {} (w_db w)"
  using life_steps_inv [OF assms(7,1,2) set_up_inv [OF first_start_sets_up [OF assms(2-6)]]] .

text \<open>C8: as long as every statement of the database succeeds and the handlers run one after the
  other, each to its end, the approvals match the requests: from the first start on a migrated, still
  unused database, through whatever requests the server is sent, in whatever order and mixed with
  the rounds of the expiry poller, and through any number of restarts, every pending approval belongs to a request that is awaiting approval
  and stands at exactly the step the approval was created for, and no request has two pending
  approvals. Both conditions are needed: the approval and the status of its request are written by
  separate statements outside a transaction, so a statement that fails in between leaves a
  pending approval to a request that is not waiting (\<open>interrupted_approval\<close> below), and handlers that
  overlap are not kept apart (\<open>answer_dispatched_twice\<close> in Interleaving).\<close>

theorem approvals_match_across_restarts:
  assumes "fault_free E" "migrated connect migrate" "db_wf E (w_db w0)" "db_instances (w_db w0) = []"
    "db_approvals (w_db w0) = []" "start_up E parse_addr vars connect migrate items w0 = (Ok state, w1)"
    "(life_step E connect migrate items)\<^sup>*\<^sup>* w1 w"
    and a: "a \<in> set (db_approvals (w_db w))" "pa_status a = Pending"
  shows "(\<exists>r \<in> set (db_instances (w_db w)). wi_id r = pa_workflow_instance_id a \<and>
      wi_status r = AwaitingApprovalStatus \<and> wi_current_step_id r = pa_step_id a) \<and>
    (\<forall>b \<in> set (db_approvals (w_db w)). pa_status b = Pending \<and>
      pa_workflow_instance_id b = pa_workflow_instance_id a \<longrightarrow> b = a)"
  using deployed_inv [OF assms(1-7)] a by (auto simp: sys_inv_def base_inv_def awaits_def one_pending_def)

text \<open>C9: as long as every statement of the database succeeds and the handlers run one after the
  other, each to its end, a request that has been completed, rejected, cancelled or has failed is
  frozen: no later HTTP request, no round of the poller and no restart alters any column of its row,
  and \<^verbatim>\<open>completed_at\<close> is set exactly for such requests. Both conditions are needed, since
  \<^verbatim>\<open>save_progress\<close> asks nothing of the row it writes: after a statement has failed, or by a handler that
  read the request before another closed it, a closed request is written again
  (\<open>interrupted_approval\<close> below).\<close>

theorem closed_requests_are_frozen:
  assumes "fault_free E" "migrated connect migrate" "db_wf E (w_db w0)" "db_instances (w_db w0) = []"
    "db_approvals (w_db w0) = []" "start_up E parse_addr vars connect migrate items w0 = (Ok state, w1)"
    "(life_step E connect migrate items)\<^sup>*\<^sup>* w1 w"
    and r: "r \<in> set (db_instances (w_db w))"
  shows "(wi_completed_at r \<noteq> None \<longleftrightarrow> is_terminal (wi_status r)) \<and>
    (is_terminal (wi_status r) \<longrightarrow>
      (\<forall>w'. (life_step E connect migrate items)\<^sup>*\<^sup>* w w' \<longrightarrow> r \<in> set (db_instances (w_db w'))))"
proof -
  have inv: "sys_inv E {} (w_db w)" by (rule deployed_inv [OF assms(1-7)])
  have "r \<in> set (db_instances (w_db w'))"
    if "is_terminal (wi_status r)" "(life_step E connect migrate items)\<^sup>*\<^sup>* w w'" for w'
  proof -
    have "sys_inv E {r} (w_db w)" using inv r that(1) by (simp add: sys_inv_def base_inv_def)
    from life_steps_inv [OF that(2) assms(1,2) this] show ?thesis by (simp add: sys_inv_def base_inv_def)
  qed
  then show ?thesis using inv r by (auto simp: sys_inv_def base_inv_def)
qed

section \<open>One lost statement\<close>

text \<open>The two invariants above rest on \<open>fault_free\<close>. The approval is created, and the status of its request
  set, by statements without a transaction around them, and a decision never asks what the status of
  the request is. Here one statement fails, the read of the approver after the approval was
  inserted: the pending approval is left to a request that is still in progress; the requester
  answers again, differently, and the request is completed with a ticket; then the manager finds
  the old approval and rejects it, and the completed request becomes a rejected one.\<close>

definition faulty_env :: env where
  "faulty_env = E1\<lparr>env_fault := (\<lambda>n. if n = 15 then FailBefore else NoFault)\<rparr>"

definition unapproved_world :: world where
  "unapproved_world = asking_world\<lparr>w_db := (w_db asking_world)\<lparr>db_approvals := []\<rparr>\<rparr>"

lemma sample_laptop:
  "engine_submit_answer sample_graph ''ask'' [] ''device'' (JString ''laptop'') =
     (Inr (''approve'', Workflow_Engine.AwaitingApproval ManagerOfRequester None),
      [(''device'', JString ''laptop'')])"
  by (simp add: engine_submit_answer_def engine_eval obj_get_def eval_condition.simps)

lemma sample_engine:
  "resume_after_ticket_dispatch sample_graph ''submit'' answers = Inr (''end_ok'', Finished EndCompleted)"
  "engine_resume_after_approval sample_graph ''approve'' answers Reject = Inr (''end_rejected'', Finished EndRejected)"
  by (simp_all add: resume_after_ticket_dispatch_def engine_resume_after_approval_def engine_eval)

lemma interrupted_approval:
  "\<exists>e w1 r w2 s w3.
     submit_answer faulty_env sample_deps 5 sample_requester ''device'' (JString ''laptop'') unapproved_world =
       Some (Err e, w1) \<and>
     map wi_status (db_instances (w_db w1)) = [InProgress] \<and>
     map (\<lambda>a. (pa_id a, pa_workflow_instance_id a, pa_status a)) (db_approvals (w_db w1)) = [(1000, 5, Pending)] \<and>
     submit_answer faulty_env sample_deps 5 sample_requester ''device'' (JString ''mouse'') w1 = Some (Ok r, w2) \<and>
     map wi_status (db_instances (w_db w2)) = [Completed] \<and>
     approvals_route_decide faulty_env sample_deps sample_manager 1000 Reject None w2 = Some (Ok s, w3) \<and>
     map wi_status (db_instances (w_db w3)) = [Rejected]"
  by (simp add: faulty_env_def unapproved_world_def submit_answer_def sample_laptop sample_submit world_eval
      row_into_model_def)
    (simp add: apply_outcome.simps await_approval_def create_for_instance_def resolve_approver_user_id.simps
      expiry_time_def approvals_get_by_id_def sample_laptop world_eval sample_deps_def finish_with_def
      approvals_create_def approvals_create_stmt_def sample_model_def,
     simp add: sample_submit world_eval row_into_model_def apply_outcome.simps finish_with_def sample_engine
      dispatch_eval sample_model_def touched_def resume_after_approval_def
      approvals_route_decide_def decide_def approvals_get_by_id_def approvals_decide_def
      approvals_decide_stmt_def Let_def)

section \<open>Mail\<close>

lemma mailer_new_security:
  assumes "mailer_new E cfg = Inr mailer"
  shows "tr_relay (mailer_transport mailer) =
    (case mc_security cfg of StartTls \<Rightarrow> StarttlsRelay (mc_host cfg) | ImplicitTls \<Rightarrow> Relay (mc_host cfg)
     | NoTls \<Rightarrow> BuilderDangerous (mc_host cfg))"
  using assms by (cases "mc_security cfg") (auto simp: mailer_new_def Let_def split: sum.splits)

lemma mailer_of_Ok:
  assumes "mailer_of E config w = (Ok mailer, w')"
  shows "(mailer = None \<longleftrightarrow> ac_smtp config = None) \<and>
    (\<forall>m smtp. mailer = Some m \<and> ac_smtp config = Some smtp \<longrightarrow>
      tr_relay (mailer_transport m) =
        (case smtp_security smtp of StartTls \<Rightarrow> StarttlsRelay (smtp_host smtp) | ImplicitTls \<Rightarrow> Relay (smtp_host smtp)
         | NoTls \<Rightarrow> BuilderDangerous (smtp_host smtp)))"
  using assms unfolding mailer_of_def
  by (auto elim!: bindM_OkE dest!: lift_sum_OkD mailer_new_security split: option.splits SmtpSecurity.splits)

lemma smtp_security_of_env: "smtp_security_of v = Inr sec \<Longrightarrow> sec = NoTls \<longleftrightarrow> v = Some ''none''"
  by (cases v) (auto split: if_splits)

lemma from_env_smtp: "from_env parse_addr vars = Inr cfg \<Longrightarrow> smtp_from_env vars = Inr (ac_smtp cfg)"
  by (auto simp: from_env_def split: option.splits sum.splits if_splits)

lemma smtp_from_env_parts:
  assumes "smtp_from_env vars = Inr smtp"
  shows "smtp = None \<longleftrightarrow> env_var vars ''SMTP_HOST'' = None \<or> env_var vars ''SMTP_FROM_ADDRESS'' = None"
    "smtp = Some c \<Longrightarrow> env_var vars ''SMTP_HOST'' = Some (smtp_host c)"
    "smtp = Some c \<Longrightarrow> smtp_security c = NoTls \<longleftrightarrow> vars ''SMTP_SECURITY'' = Some ''none''"
proof -
  have none: "env_var vars k = Some ''none'' \<longleftrightarrow> vars k = Some ''none''" for k
    by (simp add: env_var_def split: option.split)
  show "smtp = None \<longleftrightarrow> env_var vars ''SMTP_HOST'' = None \<or> env_var vars ''SMTP_FROM_ADDRESS'' = None"
    using assms by (auto simp: smtp_from_env_def split: option.splits sum.splits)
  assume c: "smtp = Some c"
  obtain host addr sec where e: "env_var vars ''SMTP_HOST'' = Some host" "env_var vars ''SMTP_FROM_ADDRESS'' = Some addr"
    "smtp_security_of (env_var vars ''SMTP_SECURITY'') = Inr sec" "smtp_host c = host" "smtp_security c = sec"
    using assms c by (auto simp: smtp_from_env_def split: option.splits sum.splits)
  then show "env_var vars ''SMTP_HOST'' = Some (smtp_host c)" by simp
  show "smtp_security c = NoTls \<longleftrightarrow> vars ''SMTP_SECURITY'' = Some ''none''"
    using smtp_security_of_env [OF e(3)] e(5) none by simp
qed

text \<open>C35: a server that has started sends its mail to the configured host, over TLS from the first
  byte or after STARTTLS; unencrypted exactly when \<^verbatim>\<open>SMTP_SECURITY\<close> is \<^verbatim>\<open>none\<close>. Without a mail
  configuration there is no mailer and approvers are only told through the log.\<close>

theorem plaintext_mail_only_on_request:
  assumes "start_up E parse_addr vars connect migrate items w = (Ok state, w')"
  shows "as_notifier state = (case as_mailer state of None \<Rightarrow> LoggingNotifier | Some m \<Rightarrow> SmtpNotifier m) \<and>
    (as_mailer state = None \<longleftrightarrow> env_var vars ''SMTP_HOST'' = None \<or> env_var vars ''SMTP_FROM_ADDRESS'' = None) \<and>
    (\<forall>m. as_mailer state = Some m \<longrightarrow> (\<exists>host. env_var vars ''SMTP_HOST'' = Some host \<and>
       tr_relay (mailer_transport m) \<in> {StarttlsRelay host, Relay host, BuilderDangerous host} \<and>
       (tr_relay (mailer_transport m) = BuilderDangerous host \<longleftrightarrow> vars ''SMTP_SECURITY'' = Some ''none'')))"
proof -
  obtain config mailer w1 w2 where cfg: "from_env parse_addr vars = Inr config"
    and m: "mailer_of E config w1 = (Ok mailer, w2)" and st: "state = app_state config mailer"
    using start_up_Ok [OF assms] by metis
  have notifier: "as_notifier state = (case as_mailer state of None \<Rightarrow> LoggingNotifier | Some m \<Rightarrow> SmtpNotifier m)"
    "as_mailer state = mailer" by (cases mailer; simp add: st app_state_def notifier_of_def default_notifier_def)+
  note smtp = smtp_from_env_parts [OF from_env_smtp [OF cfg]] and built = mailer_of_Ok [OF m]
  show ?thesis
  proof (cases "ac_smtp config")
    case None
    then show ?thesis using notifier smtp built by simp
  next
    case (Some c)
    then obtain m where "mailer = Some m" using built by auto
    moreover have "tr_relay (mailer_transport m) \<in> {StarttlsRelay (smtp_host c), Relay (smtp_host c), BuilderDangerous (smtp_host c)} \<and>
        (tr_relay (mailer_transport m) = BuilderDangerous (smtp_host c) \<longleftrightarrow> smtp_security c = NoTls)"
      using built Some calculation by (cases "smtp_security c") simp_all
    ultimately show ?thesis using notifier smtp(1) smtp(2,3) [OF Some] Some by auto
  qed
qed

section \<open>Witnesses\<close>

definition mail_vars :: vars where
  "mail_vars = [''DATABASE_URL'' \<mapsto> ''mysql://db'',
     ''JWT_SIGNING_SECRET'' \<mapsto> ''0123456789abcdef0123456789abcdef'',
     ''SMTP_HOST'' \<mapsto> ''relay'', ''SMTP_FROM_ADDRESS'' \<mapsto> ''s@x'', ''SMTP_SECURITY'' \<mapsto> ''none'']"

definition connect_ok :: "nat \<Rightarrow> string \<Rightarrow> (sqlx_error, unit) act" where
  "connect_ok n url = return ()"

definition migrate_ok :: "(string, unit) act" where
  "migrate_ok = return ()"

lemma sample_migrated: "migrated connect_ok migrate_ok"
  by (simp add: migrated_def connect_ok_def migrate_ok_def)

lemma mail_vars_config: "\<exists>config. from_env Some mail_vars = Inr config"
  by (simp add: from_env_def mail_vars_def smtp_from_env_def env_var_def unwrap_or_def)

text \<open>Nothing is bootstrapped without an administrator's address, nothing seeded into a catalog.\<close>

lemma start_up_quiet:
  assumes "from_env Some vars = Inr config" "ac_bootstrap_admin_email config = None" "ac_sso config = None"
    and "\<And>w. mailer_of (sample_env g m) config w = (Ok mailer, w)"
  shows "start_up (sample_env g m) Some vars connect_ok migrate_ok [] fresh_world =
    (Ok (app_state config mailer), fresh_world\<lparr>w_io := 12\<rparr>)"
proof -
  have env: "env_fault (sample_env g m) n = NoFault" for n by (simp add: sample_env_def)
  have items: "catalog_list (sample_env g m) True fresh_world = (Ok [sample_item], fresh_world\<lparr>w_io := 11\<rparr>)"
    by (simp add: catalog_list_def sql_def query_def env order_by_def fresh_world_def sample_world_def sample_db_def)
  have migrated: "connect_and_migrate connect_ok migrate_ok url w = (Ok (), w)" for url w
    by (simp add: connect_and_migrate_def connect_ok_def migrate_ok_def io_simps)
  have admin: "bootstrap_admin (sample_env g m) config w = (Ok (), w)" for w
    using assms(2) by (simp add: bootstrap_admin_def)
  have seeded: "auto_seed_catalog (sample_env g m) [] fresh_world = (Ok (), fresh_world\<lparr>w_io := 11\<rparr>)"
    by (simp add: auto_seed_catalog_def io_simps items)
  have "db_org_settings (w_db fresh_world) = Some sample_settings" by (simp add: fresh_world_def sample_db_def)
  then have settings: "org_settings_seed_default (sample_env g m) name signup (fresh_world\<lparr>w_io := 11\<rparr>) =
      (Ok (), fresh_world\<lparr>w_io := 12\<rparr>)" for name signup
    by (simp add: org_settings_seed_default_def org_settings_seed_default_stmt_def sql_def env)
  show ?thesis
    by (simp add: start_up_def assms(1,3,4) bindM_apply map_err_apply migrated admin seeded settings)
qed

theorem plaintext_mail_only_on_request_witness:
  "\<exists>state m. start_up E0 Some mail_vars connect_ok migrate_ok [] fresh_world = (Ok state, fresh_world\<lparr>w_io := 12\<rparr>) \<and>
     as_mailer state = Some m \<and> tr_relay (mailer_transport m) = BuilderDangerous ''relay''"
proof -
  obtain config where config: "from_env Some mail_vars = Inr config" using mail_vars_config by blast
  then have cfg: "ac_bootstrap_admin_email config = None" "ac_sso config = None"
    "ac_smtp config = Some \<lparr>smtp_host = ''relay'', smtp_port = None, smtp_security = NoTls, smtp_username = None,
       smtp_password = None, smtp_from_address = ''s@x'', smtp_from_name = None\<rparr>"
    by (auto simp: from_env_def mail_vars_def smtp_from_env_def sso_from_env_def env_var_def unwrap_or_def)
  obtain mailer where "\<And>w. mailer_of E0 config w = (Ok (Some mailer), w)"
    by (simp add: mailer_of_def cfg mailer_new_def sample_env_def)
  from start_up_quiet [OF config cfg(1,2) this]
  have run: "start_up E0 Some mail_vars connect_ok migrate_ok [] fresh_world =
      (Ok (app_state config (Some mailer)), fresh_world\<lparr>w_io := 12\<rparr>)" .
  have vars: "env_var mail_vars ''SMTP_HOST'' = Some ''relay''" "mail_vars ''SMTP_SECURITY'' = Some ''none''"
    by (simp_all add: mail_vars_def env_var_def)
  show ?thesis
    using plaintext_mail_only_on_request [OF run] run vars by (auto simp: app_state_def)
qed

text \<open>The server of the samples, started without mail.\<close>

lemma sample_started:
  obtains state where "start_up (sample_env g m) Some sample_vars connect_ok migrate_ok [] fresh_world =
    (Ok state, fresh_world\<lparr>w_io := 12\<rparr>)"
proof -
  obtain config where config: "from_env Some sample_vars = Inr config"
    by (simp add: from_env_def sample_vars_def smtp_from_env_def env_var_def unwrap_or_def)
  then have cfg: "ac_bootstrap_admin_email config = None" "ac_sso config = None" "ac_smtp config = None"
    by (auto simp: from_env_def sample_vars_def smtp_from_env_def sso_from_env_def env_var_def unwrap_or_def)
  have "mailer_of (sample_env g m) config w = (Ok None, w)" for w by (simp add: mailer_of_def cfg)
  from start_up_quiet [OF config cfg(1,2) this] that show thesis by blast
qed

lemma fresh_unused:
  "db_wf (sample_env g m) (w_db fresh_world)" "db_instances (w_db fresh_world) = []" "db_approvals (w_db fresh_world) = []"
  using fresh_set_up [of g m] by (simp_all add: set_up_def)

lemma waiting_served:
  "\<exists>w' a. http_serve E2 sample_site (MemberApi (Some ''2s'') (StartInstance 4)) (fresh_world\<lparr>w_io := 12\<rparr>) =
       Some (Success, w') \<and>
     db_approvals (w_db w') = [a] \<and> pa_status a = Pending"
  by (simp add: served_eval await_approval_def create_for_instance_def expiry_time_def
      approvals_create_def approvals_create_stmt_def approvals_get_by_id_def catalog_item_name_for_def
      org_settings_get_def org_settings_get_stmt_def logging_notify_def sample_deps_def)

theorem approvals_match_across_restarts_witness:
  "\<exists>w' a. http_serve E2 sample_site (MemberApi (Some ''2s'') (StartInstance 4)) (fresh_world\<lparr>w_io := 12\<rparr>) =
       Some (Success, w') \<and> a \<in> set (db_approvals (w_db w')) \<and>
     (\<exists>r \<in> set (db_instances (w_db w')). wi_id r = pa_workflow_instance_id a \<and>
        wi_status r = AwaitingApprovalStatus \<and> wi_current_step_id r = pa_step_id a)"
proof -
  obtain w' a where run: "http_serve E2 sample_site (MemberApi (Some ''2s'') (StartInstance 4)) (fresh_world\<lparr>w_io := 12\<rparr>) =
      Some (Success, w')"
    and a: "db_approvals (w_db w') = [a]" "pa_status a = Pending"
    using waiting_served by blast
  obtain state where start: "start_up E2 Some sample_vars connect_ok migrate_ok [] fresh_world =
    (Ok state, fresh_world\<lparr>w_io := 12\<rparr>)"
    by (rule sample_started)
  have life: "(life_step E2 connect_ok migrate_ok [])\<^sup>*\<^sup>* (fresh_world\<lparr>w_io := 12\<rparr>) w'"
    using run by (intro r_into_rtranclp serving served)
  show ?thesis
    using approvals_match_across_restarts [OF fault_free_sample sample_migrated fresh_unused start life, of a] a run by auto
qed

lemma completing_started:
  "\<exists>w' r. http_serve E0 sample_site (MemberApi (Some ''2s'') (StartInstance 4)) (fresh_world\<lparr>w_io := 12\<rparr>) =
       Some (Success, w') \<and>
     r \<in> set (db_instances (w_db w')) \<and> wi_status r = Completed"
  by (simp add: served_eval)

theorem closed_requests_are_frozen_witness:
  "\<exists>w' r. http_serve E0 sample_site (MemberApi (Some ''2s'') (StartInstance 4)) (fresh_world\<lparr>w_io := 12\<rparr>) =
       Some (Success, w') \<and>
     r \<in> set (db_instances (w_db w')) \<and> wi_status r = Completed \<and> wi_completed_at r \<noteq> None"
proof -
  obtain w' r where run: "http_serve E0 sample_site (MemberApi (Some ''2s'') (StartInstance 4)) (fresh_world\<lparr>w_io := 12\<rparr>) =
      Some (Success, w')"
    and r: "r \<in> set (db_instances (w_db w'))" "wi_status r = Completed"
    using completing_started by blast
  obtain state where start: "start_up E0 Some sample_vars connect_ok migrate_ok [] fresh_world =
    (Ok state, fresh_world\<lparr>w_io := 12\<rparr>)"
    by (rule sample_started)
  have life: "(life_step E0 connect_ok migrate_ok [])\<^sup>*\<^sup>* (fresh_world\<lparr>w_io := 12\<rparr>) w'"
    using run by (intro r_into_rtranclp serving served)
  show ?thesis
    using closed_requests_are_frozen [OF fault_free_sample sample_migrated fresh_unused start life r(1)] run r
    by (auto simp: is_terminal.simps)
qed

end
