(* ===== verification/Routing.thy ===== *)
theory Routing
  imports Server
begin

text \<open>
  The paths of the server: the tables the modules' \<^verbatim>\<open>routes()\<close> register, merged and nested as
  \<^verbatim>\<open>build_router\<close> (\<^verbatim>\<open>src/crates/server/src/routes/mod.rs\<close>) and \<^verbatim>\<open>web::routes\<close> do. A table lists a
  path with its methods and their handlers, named by module. A path is the text given to
  \<^verbatim>\<open>.route\<close>: \<^verbatim>\<open>{id}\<close> stands for one non-empty segment and \<^verbatim>\<open>{*path}\<close> for a non-empty rest. What axum does
  with a table (finding the row, 404, 405) is not modelled.

  Shown: the rows are those of the requests \<open>http_serve\<close> answers, and the rows under the session
  middleware are answered through it; no two rows match one path, \<^verbatim>\<open>/api/users/me\<close> apart, so the
  outcome hardly depends on axum's rule of precedence.
\<close>

datatype meth = GET | POST | PATCH | DELETE

type_synonym route_table = "(string \<times> (meth \<times> string) list) list"

section \<open>The JSON API\<close>

definition auth_routes :: route_table where
  "auth_routes =
     [(''/auth/login'', [(POST, ''auth::login'')]),
      (''/auth/register'', [(POST, ''auth::register'')]),
      (''/auth/refresh'', [(POST, ''auth::refresh'')]),
      (''/auth/logout'', [(POST, ''auth::logout'')]),
      (''/auth/password-reset/request'', [(POST, ''auth::request_password_reset'')]),
      (''/auth/password-reset/confirm'', [(POST, ''auth::confirm_password_reset'')])]"

definition sso_routes :: route_table where
  "sso_routes =
     [(''/auth/sso/login'', [(GET, ''sso::login'')]),
      (''/auth/sso/callback'', [(GET, ''sso::callback'')]),
      (''/auth/sso/token'', [(POST, ''sso::token'')])]"

definition settings_routes :: route_table where
  "settings_routes =
     [(''/config'', [(GET, ''settings::public_config'')])] @
     [(''/admin/settings'', [(PATCH, ''settings::update_settings'')]),
      (''/admin/settings/logo'', [(POST, ''settings::upload_logo''), (DELETE, ''settings::remove_logo'')])]"

definition users_routes :: route_table where
  "users_routes =
     [(''/users/me'', [(GET, ''users::me'')]),
      (''/users'', [(GET, ''users::list_users''), (POST, ''users::create_user'')]),
      (''/users/{id}'', [(PATCH, ''users::update_user'')]),
      (''/users/{id}/deactivate'', [(POST, ''users::deactivate_user'')])]"

definition departments_routes :: route_table where
  "departments_routes =
     [(''/departments'', [(GET, ''departments::list''), (POST, ''departments::create'')]),
      (''/departments/{id}'', [(PATCH, ''departments::update''), (DELETE, ''departments::delete'')]),
      (''/departments/{id}/logo'', [(POST, ''departments::upload_logo''), (DELETE, ''departments::remove_logo'')])]"

definition catalog_routes :: route_table where
  "catalog_routes =
     [(''/catalog'', [(GET, ''catalog::list''), (POST, ''catalog::create'')]),
      (''/catalog/{id}'', [(PATCH, ''catalog::update'')]),
      (''/catalog/{id}/deactivate'', [(POST, ''catalog::deactivate'')])]"

definition workflow_definitions_routes :: route_table where
  "workflow_definitions_routes =
     [(''/workflow-definitions'', [(GET, ''workflow_definitions::list''), (POST, ''workflow_definitions::create'')]),
      (''/workflow-definitions/{id}/publish'', [(POST, ''workflow_definitions::publish'')]),
      (''/workflow-definitions/{id}/unpublish'', [(POST, ''workflow_definitions::unpublish'')])]"

definition instances_routes :: route_table where
  "instances_routes =
     [(''/instances'', [(GET, ''instances::list_mine''), (POST, ''instances::start'')]),
      (''/instances/{id}'', [(GET, ''instances::get_one'')]),
      (''/instances/{id}/answers'', [(POST, ''instances::submit_answer'')])]"

definition approvals_routes :: route_table where
  "approvals_routes =
     [(''/approvals'', [(GET, ''approvals::list_mine'')]),
      (''/approvals/{id}/decide'', [(POST, ''approvals::decide'')])]"

definition audit_log_routes :: route_table where
  "audit_log_routes = [(''/audit-log'', [(GET, ''audit_log::list_audit_log'')])]"

definition api_router :: route_table where
  "api_router = auth_routes @ sso_routes @ settings_routes @ users_routes @ departments_routes @
     catalog_routes @ workflow_definitions_routes @ instances_routes @ approvals_routes @ audit_log_routes"

section \<open>The pages\<close>

definition page_catalog_routes :: route_table where
  "page_catalog_routes =
     [(''/catalog'', [(GET, ''pages::catalog::show'')]),
      (''/catalog/{id}'', [(GET, ''pages::catalog::item_detail'')]),
      (''/catalog/{id}/request'', [(POST, ''pages::catalog::start_request'')])]"

definition page_requests_routes :: route_table where
  "page_requests_routes =
     [(''/requests'', [(GET, ''pages::requests::list_mine'')]),
      (''/requests/{id}'', [(GET, ''pages::requests::show'')]),
      (''/requests/{id}/answer'', [(POST, ''pages::requests::submit_answer'')])]"

definition page_approvals_routes :: route_table where
  "page_approvals_routes =
     [(''/approvals'', [(GET, ''pages::approvals::list_mine'')]),
      (''/approvals/{id}/decide'', [(POST, ''pages::approvals::decide'')])]"

definition admin_users_routes :: route_table where
  "admin_users_routes =
     [(''/admin/users'', [(GET, ''admin::users::list''), (POST, ''admin::users::create'')]),
      (''/admin/users/{id}/update'', [(POST, ''admin::users::update'')]),
      (''/admin/users/{id}/deactivate'', [(POST, ''admin::users::deactivate'')])]"

definition admin_departments_routes :: route_table where
  "admin_departments_routes =
     [(''/admin/departments'', [(GET, ''admin::departments::list''), (POST, ''admin::departments::create'')]),
      (''/admin/departments/{id}/update'', [(POST, ''admin::departments::update'')]),
      (''/admin/departments/{id}/delete'', [(POST, ''admin::departments::delete'')])]"

definition admin_settings_routes :: route_table where
  "admin_settings_routes =
     [(''/admin/settings'', [(GET, ''admin::settings::show''), (POST, ''admin::settings::update'')])]"

definition admin_workflows_routes :: route_table where
  "admin_workflows_routes =
     [(''/admin/workflows'', [(GET, ''admin::workflows::list''), (POST, ''admin::workflows::create'')]),
      (''/admin/workflows/{id}/publish'', [(POST, ''admin::workflows::publish'')]),
      (''/admin/workflows/{id}/unpublish'', [(POST, ''admin::workflows::unpublish'')])]"

definition admin_catalog_routes :: route_table where
  "admin_catalog_routes =
     [(''/admin/catalog'', [(GET, ''admin::catalog::list''), (POST, ''admin::catalog::create'')]),
      (''/admin/catalog/{id}/toggle'', [(POST, ''admin::catalog::toggle'')]),
      (''/admin/catalog/{id}/edit'', [(GET, ''admin::catalog::edit_form''), (POST, ''admin::catalog::edit'')]),
      (''/admin/catalog/load-starter'', [(POST, ''admin::catalog::load_starter'')])]"

definition admin_audit_log_routes :: route_table where
  "admin_audit_log_routes = [(''/admin/audit-log'', [(GET, ''admin::audit_log::list'')])]"

definition admin_routes :: route_table where
  "admin_routes = admin_users_routes @ admin_departments_routes @ admin_settings_routes @
     admin_workflows_routes @ admin_catalog_routes @ admin_audit_log_routes"

definition page_auth_routes :: route_table where
  "page_auth_routes =
     [(''/login'', [(GET, ''pages::auth::show_login''), (POST, ''pages::auth::submit_login'')]),
      (''/login/sso/complete'', [(GET, ''pages::auth::sso_complete'')]),
      (''/logout'', [(POST, ''pages::auth::logout'')]),
      (''/forgot-password'',
        [(GET, ''pages::auth::show_forgot_password''), (POST, ''pages::auth::submit_forgot_password'')]),
      (''/reset-password'',
        [(GET, ''pages::auth::show_reset_password''), (POST, ''pages::auth::submit_reset_password'')])]"

text \<open>The rows behind the session middleware.\<close>

definition protected_routes :: route_table where
  "protected_routes =
     [(''/'', [(GET, ''pages::dashboard::show'')])] @
     page_catalog_routes @ page_requests_routes @ page_approvals_routes @ admin_routes"

definition web_routes :: route_table where
  "web_routes =
     [(''/static/style.css'', [(GET, ''style_css'')]),
      (''/static/workflow_builder.js'', [(GET, ''workflow_builder_js'')])] @
     page_auth_routes @ protected_routes"

section \<open>The router\<close>

definition health_routes :: route_table where
  "health_routes = [(''/health'', [(GET, ''health::health'')])]"

definition nest :: "string \<Rightarrow> route_table \<Rightarrow> route_table" where
  "nest base table = map (\<lambda>(path, methods). (base @ path, methods)) table"

definition build_router :: route_table where
  "build_router = health_routes @ [(''/uploads/{*path}'', [(GET, ''uploads::serve'')])] @
     nest ''/api'' api_router @ web_routes"

text \<open>Cross-origin access: any method and header (\<open>None\<close>), from the configured origins. \<open>parse\<close> is
  \<^verbatim>\<open>HeaderValue\<close>'s parser; an origin it refuses is dropped.\<close>

record CorsLayer =
  cors_allow_origin :: "string list"
  cors_allow_methods :: "string list option"
  cors_allow_headers :: "string list option"

definition build_cors_layer :: "(string \<Rightarrow> string option) \<Rightarrow> string list \<Rightarrow> CorsLayer" where
  "build_cors_layer parse allowed_origins =
     \<lparr>cors_allow_origin = List.map_filter parse allowed_origins,
      cors_allow_methods = None, cors_allow_headers = None\<rparr>"

lemma no_origin_by_default:
  assumes "from_env parse_addr vars = Inr config" "vars ''CORS_ALLOWED_ORIGINS'' = None"
  shows "cors_allow_origin (build_cors_layer parse (ac_cors_allowed_origins config)) = []"
proof -
  have "trim [] = []" by code_simp
  then have "ac_cors_allowed_origins config = []"
    using assms by (auto simp: from_env_def cors_origins_def unwrap_or_def split: option.splits sum.splits if_splits)
  then show ?thesis by (simp add: build_cors_layer_def map_filter_simps)
qed

lemmas route_table_defs = auth_routes_def sso_routes_def settings_routes_def users_routes_def
  departments_routes_def catalog_routes_def workflow_definitions_routes_def instances_routes_def
  approvals_routes_def audit_log_routes_def api_router_def page_catalog_routes_def
  page_requests_routes_def page_approvals_routes_def admin_users_routes_def
  admin_departments_routes_def admin_settings_routes_def admin_workflows_routes_def
  admin_catalog_routes_def admin_audit_log_routes_def admin_routes_def page_auth_routes_def
  protected_routes_def web_routes_def health_routes_def nest_def build_router_def

section \<open>Matching\<close>

datatype segment = Lit string | Param | Rest

definition segment_of :: "string \<Rightarrow> segment" where
  "segment_of s = (if take 2 s = ''{*'' then Rest else if take 1 s = ''{'' then Param else Lit s)"

definition pattern_of :: "string \<Rightarrow> segment list" where
  "pattern_of path = map segment_of (split_on CHR ''/'' path)"

fun segments_match :: "segment list \<Rightarrow> string list \<Rightarrow> bool" where
  "segments_match [] path \<longleftrightarrow> path = []"
| "segments_match (Rest # ps) path \<longleftrightarrow> path \<noteq> [] \<and> path \<noteq> [[]]"
| "segments_match (Param # ps) path \<longleftrightarrow> (case path of [] \<Rightarrow> False | s # path' \<Rightarrow> s \<noteq> [] \<and> segments_match ps path')"
| "segments_match (Lit l # ps) path \<longleftrightarrow> (case path of [] \<Rightarrow> False | s # path' \<Rightarrow> s = l \<and> segments_match ps path')"

definition route_matches :: "string \<Rightarrow> string \<Rightarrow> bool" where
  "route_matches pattern path \<longleftrightarrow> segments_match (pattern_of pattern) (split_on CHR ''/'' path)"

fun may_overlap :: "segment list \<Rightarrow> segment list \<Rightarrow> bool" where
  "may_overlap (Lit a # ps) (Lit b # qs) = (if a = b then may_overlap ps qs else False)"
| "may_overlap [] [] = True"
| "may_overlap [] (q # qs) = False"
| "may_overlap (p # ps) [] = False"
| "may_overlap (Rest # ps) (q # qs) = True"
| "may_overlap (p # ps) (Rest # qs) = True"
| "may_overlap (Param # ps) (q # qs) = may_overlap ps qs"
| "may_overlap (p # ps) (Param # qs) = may_overlap ps qs"

lemma segments_match_Nil [simp]: "segments_match (p # ps) [] \<longleftrightarrow> False"
  by (cases p) auto

lemma both_match_overlap: "segments_match ps path \<Longrightarrow> segments_match qs path \<Longrightarrow> may_overlap ps qs"
  by (induction ps qs arbitrary: path rule: may_overlap.induct) (auto split: list.splits)

text \<open>Splitting without computing the rest twice.\<close>

fun cons_first :: "char \<Rightarrow> string list \<Rightarrow> string list" where
  "cons_first x [] = [[x]]"
| "cons_first x (s # ss) = (x # s) # ss"

lemma split_on_step:
  "split_on c [] = [[]]"
  "split_on c (x # xs) = (if x = c then [] # split_on c xs else cons_first x (split_on c xs))"
  using split_on_not_Nil [of c xs] by (cases "split_on c xs"; simp)+

fun overlapping_pairs :: "segment list list \<Rightarrow> (segment list \<times> segment list) list" where
  "overlapping_pairs [] = []"
| "overlapping_pairs (p # ps) = map (Pair p) (filter (may_overlap p) ps) @ overlapping_pairs ps"

text \<open>Tables under different literal prefixes can be checked one by one.\<close>

fun clash :: "segment list \<Rightarrow> segment list \<Rightarrow> bool" where
  "clash (Lit a # ps) (Lit b # qs) \<longleftrightarrow> (if a = b then clash ps qs else True)"
| "clash ps qs \<longleftrightarrow> False"

lemma clash_no_overlap: "clash k l \<Longrightarrow> \<not> may_overlap (k @ ps) (l @ qs)"
  by (induction k l rule: clash.induct) (auto split: if_splits)

lemma overlapping_append:
  "(\<And>p q. p \<in> set ps \<Longrightarrow> q \<in> set qs \<Longrightarrow> \<not> may_overlap p q) \<Longrightarrow>
   overlapping_pairs (ps @ qs) = overlapping_pairs ps @ overlapping_pairs qs"
  by (induction ps) (auto simp: filter_empty_conv)

lemma overlapping_groups:
  "sorted_wrt clash (map fst groups) \<Longrightarrow> (\<forall>(k, ps) \<in> set groups. list_all (\<lambda>p. take (length k) p = k) ps) \<Longrightarrow>
   overlapping_pairs (concat (map snd groups)) = concat (map (\<lambda>g. overlapping_pairs (snd g)) groups)"
proof (induction groups)
  case (Cons g groups)
  obtain k ps where g: "g = (k, ps)" by fastforce
  have none: "\<not> may_overlap p q" if p: "p \<in> set ps" and q: "q \<in> set (concat (map snd groups))" for p q
  proof -
    obtain l qs where l: "(l, qs) \<in> set groups" "q \<in> set qs" using q by auto
    have "clash k l" using Cons.prems(1) l(1) g by force
    moreover have "take (length k) p = k" "take (length l) q = l"
      using Cons.prems(2) p l g by (auto simp: list_all_iff)
    then obtain x y where "p = k @ x" "q = l @ y" by (metis append_take_drop_id)
    ultimately show ?thesis by (simp add: clash_no_overlap)
  qed
  have "overlapping_pairs (ps @ concat (map snd groups)) = overlapping_pairs ps @ overlapping_pairs (concat (map snd groups))"
    using none by (rule overlapping_append)
  then show ?case using Cons g by simp
qed simp

definition patterns :: "route_table \<Rightarrow> segment list list" where
  "patterns table = map (\<lambda>row. pattern_of (fst row)) table"

lemma patterns_append: "patterns (t @ u) = patterns t @ patterns u"
  by (simp add: patterns_def)

abbreviation api :: "string \<Rightarrow> segment list" where
  "api s \<equiv> [Lit [], Lit ''api'', Lit s]"

abbreviation page :: "string \<Rightarrow> segment list" where
  "page s \<equiv> [Lit [], Lit s]"

definition router_groups :: "(segment list \<times> route_table) list" where
  "router_groups =
     [(page ''health'', health_routes), (page ''uploads'', [(''/uploads/{*path}'', [(GET, ''uploads::serve'')])]),
      (api ''auth'', nest ''/api'' (auth_routes @ sso_routes)),
      (api ''config'', nest ''/api'' (take 1 settings_routes)),
      (api ''admin'', nest ''/api'' (drop 1 settings_routes)), (api ''users'', nest ''/api'' users_routes),
      (api ''departments'', nest ''/api'' departments_routes), (api ''catalog'', nest ''/api'' catalog_routes),
      (api ''workflow-definitions'', nest ''/api'' workflow_definitions_routes),
      (api ''instances'', nest ''/api'' instances_routes), (api ''approvals'', nest ''/api'' approvals_routes),
      (api ''audit-log'', nest ''/api'' audit_log_routes), (page ''static'', take 2 web_routes),
      (page ''login'', take 2 page_auth_routes), (page ''logout'', take 1 (drop 2 page_auth_routes)),
      (page ''forgot-password'', take 1 (drop 3 page_auth_routes)),
      (page ''reset-password'', drop 4 page_auth_routes), (page [], take 1 protected_routes),
      (page ''catalog'', page_catalog_routes), (page ''requests'', page_requests_routes),
      (page ''approvals'', page_approvals_routes), (page ''admin'' @ [Lit ''users''], admin_users_routes),
      (page ''admin'' @ [Lit ''departments''], admin_departments_routes),
      (page ''admin'' @ [Lit ''settings''], admin_settings_routes),
      (page ''admin'' @ [Lit ''workflows''], admin_workflows_routes),
      (page ''admin'' @ [Lit ''catalog''], admin_catalog_routes),
      (page ''admin'' @ [Lit ''audit-log''], admin_audit_log_routes)]"

lemmas router_eval = patterns_def pattern_of_def segment_of_def split_on_step

lemma router_is_grouped: "build_router = concat (map snd router_groups)"
  by (simp add: router_groups_def route_table_defs)

lemma groups_clash: "sorted_wrt clash (map fst router_groups)"
  by (simp add: router_groups_def)

lemma groups_prefixed: "\<forall>(k, t) \<in> set router_groups. list_all (\<lambda>p. take (length k) p = k) (patterns t)"
  by (simp add: router_groups_def router_eval route_table_defs del: split_on.simps(2))

lemma group_overlaps:
  "concat (map (\<lambda>g. overlapping_pairs (patterns (snd g))) router_groups) =
     [([Lit [], Lit ''api'', Lit ''users'', Lit ''me''], [Lit [], Lit ''api'', Lit ''users'', Param])]"
  by (simp add: router_groups_def router_eval route_table_defs del: split_on.simps(2))

lemma router_overlaps:
  "overlapping_pairs (patterns build_router) =
     [([Lit [], Lit ''api'', Lit ''users'', Lit ''me''], [Lit [], Lit ''api'', Lit ''users'', Param])]"
proof -
  let ?groups = "map (\<lambda>(k, t). (k, patterns t)) router_groups"
  have "patterns (concat ts) = concat (map patterns ts)" for ts
    by (induction ts) (simp_all add: patterns_append, simp add: patterns_def)
  then have "patterns build_router = concat (map snd ?groups)"
    by (simp add: router_is_grouped comp_def split_beta)
  moreover have "overlapping_pairs (concat (map snd ?groups)) = concat (map (\<lambda>g. overlapping_pairs (snd g)) ?groups)"
  proof (rule overlapping_groups)
    show "sorted_wrt clash (map fst ?groups)" using groups_clash by (simp add: comp_def split_beta)
    show "\<forall>(k, ps) \<in> set ?groups. list_all (\<lambda>p. take (length k) p = k) ps" using groups_prefixed by auto
  qed
  ultimately show ?thesis using group_overlaps by (simp add: comp_def split_beta)
qed

lemma overlapping_nth:
  "i < j \<Longrightarrow> j < length ps \<Longrightarrow> may_overlap (ps ! i) (ps ! j) \<Longrightarrow> (ps ! i, ps ! j) \<in> set (overlapping_pairs ps)"
proof (induction ps arbitrary: i j)
  case (Cons p ps)
  then obtain k where k: "j = Suc k" by (cases j) auto
  show ?case
  proof (cases i)
    case 0
    then show ?thesis using Cons.prems k by auto
  next
    case (Suc l)
    then show ?thesis using Cons.IH [of l k] Cons.prems k by simp
  qed
qed simp

lemma overlapping_rows:
  "list_all (\<lambda>row.
     (pattern_of (fst row) = [Lit [], Lit ''api'', Lit ''users'', Lit ''me''] \<longrightarrow>
        row = (''/api/users/me'', [(GET, ''users::me'')])) \<and>
     (pattern_of (fst row) = [Lit [], Lit ''api'', Lit ''users'', Param] \<longrightarrow>
        row = (''/api/users/{id}'', [(PATCH, ''users::update_user'')]))) build_router"
  by (simp add: router_eval route_table_defs del: split_on.simps(2))

text \<open>C33: no request is ambiguous. Two rows of the router that match the same path are the same row,
  so which handler runs does not depend on an order or precedence of rows, with one
  exception: \<^verbatim>\<open>/api/users/me\<close> also matches \<^verbatim>\<open>/api/users/{id}\<close>, and these two share no method.\<close>

theorem routes_unambiguous:
  assumes "i < j" "j < length build_router"
    and "route_matches (fst (build_router ! i)) path" "route_matches (fst (build_router ! j)) path"
  shows "build_router ! i = (''/api/users/me'', [(GET, ''users::me'')]) \<and>
    build_router ! j = (''/api/users/{id}'', [(PATCH, ''users::update_user'')])"
proof -
  have pat: "patterns build_router ! k = pattern_of (fst (build_router ! k))" if "k < length build_router" for k
    using that by (simp add: patterns_def)
  have "may_overlap (pattern_of (fst (build_router ! i))) (pattern_of (fst (build_router ! j)))"
    using assms(3,4) unfolding route_matches_def by (rule both_match_overlap)
  then have "(pattern_of (fst (build_router ! i)), pattern_of (fst (build_router ! j))) \<in> set (overlapping_pairs (patterns build_router))"
    using overlapping_nth [of i j "patterns build_router"] assms(1,2) pat by (simp add: patterns_def)
  then have "pattern_of (fst (build_router ! i)) = [Lit [], Lit ''api'', Lit ''users'', Lit ''me'']"
    "pattern_of (fst (build_router ! j)) = [Lit [], Lit ''api'', Lit ''users'', Param]"
    unfolding router_overlaps by simp_all
  then show ?thesis using overlapping_rows assms(1,2) by (auto simp: list_all_length)
qed

section \<open>Requests and rows\<close>

text \<open>The row of a decoded request: its path, its method and its handler.\<close>

fun auth_api_row :: "auth_api \<Rightarrow> string \<times> meth \<times> string" where
  "auth_api_row (ApiLogin _ _) = (''/api/auth/login'', POST, ''auth::login'')"
| "auth_api_row (ApiRegister _ _ _) = (''/api/auth/register'', POST, ''auth::register'')"
| "auth_api_row (ApiRefresh _) = (''/api/auth/refresh'', POST, ''auth::refresh'')"
| "auth_api_row (ApiLogout _) = (''/api/auth/logout'', POST, ''auth::logout'')"
| "auth_api_row (ApiResetRequest _) = (''/api/auth/password-reset/request'', POST, ''auth::request_password_reset'')"
| "auth_api_row (ApiResetConfirm _ _) = (''/api/auth/password-reset/confirm'', POST, ''auth::confirm_password_reset'')"

fun sso_api_row :: "sso_api \<Rightarrow> string \<times> meth \<times> string" where
  "sso_api_row SsoLogin = (''/api/auth/sso/login'', GET, ''sso::login'')"
| "sso_api_row (SsoCallback _ _ _) = (''/api/auth/sso/callback'', GET, ''sso::callback'')"
| "sso_api_row (SsoToken _) = (''/api/auth/sso/token'', POST, ''sso::token'')"

fun sign_in_row :: "sign_in_page \<Rightarrow> string \<times> meth \<times> string" where
  "sign_in_row (ShowLogin _ _ _ _) = (''/login'', GET, ''pages::auth::show_login'')"
| "sign_in_row (SubmitLogin _ _ _) = (''/login'', POST, ''pages::auth::submit_login'')"
| "sign_in_row (SsoComplete _ _) = (''/login/sso/complete'', GET, ''pages::auth::sso_complete'')"
| "sign_in_row (WebLogout _) = (''/logout'', POST, ''pages::auth::logout'')"
| "sign_in_row ShowForgotPassword = (''/forgot-password'', GET, ''pages::auth::show_forgot_password'')"
| "sign_in_row (SubmitForgotPassword _) = (''/forgot-password'', POST, ''pages::auth::submit_forgot_password'')"
| "sign_in_row (ShowResetPassword _) = (''/reset-password'', GET, ''pages::auth::show_reset_password'')"
| "sign_in_row (SubmitResetPassword _ _) = (''/reset-password'', POST, ''pages::auth::submit_reset_password'')"

fun public_row :: "public_request \<Rightarrow> string \<times> meth \<times> string" where
  "public_row Health = (''/health'', GET, ''health::health'')"
| "public_row StyleCss = (''/static/style.css'', GET, ''style_css'')"
| "public_row WorkflowBuilderJs = (''/static/workflow_builder.js'', GET, ''workflow_builder_js'')"
| "public_row (Uploaded _) = (''/uploads/{*path}'', GET, ''uploads::serve'')"
| "public_row PublicConfig = (''/api/config'', GET, ''settings::public_config'')"
| "public_row (Auth req) = auth_api_row req"
| "public_row (Sso req) = sso_api_row req"
| "public_row (SignIn req) = sign_in_row req"

fun member_api_row :: "member_api \<Rightarrow> string \<times> meth \<times> string" where
  "member_api_row Me = (''/api/users/me'', GET, ''users::me'')"
| "member_api_row ListDepartments = (''/api/departments'', GET, ''departments::list'')"
| "member_api_row (ListCatalog _) = (''/api/catalog'', GET, ''catalog::list'')"
| "member_api_row ListMyInstances = (''/api/instances'', GET, ''instances::list_mine'')"
| "member_api_row (StartInstance _) = (''/api/instances'', POST, ''instances::start'')"
| "member_api_row (GetInstance _) = (''/api/instances/{id}'', GET, ''instances::get_one'')"
| "member_api_row (SubmitAnswer _ _ _) = (''/api/instances/{id}/answers'', POST, ''instances::submit_answer'')"
| "member_api_row ListMyApprovals = (''/api/approvals'', GET, ''approvals::list_mine'')"
| "member_api_row (DecideApproval _ _ _) = (''/api/approvals/{id}/decide'', POST, ''approvals::decide'')"

fun admin_api_row :: "admin_api \<Rightarrow> string \<times> meth \<times> string" where
  "admin_api_row (ListUsers _) = (''/api/users'', GET, ''users::list_users'')"
| "admin_api_row (CreateUser _) = (''/api/users'', POST, ''users::create_user'')"
| "admin_api_row (UpdateUserRow _ _) = (''/api/users/{id}'', PATCH, ''users::update_user'')"
| "admin_api_row (DeactivateUser _) = (''/api/users/{id}/deactivate'', POST, ''users::deactivate_user'')"
| "admin_api_row (CreateDepartment _) = (''/api/departments'', POST, ''departments::create'')"
| "admin_api_row (UpdateDepartmentRow _ _) = (''/api/departments/{id}'', PATCH, ''departments::update'')"
| "admin_api_row (DeleteDepartment _) = (''/api/departments/{id}'', DELETE, ''departments::delete'')"
| "admin_api_row (UploadDepartmentLogo _ _ _) = (''/api/departments/{id}/logo'', POST, ''departments::upload_logo'')"
| "admin_api_row (RemoveDepartmentLogo _) = (''/api/departments/{id}/logo'', DELETE, ''departments::remove_logo'')"
| "admin_api_row (UpdateSettings _) = (''/api/admin/settings'', PATCH, ''settings::update_settings'')"
| "admin_api_row (UploadLogo _ _) = (''/api/admin/settings/logo'', POST, ''settings::upload_logo'')"
| "admin_api_row RemoveLogo = (''/api/admin/settings/logo'', DELETE, ''settings::remove_logo'')"
| "admin_api_row (CreateItem _) = (''/api/catalog'', POST, ''catalog::create'')"
| "admin_api_row (UpdateItem _ _) = (''/api/catalog/{id}'', PATCH, ''catalog::update'')"
| "admin_api_row (DeactivateItem _) = (''/api/catalog/{id}/deactivate'', POST, ''catalog::deactivate'')"
| "admin_api_row (ListDefinitions _) = (''/api/workflow-definitions'', GET, ''workflow_definitions::list'')"
| "admin_api_row (CreateDefinition _) = (''/api/workflow-definitions'', POST, ''workflow_definitions::create'')"
| "admin_api_row (Publish _) = (''/api/workflow-definitions/{id}/publish'', POST, ''workflow_definitions::publish'')"
| "admin_api_row (Unpublish _) = (''/api/workflow-definitions/{id}/unpublish'', POST, ''workflow_definitions::unpublish'')"
| "admin_api_row (ListAuditLog _ _) = (''/api/audit-log'', GET, ''audit_log::list_audit_log'')"

fun member_page_row :: "member_page \<Rightarrow> string \<times> meth \<times> string" where
  "member_page_row Dashboard = (''/'', GET, ''pages::dashboard::show'')"
| "member_page_row CatalogPage = (''/catalog'', GET, ''pages::catalog::show'')"
| "member_page_row (ItemPage _) = (''/catalog/{id}'', GET, ''pages::catalog::item_detail'')"
| "member_page_row (RequestItem _) = (''/catalog/{id}/request'', POST, ''pages::catalog::start_request'')"
| "member_page_row RequestsPage = (''/requests'', GET, ''pages::requests::list_mine'')"
| "member_page_row (RequestPage _) = (''/requests/{id}'', GET, ''pages::requests::show'')"
| "member_page_row (AnswerForm _ _ _) = (''/requests/{id}/answer'', POST, ''pages::requests::submit_answer'')"
| "member_page_row ApprovalsPage = (''/approvals'', GET, ''pages::approvals::list_mine'')"
| "member_page_row (DecideForm _ _ _) = (''/approvals/{id}/decide'', POST, ''pages::approvals::decide'')"

fun admin_page_row :: "admin_page \<Rightarrow> string \<times> meth \<times> string" where
  "admin_page_row UsersPage = (''/admin/users'', GET, ''admin::users::list'')"
| "admin_page_row (CreateUserForm _ _ _ _) = (''/admin/users'', POST, ''admin::users::create'')"
| "admin_page_row (UpdateUserForm _ _ _ _ _) = (''/admin/users/{id}/update'', POST, ''admin::users::update'')"
| "admin_page_row (DeactivateUserForm _) = (''/admin/users/{id}/deactivate'', POST, ''admin::users::deactivate'')"
| "admin_page_row DepartmentsPage = (''/admin/departments'', GET, ''admin::departments::list'')"
| "admin_page_row (CreateDepartmentForm _ _) = (''/admin/departments'', POST, ''admin::departments::create'')"
| "admin_page_row (UpdateDepartmentForm _ _ _) = (''/admin/departments/{id}/update'', POST, ''admin::departments::update'')"
| "admin_page_row (DeleteDepartmentForm _) = (''/admin/departments/{id}/delete'', POST, ''admin::departments::delete'')"
| "admin_page_row SettingsPage = (''/admin/settings'', GET, ''admin::settings::show'')"
| "admin_page_row (SettingsForm _ _ _) = (''/admin/settings'', POST, ''admin::settings::update'')"
| "admin_page_row WorkflowsPage = (''/admin/workflows'', GET, ''admin::workflows::list'')"
| "admin_page_row (CreateWorkflow _) = (''/admin/workflows'', POST, ''admin::workflows::create'')"
| "admin_page_row (PublishForm _) = (''/admin/workflows/{id}/publish'', POST, ''admin::workflows::publish'')"
| "admin_page_row (UnpublishForm _) = (''/admin/workflows/{id}/unpublish'', POST, ''admin::workflows::unpublish'')"
| "admin_page_row (CatalogAdminPage _ _) = (''/admin/catalog'', GET, ''admin::catalog::list'')"
| "admin_page_row (CreateItemForm _) = (''/admin/catalog'', POST, ''admin::catalog::create'')"
| "admin_page_row (ToggleItemForm _ _) = (''/admin/catalog/{id}/toggle'', POST, ''admin::catalog::toggle'')"
| "admin_page_row (EditItemPage _) = (''/admin/catalog/{id}/edit'', GET, ''admin::catalog::edit_form'')"
| "admin_page_row (EditItemForm _ _) = (''/admin/catalog/{id}/edit'', POST, ''admin::catalog::edit'')"
| "admin_page_row LoadStarter = (''/admin/catalog/load-starter'', POST, ''admin::catalog::load_starter'')"
| "admin_page_row (AuditLogAdminPage _) = (''/admin/audit-log'', GET, ''admin::audit_log::list'')"

fun request_row :: "http_request \<Rightarrow> string \<times> meth \<times> string" where
  "request_row (Public req) = public_row req"
| "request_row (MemberApi _ req) = member_api_row req"
| "request_row (AdminApi _ req) = admin_api_row req"
| "request_row (MemberPage _ _ _ req) = member_page_row req"
| "request_row (AdminPage _ _ _ req) = admin_page_row req"

fun behind_session :: "http_request \<Rightarrow> bool" where
  "behind_session (MemberPage _ _ _ _) = True"
| "behind_session (AdminPage _ _ _ _) = True"
| "behind_session _ = False"

definition rows_of :: "route_table \<Rightarrow> (string \<times> meth \<times> string) list" where
  "rows_of table = concat (map (\<lambda>(path, methods). map (\<lambda>(m, h). (path, m, h)) methods) table)"

lemma rows_of_append: "rows_of (t @ u) = rows_of t @ rows_of u"
  by (simp add: rows_of_def)

definition open_routes :: route_table where
  "open_routes = health_routes @ [(''/uploads/{*path}'', [(GET, ''uploads::serve'')])] @
     nest ''/api'' api_router @ take 2 web_routes @ page_auth_routes"

lemma router_parts: "build_router = open_routes @ protected_routes"
  by (simp add: build_router_def open_routes_def web_routes_def)

text \<open>The rows of one kind of request are those of one request per constructor.\<close>

lemma range_of_list: "(\<And>x. f x \<in> set (map f xs)) \<Longrightarrow> range f = set (map f xs)"
  by auto

lemma range_auth_api: "range auth_api_row = set (map auth_api_row
    [ApiLogin [] [], ApiRegister [] [] [], ApiRefresh [], ApiLogout [], ApiResetRequest [], ApiResetConfirm [] []])"
proof (rule range_of_list)
  fix x show "auth_api_row x \<in> set (map auth_api_row
    [ApiLogin [] [], ApiRegister [] [] [], ApiRefresh [], ApiLogout [], ApiResetRequest [], ApiResetConfirm [] []])"
    by (cases x) simp_all
qed

lemma range_sso_api: "range sso_api_row = set (map sso_api_row [SsoLogin, SsoCallback None None None, SsoToken []])"
proof (rule range_of_list)
  fix x show "sso_api_row x \<in> set (map sso_api_row [SsoLogin, SsoCallback None None None, SsoToken []])"
    by (cases x) simp_all
qed

lemma range_sign_in: "range sign_in_row = set (map sign_in_row
    [ShowLogin None None False False, SubmitLogin [] [] None, SsoComplete [] None, WebLogout None,
     ShowForgotPassword, SubmitForgotPassword [], ShowResetPassword None, SubmitResetPassword [] []])"
proof (rule range_of_list)
  fix x show "sign_in_row x \<in> set (map sign_in_row
    [ShowLogin None None False False, SubmitLogin [] [] None, SsoComplete [] None, WebLogout None,
     ShowForgotPassword, SubmitForgotPassword [], ShowResetPassword None, SubmitResetPassword [] []])"
    by (cases x) simp_all
qed

lemma range_public: "range public_row = set (map public_row [Health, StyleCss, WorkflowBuilderJs, Uploaded [], PublicConfig]) \<union>
    range auth_api_row \<union> range sso_api_row \<union> range sign_in_row"
proof (intro equalityI image_subsetI Un_least)
  fix x show "public_row x \<in> set (map public_row [Health, StyleCss, WorkflowBuilderJs, Uploaded [], PublicConfig]) \<union>
    range auth_api_row \<union> range sso_api_row \<union> range sign_in_row"
    by (cases x) auto
  fix r show "auth_api_row r \<in> range public_row" by (rule range_eqI [of _ _ "Auth r"]) simp
  fix r show "sso_api_row r \<in> range public_row" by (rule range_eqI [of _ _ "Sso r"]) simp
  fix r show "sign_in_row r \<in> range public_row" by (rule range_eqI [of _ _ "SignIn r"]) simp
qed (auto simp del: public_row.simps)

lemma range_member_api: "range member_api_row = set (map member_api_row
    [Me, ListDepartments, ListCatalog True, ListMyInstances, StartInstance 0, GetInstance 0, SubmitAnswer 0 [] JNull,
     ListMyApprovals, DecideApproval 0 Approve None])"
proof (rule range_of_list)
  fix x show "member_api_row x \<in> set (map member_api_row
    [Me, ListDepartments, ListCatalog True, ListMyInstances, StartInstance 0, GetInstance 0, SubmitAnswer 0 [] JNull,
     ListMyApprovals, DecideApproval 0 Approve None])"
    by (cases x) simp_all
qed

lemma range_member_page: "range member_page_row = set (map member_page_row
    [Dashboard, CatalogPage, ItemPage 0, RequestItem 0, RequestsPage, RequestPage 0, AnswerForm 0 [] [],
     ApprovalsPage, DecideForm 0 [] None])"
proof (rule range_of_list)
  fix x show "member_page_row x \<in> set (map member_page_row
    [Dashboard, CatalogPage, ItemPage 0, RequestItem 0, RequestsPage, RequestPage 0, AnswerForm 0 [] [],
     ApprovalsPage, DecideForm 0 [] None])"
    by (cases x) simp_all
qed

text \<open>Any record will do as the body of an administrator's request.\<close>

definition admin_api_examples :: "admin_api list" where
  "admin_api_examples = [ListUsers True, CreateUser undefined, UpdateUserRow 0 undefined, DeactivateUser 0,
     CreateDepartment undefined, UpdateDepartmentRow 0 undefined, DeleteDepartment 0, UploadDepartmentLogo 0 None [],
     RemoveDepartmentLogo 0, UpdateSettings undefined, UploadLogo None [], RemoveLogo, CreateItem undefined,
     UpdateItem 0 undefined, DeactivateItem 0, ListDefinitions True, CreateDefinition undefined, Publish 0,
     Unpublish 0, ListAuditLog None None]"

lemma range_admin_api: "range admin_api_row = set (map admin_api_row admin_api_examples)"
proof (rule range_of_list)
  fix x show "admin_api_row x \<in> set (map admin_api_row admin_api_examples)"
    by (cases x) (simp_all add: admin_api_examples_def)
qed

definition admin_page_examples :: "admin_page list" where
  "admin_page_examples = [UsersPage, CreateUserForm [] [] [] [], UpdateUserForm 0 [] None None None, DeactivateUserForm 0,
     DepartmentsPage, CreateDepartmentForm [] None, UpdateDepartmentForm 0 [] None, DeleteDepartmentForm 0,
     SettingsPage, SettingsForm [] True [], WorkflowsPage, CreateWorkflow undefined, PublishForm 0, UnpublishForm 0,
     CatalogAdminPage None None, CreateItemForm undefined, ToggleItemForm 0 True, EditItemPage 0,
     EditItemForm 0 undefined, LoadStarter, AuditLogAdminPage None]"

lemma range_admin_page: "range admin_page_row = set (map admin_page_row admin_page_examples)"
proof (rule range_of_list)
  fix x show "admin_page_row x \<in> set (map admin_page_row admin_page_examples)"
    by (cases x) (simp_all add: admin_page_examples_def)
qed

lemma protected_rows: "set (rows_of protected_routes) = range member_page_row \<union> range admin_page_row"
proof -
  have "rows_of protected_routes = map member_page_row
    [Dashboard, CatalogPage, ItemPage 0, RequestItem 0, RequestsPage, RequestPage 0, AnswerForm 0 [] [],
     ApprovalsPage, DecideForm 0 [] None] @ map admin_page_row admin_page_examples"
    by (simp add: rows_of_def route_table_defs admin_page_examples_def)
  then show ?thesis by (simp only: range_member_page range_admin_page set_append)
qed

lemma module_rows:
  "rows_of (nest ''/api'' auth_routes) = map auth_api_row
     [ApiLogin [] [], ApiRegister [] [] [], ApiRefresh [], ApiLogout [], ApiResetRequest [], ApiResetConfirm [] []]"
  "rows_of (nest ''/api'' sso_routes) = map sso_api_row [SsoLogin, SsoCallback None None None, SsoToken []]"
  "rows_of (nest ''/api'' settings_routes) = public_row PublicConfig #
     map admin_api_row [UpdateSettings undefined, UploadLogo None [], RemoveLogo]"
  "rows_of (nest ''/api'' users_routes) = member_api_row Me #
     map admin_api_row [ListUsers True, CreateUser undefined, UpdateUserRow 0 undefined, DeactivateUser 0]"
  "rows_of (nest ''/api'' departments_routes) = member_api_row ListDepartments #
     map admin_api_row [CreateDepartment undefined, UpdateDepartmentRow 0 undefined, DeleteDepartment 0,
       UploadDepartmentLogo 0 None [], RemoveDepartmentLogo 0]"
  "rows_of (nest ''/api'' catalog_routes) = member_api_row (ListCatalog True) #
     map admin_api_row [CreateItem undefined, UpdateItem 0 undefined, DeactivateItem 0]"
  "rows_of (nest ''/api'' workflow_definitions_routes) =
     map admin_api_row [ListDefinitions True, CreateDefinition undefined, Publish 0, Unpublish 0]"
  "rows_of (nest ''/api'' instances_routes) =
     map member_api_row [ListMyInstances, StartInstance 0, GetInstance 0, SubmitAnswer 0 [] JNull]"
  "rows_of (nest ''/api'' approvals_routes) = map member_api_row [ListMyApprovals, DecideApproval 0 Approve None]"
  "rows_of (nest ''/api'' audit_log_routes) = [admin_api_row (ListAuditLog None None)]"
  "rows_of page_auth_routes = map sign_in_row
     [ShowLogin None None False False, SubmitLogin [] [] None, SsoComplete [] None, WebLogout None,
      ShowForgotPassword, SubmitForgotPassword [], ShowResetPassword None, SubmitResetPassword [] []]"
  "rows_of (health_routes @ [(''/uploads/{*path}'', [(GET, ''uploads::serve'')])]) = map public_row [Health, Uploaded []]"
  "rows_of (take 2 web_routes) = map public_row [StyleCss, WorkflowBuilderJs]"
  by (simp_all add: rows_of_def route_table_defs)

lemma nest_append: "nest base (t @ u) = nest base t @ nest base u"
  by (simp add: nest_def)

lemma open_rows: "set (rows_of open_routes) = range public_row \<union> range member_api_row \<union> range admin_api_row"
proof -
  have open_parts: "rows_of open_routes = rows_of (health_routes @ [(''/uploads/{*path}'', [(GET, ''uploads::serve'')])]) @
      rows_of (nest ''/api'' api_router) @ rows_of (take 2 web_routes) @ rows_of page_auth_routes"
    by (simp only: open_routes_def rows_of_append append_assoc)
  show ?thesis
    unfolding open_parts range_public range_auth_api range_sso_api range_sign_in range_member_api range_admin_api
      api_router_def nest_append rows_of_append [of "nest _ _"] module_rows admin_api_examples_def
      list.map set_append list.set
    by blast
qed

lemma rows_disjoint: "set (rows_of open_routes) \<inter> set (rows_of protected_routes) = {}"
proof -
  let ?page = "\<lambda>r. take 4 (fst r) \<in> {''/'', ''/cat'', ''/req'', ''/app'', ''/adm''}"
  have "list_all ?page (rows_of protected_routes)" by (simp add: rows_of_def route_table_defs)
  moreover have "list_all (\<lambda>r. \<not> ?page r) (rows_of open_routes)"
    by (simp add: rows_of_def open_routes_def route_table_defs)
  ultimately show ?thesis by (auto simp: list_all_iff)
qed

lemma router_rows: "set (rows_of build_router) = range request_row"
proof -
  have requests: "range request_row = range public_row \<union> range member_api_row \<union> range admin_api_row \<union>
      (range member_page_row \<union> range admin_page_row)"
  proof (intro equalityI image_subsetI Un_least)
    fix r show "request_row r \<in> range public_row \<union> range member_api_row \<union> range admin_api_row \<union>
      (range member_page_row \<union> range admin_page_row)"
      by (cases r) auto
    fix r show "public_row r \<in> range request_row" by (rule range_eqI [of _ _ "Public r"]) simp
    fix r show "member_api_row r \<in> range request_row" by (rule range_eqI [of _ _ "MemberApi None r"]) simp
    fix r show "admin_api_row r \<in> range request_row" by (rule range_eqI [of _ _ "AdminApi None r"]) simp
    fix r show "member_page_row r \<in> range request_row" by (rule range_eqI [of _ _ "MemberPage None None [] r"]) simp
    fix r show "admin_page_row r \<in> range request_row" by (rule range_eqI [of _ _ "AdminPage None None [] r"]) simp
  qed
  then show ?thesis
    by (simp only: router_parts rows_of_append set_append open_rows protected_rows)
qed

lemma protected_iff_session: "request_row req \<in> set (rows_of protected_routes) \<longleftrightarrow> behind_session req"
proof (cases "behind_session req")
  case True
  then show ?thesis by (cases req) (auto simp: protected_rows)
next
  case False
  then have "request_row req \<in> set (rows_of open_routes)" by (cases req) (auto simp: open_rows)
  then show ?thesis using rows_disjoint False by blast
qed

text \<open>C32: the router and the model agree. The rows (path, method, handler) \<^verbatim>\<open>build_router\<close> registers
  are exactly those of the requests the model serves, none missing and none extra; the rows
  merged under the session middleware are exactly the pages that need a session, so no sign-in
  page is locked; and a request for such a row is served through the middleware, so no page is
  left open.\<close>

theorem every_route_is_served:
  "set (rows_of build_router) = range request_row \<and>
   (request_row req \<in> set (rows_of protected_routes) \<longleftrightarrow> behind_session req) \<and>
   (request_row req \<in> set (rows_of protected_routes) \<longrightarrow>
     (\<exists>access refresh path page. http_serve E st req = with_session E (st_state st) access refresh path page))"
  unfolding protected_iff_session by (cases req) (auto simp: router_rows)

section \<open>Witnesses\<close>

theorem every_route_is_served_witness:
  "(''/admin/users/{id}/deactivate'', POST, ''admin::users::deactivate'') \<in> set (rows_of protected_routes) \<and>
   (\<exists>access refresh path page. http_serve E0 sample_site (AdminPage None None ''/admin/users'' (DeactivateUserForm 2)) =
      with_session E0 (st_state sample_site) access refresh path page)"
proof -
  let ?req = "AdminPage None None ''/admin/users'' (DeactivateUserForm 2)"
  have "request_row ?req \<in> set (rows_of protected_routes)"
    by (simp add: rows_of_def route_table_defs)
  then show ?thesis using every_route_is_served [of ?req E0 sample_site] by simp
qed

theorem routes_unambiguous_witness:
  "\<exists>i j. i < j \<and> j < length build_router \<and> route_matches (fst (build_router ! i)) ''/api/users/me'' \<and>
     route_matches (fst (build_router ! j)) ''/api/users/me'' \<and> snd (build_router ! j) = [(PATCH, ''users::update_user'')]"
proof -
  have both: "build_router ! 14 = (''/api/users/me'', [(GET, ''users::me'')])"
    "build_router ! 16 = (''/api/users/{id}'', [(PATCH, ''users::update_user'')])" "16 < length build_router"
    by (simp_all add: route_table_defs)
  then have m: "route_matches (fst (build_router ! 14)) ''/api/users/me''"
    "route_matches (fst (build_router ! 16)) ''/api/users/me''"
    by (simp_all add: route_matches_def router_eval del: split_on.simps(2))
  from routes_unambiguous [OF _ both(3) m] show ?thesis using m both(3) by (intro exI [of _ 14] exI [of _ 16]) simp
qed

end
