(* ===== verification/Interleaving.thy ===== *)
theory Interleaving
  imports System Auth
begin

text \<open>
  Handlers that overlap. tokio runs the handlers of concurrent requests interleaved: a handler
  can be overtaken at every \<^verbatim>\<open>.await\<close>, which here means between any two of its statements. This
  theory cuts the handlers whose correctness depends on that into the segments between their
  statements, one program counter per segment, and lets any number of them run against one
  database together with the statements of every other handler.

  The segments are those of \<open>decide\<close> (\<^verbatim>\<open>approvals/src/service.rs\<close>) and of the poller's loop body
  (\<^verbatim>\<open>poller.rs\<close>), of redeeming a refresh token (\<^verbatim>\<open>auth.rs\<close>), and the two halves of
  \<open>submit_answer\<close> (\<^verbatim>\<open>orchestrator.rs\<close>): each is shown to be the handler when nothing overtakes it.

  Shown: of any number of overlapping decisions and expiries of one approval at most one takes
  effect; a refresh token presented twice at once can be redeemed twice; an answer submitted
  twice at once opens two tickets.
\<close>

section \<open>Interleavings\<close>

text \<open>One of the handlers takes its next segment, or other handlers run statements of theirs.\<close>

inductive interleave ::
    "env \<Rightarrow> ('pc \<Rightarrow> world \<Rightarrow> 'pc \<times> world) \<Rightarrow> 'pc list \<times> world \<Rightarrow> 'pc list \<times> world \<Rightarrow> bool"
    for E :: env and step :: "'pc \<Rightarrow> world \<Rightarrow> 'pc \<times> world" where
  own: "i < length pcs \<Longrightarrow> step (pcs ! i) w = (pc, w') \<Longrightarrow> interleave E step (pcs, w) (pcs[i := pc], w')"
| others: "(db_step E)\<^sup>*\<^sup>* (w_db w) (w_db w') \<Longrightarrow> interleave E step (pcs, w) (pcs, w')"

text \<open>A fact about one handler and the database that its own segments establish and that every
  statement preserves, and a fact about two handlers, hold of all of them in every interleaving.\<close>

locale overlapping =
  fixes E :: env and step :: "'pc \<Rightarrow> world \<Rightarrow> 'pc \<times> world"
    and I :: "db \<Rightarrow> bool" and local_ok :: "'pc \<Rightarrow> db \<Rightarrow> bool" and compatible :: "'pc \<Rightarrow> 'pc \<Rightarrow> bool"
  assumes statements: "step pc w = (pc', w') \<Longrightarrow> (db_step E)\<^sup>*\<^sup>* (w_db w) (w_db w')"
    and base: "db_step E d d' \<Longrightarrow> I d \<Longrightarrow> I d'"
    and stable: "db_step E d d' \<Longrightarrow> I d \<Longrightarrow> local_ok pc d \<Longrightarrow> local_ok pc d'"
    and progress: "step pc w = (pc', w') \<Longrightarrow> I (w_db w) \<Longrightarrow> local_ok pc (w_db w) \<Longrightarrow> local_ok pc' (w_db w')"
    and apart: "step pc w = (pc', w') \<Longrightarrow> I (w_db w) \<Longrightarrow> local_ok pc (w_db w) \<Longrightarrow> local_ok other (w_db w) \<Longrightarrow>
      compatible pc other \<and> compatible other pc \<Longrightarrow> compatible pc' other \<and> compatible other pc'"
begin

definition all_ok :: "'pc list \<times> world \<Rightarrow> bool" where
  "all_ok c \<longleftrightarrow> I (w_db (snd c)) \<and> (\<forall>pc \<in> set (fst c). local_ok pc (w_db (snd c))) \<and>
     (\<forall>i j. i < length (fst c) \<and> j < length (fst c) \<and> i \<noteq> j \<longrightarrow> compatible (fst c ! i) (fst c ! j))"

lemma steps_base: "(db_step E)\<^sup>*\<^sup>* d d' \<Longrightarrow> I d \<Longrightarrow> I d'"
  by (induction rule: rtranclp_induct) (auto intro: base)

lemma steps_stable: "(db_step E)\<^sup>*\<^sup>* d d' \<Longrightarrow> I d \<Longrightarrow> local_ok pc d \<Longrightarrow> local_ok pc d'"
proof (induction rule: rtranclp_induct)
  case (step d1 d2)
  then show ?case using stable steps_base by blast
qed simp

lemma interleave_ok:
  assumes "interleave E step c c'" "all_ok c"
  shows "all_ok c'"
  using assms
proof (cases rule: interleave.cases)
  case (own i pcs w pc w')
  have I: "I (w_db w)" and loc: "\<And>p. p \<in> set pcs \<Longrightarrow> local_ok p (w_db w)"
    and comp: "\<And>i j. i < length pcs \<Longrightarrow> j < length pcs \<Longrightarrow> i \<noteq> j \<Longrightarrow> compatible (pcs ! i) (pcs ! j)"
    using assms(2) own(1) by (auto simp: all_ok_def)
  note st = statements [OF own(4)]
  have me: "local_ok (pcs ! i) (w_db w)" using loc own(3) by simp
  have "local_ok p (w_db w')" if "p \<in> set (pcs[i := pc])" for p
    using set_update_subset_insert [of pcs i pc] that loc steps_stable [OF st I] progress [OF own(4) I me] by auto
  moreover have "compatible pc (pcs ! j) \<and> compatible (pcs ! j) pc" if "j < length pcs" "j \<noteq> i" for j
    using apart [OF own(4) I me, of "pcs ! j"] loc comp own(3) that by simp
  then have "compatible (pcs[i := pc] ! k) (pcs[i := pc] ! j)"
    if "k < length pcs" "j < length pcs" "k \<noteq> j" for k j
    using that comp own(3) by (auto simp: nth_list_update)
  ultimately show ?thesis using own(2) steps_base [OF st I] by (simp add: all_ok_def)
next
  case (others w w' pcs)
  then show ?thesis using assms(2) steps_base steps_stable by (auto simp: all_ok_def)
qed

lemma interleavings_ok: "(interleave E step)\<^sup>*\<^sup>* c c' \<Longrightarrow> all_ok c \<Longrightarrow> all_ok c'"
  by (induction rule: rtranclp_induct) (auto intro: interleave_ok)

end

section \<open>Deciders of one approval\<close>

text \<open>A person's request to decide (who, how, with which comment) runs through three segments, one
  per statement of \<open>decide\<close>; the poller's loop body is one statement. \<open>Flipped\<close> and \<open>Expired_it\<close> are
  where the code goes on to resume the workflow.\<close>

datatype decider =
    Asked uuid ApprovalDecision "string option"
  | Checked ApprovalDecision "string option"
  | Flipped ApprovalDecision
  | Replied ApprovalDecision "(ApprovalsError, PendingApproval) res"
  | Expiring
  | Expired_it
  | Expiry_over "(DbError, bool) res"

fun decider_step :: "env \<Rightarrow> uuid \<Rightarrow> decider \<Rightarrow> world \<Rightarrow> decider \<times> world" where
  "decider_step E approval_id (Asked user_id decision comment) w =
     (case map_err Db (approvals_get_by_id E approval_id) w of
        (Ok None, w') \<Rightarrow> (Replied decision (Err (ApprovalNotFound approval_id)), w')
      | (Ok (Some approval), w') \<Rightarrow>
          if pa_approver_user_id approval \<noteq> user_id
          then (Replied decision (Err (NotTheApprover approval_id user_id)), w')
          else if pa_status approval \<noteq> Pending
          then (Replied decision (Err (AlreadyDecided approval_id)), w')
          else (Checked decision comment, w')
      | (Err e, w') \<Rightarrow> (Replied decision (Err e), w')
      | (Panic, w') \<Rightarrow> (Replied decision Panic, w'))"
| "decider_step E approval_id (Checked decision comment) w =
     (case map_err Db (approvals_decide E approval_id (decision_status decision) comment) w of
        (Ok flipped, w') \<Rightarrow>
          if flipped then (Flipped decision, w')
          else (Replied decision (Err (AlreadyDecided approval_id)), w')
      | (Err e, w') \<Rightarrow> (Replied decision (Err e), w')
      | (Panic, w') \<Rightarrow> (Replied decision Panic, w'))"
| "decider_step E approval_id (Flipped decision) w =
     (case map_err Db (approvals_get_by_id E approval_id) w of
        (Ok None, w') \<Rightarrow> (Replied decision (Err (ApprovalNotFound approval_id)), w')
      | (Ok (Some decided), w') \<Rightarrow> (Replied decision (Ok decided), w')
      | (Err e, w') \<Rightarrow> (Replied decision (Err e), w')
      | (Panic, w') \<Rightarrow> (Replied decision Panic, w'))"
| "decider_step E approval_id Expiring w =
     (case approvals_decide E approval_id Expired (Some expiry_comment) w of
        (Ok True, w') \<Rightarrow> (Expired_it, w')
      | (r, w') \<Rightarrow> (Expiry_over r, w'))"
| "decider_step E approval_id pc w = (pc, w)"

text \<open>Without overlap the three segments are \<open>decide\<close>.\<close>

lemma decider_alone:
  "((\<lambda>(pc, w). decider_step E i pc w) ^^ 3) (Asked u dec c, w) =
     (case decide E i u dec c w of (r, w') \<Rightarrow> (Replied dec r, w'))"
  unfolding numeral_3_eq_3 decide_def
  by (auto simp: bindM_apply map_err_apply split: res.splits prod.splits option.splits)

lemma approvals_decide_OkE:
  assumes "approvals_decide E i st c w = (Ok flipped, w')"
  obtains now where "w_db w' = snd (approvals_decide_stmt i st c now (w_db w))"
    "flipped \<longleftrightarrow> (\<exists>r \<in> set (db_approvals (w_db w)). pa_id r = i \<and> pa_status r = Pending)"
proof -
  obtain n where n: "sql E (approvals_decide_stmt i st c) w = (Ok n, w')" "flipped = (0 < n)"
    using assms unfolding approvals_decide_def by (auto elim!: bindM_OkE)
  from n(1) show ?thesis
  proof (rule sql_OkE)
    fix d assume "approvals_decide_stmt i st c (env_time E (w_io w)) (w_db w) = (Inr n, d)"
      "w' = w\<lparr>w_io := Suc (w_io w), w_db := d\<rparr>"
    then show thesis
      by (intro that [of "env_time E (w_io w)"]) (auto simp: n(2) approvals_decide_stmt_def Let_def filter_empty_conv)
  qed
qed

text \<open>The status a decider has given the approval, once it took effect.\<close>

fun effect :: "decider \<Rightarrow> ApprovalStatus option" where
  "effect (Flipped decision) = Some (decision_status decision)"
| "effect (Replied decision (Ok _)) = Some (decision_status decision)"
| "effect Expired_it = Some Expired"
| "effect _ = None"

definition has_status :: "uuid \<Rightarrow> ApprovalStatus \<Rightarrow> db \<Rightarrow> bool" where
  "has_status i st d \<longleftrightarrow> (\<exists>a \<in> set (db_approvals d). pa_id a = i \<and> pa_status a = st)"

fun decider_ok :: "uuid \<Rightarrow> decider \<Rightarrow> db \<Rightarrow> bool" where
  "decider_ok i (Flipped decision) d \<longleftrightarrow> has_status i (decision_status decision) d"
| "decider_ok i (Replied decision (Ok a)) d \<longleftrightarrow>
     has_status i (decision_status decision) d \<and> pa_id a = i \<and> pa_status a = decision_status decision"
| "decider_ok i Expired_it d \<longleftrightarrow> has_status i Expired d"
| "decider_ok i _ d \<longleftrightarrow> True"

lemma decision_not_pending [simp]: "decision_status dec \<noteq> Pending"
  by (cases dec) simp_all

lemma effect_ok: "effect pc = Some st \<Longrightarrow> decider_ok i pc d \<Longrightarrow> has_status i st d \<and> st \<noteq> Pending"
  by (cases "(i, pc, d)" rule: decider_ok.cases) auto

lemma has_status_step: "db_step E d d' \<Longrightarrow> has_status i st d \<Longrightarrow> st \<noteq> Pending \<Longrightarrow> has_status i st d'"
  by (fastforce simp: has_status_def same_request_def dest: approval_step)

lemma has_status_unique:
  assumes "db_wf E d" "has_status i st d" "a \<in> set (db_approvals d)" "pa_id a = i"
  shows "pa_status a = st"
  using assms by (auto simp: has_status_def db_wf_def approvals_ok_def dest: uniq_eqD)

lemma decide_sets_status:
  assumes "approvals_decide E i st c w = (Ok True, w')"
  shows "has_status i st (w_db w')"
proof -
  obtain now r where now: "w_db w' = snd (approvals_decide_stmt i st c now (w_db w))"
    and r: "r \<in> set (db_approvals (w_db w))" "pa_id r = i" "pa_status r = Pending"
    using assms by (auto elim: approvals_decide_OkE)
  have "r\<lparr>pa_status := st, pa_comment := c, pa_decided_at := Some now\<rparr> \<in> set (db_approvals (w_db w'))"
    using r by (simp add: now approvals_decide_stmt_def Let_def set_update_rows image_iff) blast
  then show ?thesis unfolding has_status_def by (rule bexI [rotated]) (simp add: r(2))
qed

lemma decider_step_statements:
  assumes "decider_step E i pc w = (pc', w')"
  shows "(db_step E)\<^sup>*\<^sup>* (w_db w) (w_db w')"
proof -
  have kept: "(db_step E)\<^sup>*\<^sup>* (w_db w) (w_db w1)"
    if "m w = (r, w1)" "\<And>d0. keeps (\<lambda>w. (db_step E)\<^sup>*\<^sup>* d0 (w_db w)) m" for m :: "('e, 'a) act" and r w1
    using keepsD' [OF that(2) _ that(1), of "w_db w"] by simp
  have get: "(db_step E)\<^sup>*\<^sup>* (w_db w) (w_db w1)" if "map_err Db (approvals_get_by_id E i) w = (r, w1)" for r w1
    using that by (rule kept) (intro keeps_intros)
  have get': "(db_step E)\<^sup>*\<^sup>* (w_db w) (w_db w1)" if "approvals_get_by_id E i w = (r, w1)" for r w1
    using that by (rule kept) (intro keeps_intros)
  have dec: "(db_step E)\<^sup>*\<^sup>* (w_db w) (w_db w1)" if "map_err Db (approvals_decide E i st c) w = (r, w1)" for st c r w1
    using that by (rule kept) (intro keeps_intros)
  have dec': "(db_step E)\<^sup>*\<^sup>* (w_db w) (w_db w1)" if "approvals_decide E i st c w = (r, w1)" for st c r w1
    using that by (rule kept) (intro keeps_intros)
  show ?thesis
    using assms
    by (cases "(E, i, pc, w)" rule: decider_step.cases)
      (auto dest: get get' dec dec' split: prod.splits res.splits option.splits if_splits bool.splits)
qed

interpretation deciders: overlapping E "decider_step E i" "db_wf E" "decider_ok i"
    "\<lambda>p q. effect p = None \<or> effect q = None" for E i
proof
  fix pc pc' other :: decider and d d' and w w' :: world
  show "(db_step E)\<^sup>*\<^sup>* (w_db w) (w_db w')" if "decider_step E i pc w = (pc', w')"
    using that by (rule decider_step_statements)
  show "db_wf E d'" if "db_step E d d'" "db_wf E d"
    using that by (rule db_step_wf)
  show "decider_ok i pc d'" if "db_step E d d'" "db_wf E d" "decider_ok i pc d"
    using that by (cases "(i, pc, d)" rule: decider_ok.cases) (auto intro: has_status_step)
  show ok: "decider_ok i pc' (w_db w')"
    if step: "decider_step E i pc w = (pc', w')" and wf: "db_wf E (w_db w)" and pc: "decider_ok i pc (w_db w)"
  proof (cases pc)
    case (Flipped decision)
    have "has_status i (decision_status decision) (w_db w) \<and> w_db w' = w_db w" if "pc' = Replied decision (Ok a)" for a
      using that step pc Flipped
      by (auto dest!: approvals_get_Ok split: prod.splits res.splits option.splits)
    moreover have "pa_id a = i \<and> a \<in> set (db_approvals (w_db w))" if "pc' = Replied decision (Ok a)" for a
      using that step Flipped
      by (auto dest!: approvals_get_Ok find_row_SomeD [OF sym] split: prod.splits res.splits option.splits)
    ultimately show ?thesis
      using step Flipped has_status_unique [OF wf]
      by (auto split: prod.splits res.splits option.splits)
  next
    case (Checked decision comment)
    then show ?thesis
      using step decide_sets_status [of E i "decision_status decision" comment w w']
      by (auto split: prod.splits res.splits if_splits)
  next
    case Expiring
    then show ?thesis
      using step decide_sets_status [of E i Expired "Some expiry_comment" w w']
      by (auto split: prod.splits res.splits bool.splits)
  qed (use step pc in \<open>auto split: prod.splits res.splits option.splits if_splits\<close>)
  show "(effect pc' = None \<or> effect other = None) \<and> (effect other = None \<or> effect pc' = None)"
    if step: "decider_step E i pc w = (pc', w')" and wf: "db_wf E (w_db w)" and "decider_ok i pc (w_db w)"
      and other: "decider_ok i other (w_db w)"
      and apart: "(effect pc = None \<or> effect other = None) \<and> (effect other = None \<or> effect pc = None)"
  proof (cases "effect other")
    case (Some st)
    then have decided: "has_status i st (w_db w)" "st \<noteq> Pending" using effect_ok other by blast+
    have "\<not> f" if "approvals_decide E i st' c w = (Ok f, w1)" for st' c f w1
      using that decided has_status_unique [OF wf decided(1)] by (auto elim!: approvals_decide_OkE)
    then have "effect pc' = None"
      using step apart Some
      by (cases "(E, i, pc, w)" rule: decider_step.cases)
        (auto split: prod.splits res.splits option.splits if_splits bool.splits)
    then show ?thesis by simp
  qed simp
qed

text \<open>C10: of all the people and rounds of the poller that decide one approval at the same time, in
  whatever way their statements interleave with each other and with those of every other
  handler, at most one gets to resume the workflow. The status it gave is the one stored, and
  an answer that reports success carries the caller's own decision.\<close>

theorem one_decider_takes_effect:
  assumes "db_wf E (w_db w)" "\<forall>pc \<in> set pcs. pc = Expiring \<or> (\<exists>u dec c. pc = Asked u dec c)"
    and "(interleave E (decider_step E i))\<^sup>*\<^sup>* (pcs, w) (pcs', w')"
  shows "(\<forall>j k. j < length pcs' \<and> k < length pcs' \<and> effect (pcs' ! j) \<noteq> None \<and> effect (pcs' ! k) \<noteq> None \<longrightarrow> j = k) \<and>
    (\<forall>pc \<in> set pcs'. \<forall>st. effect pc = Some st \<longrightarrow> has_status i st (w_db w')) \<and>
    (\<forall>dec a. Replied dec (Ok a) \<in> set pcs' \<longrightarrow> pa_id a = i \<and> pa_status a = decision_status dec)"
proof -
  have start: "decider_ok i pc (w_db w) \<and> effect pc = None" if "pc \<in> set pcs" for pc
    using assms(2) that by auto
  have "deciders.all_ok E i (pcs, w)"
    using assms(1) start by (auto simp: deciders.all_ok_def)
  with assms(3) have ok: "deciders.all_ok E i (pcs', w')" by (rule deciders.interleavings_ok)
  then have pcs': "\<forall>pc \<in> set pcs'. decider_ok i pc (w_db w')"
    "\<And>j k. j < length pcs' \<Longrightarrow> k < length pcs' \<Longrightarrow> j \<noteq> k \<Longrightarrow> effect (pcs' ! j) = None \<or> effect (pcs' ! k) = None"
    by (auto simp: deciders.all_ok_def)
  have "pa_id a = i \<and> pa_status a = decision_status dec" if "Replied dec (Ok a) \<in> set pcs'" for dec a
    using bspec [OF pcs'(1) that] by simp
  moreover have "has_status i st (w_db w')" if "pc \<in> set pcs'" "effect pc = Some st" for pc st
    using effect_ok [OF that(2) bspec [OF pcs'(1) that(1)]] by simp
  moreover have "j = k" if "j < length pcs'" "k < length pcs'" "effect (pcs' ! j) \<noteq> None" "effect (pcs' ! k) \<noteq> None" for j k
    using pcs'(2) [OF that(1,2)] that(3,4) by blast
  ultimately show ?thesis by simp
qed

section \<open>A refresh token presented twice\<close>

datatype redeemer =
    Presented
  | Found uuid uuid
  | Redeemed "(ApiError, uuid) res"

fun redeemer_step :: "env \<Rightarrow> string \<Rightarrow> redeemer \<Rightarrow> world \<Rightarrow> redeemer \<times> world" where
  "redeemer_step E raw_token Presented w =
     (case map_err api_of_db (sql E (query (sessions_find_live E (env_sha256_hex E raw_token)))) w of
        (Ok None, w') \<Rightarrow> (Redeemed (Err Unauthorized), w')
      | (Ok (Some (session_id, user_id)), w') \<Rightarrow> (Found session_id user_id, w')
      | (Err e, w') \<Rightarrow> (Redeemed (Err e), w')
      | (Panic, w') \<Rightarrow> (Redeemed Panic, w'))"
| "redeemer_step E raw_token (Found session_id user_id) w =
     (case map_err api_of_db (sql E (sessions_revoke_stmt session_id)) w of
        (Ok _, w') \<Rightarrow> (Redeemed (Ok user_id), w')
      | (Err e, w') \<Rightarrow> (Redeemed (Err e), w')
      | (Panic, w') \<Rightarrow> (Redeemed Panic, w'))"
| "redeemer_step E raw_token (Redeemed r) w = (Redeemed r, w)"

lemma redeemer_alone:
  "((\<lambda>(pc, w). redeemer_step E tok pc w) ^^ 2) (Presented, w) =
     (case redeem_refresh_token E tok w of (r, w') \<Rightarrow> (Redeemed r, w'))"
  unfolding numeral_2_eq_2 redeem_refresh_token_def
  by (auto simp: bindM_apply map_err_apply split: res.splits prod.splits option.splits)

text \<open>Two requests with the same token, overlapping between \<^verbatim>\<open>SELECT\<close> and \<^verbatim>\<open>UPDATE\<close>, both succeed:
  the \<^verbatim>\<open>UPDATE\<close> does not ask whether the session is still live.\<close>

lemma token_redeemed_twice:
  "\<exists>w'. (interleave E0 (redeemer_step E0 ''t''))\<^sup>*\<^sup>* ([Presented, Presented], token_world)
     ([Redeemed (Ok 2), Redeemed (Ok 2)], w')"
proof -
  let ?I = "interleave E0 (redeemer_step E0 ''t'')"
  obtain w1 where w1: "redeemer_step E0 ''t'' Presented token_world = (Found 8 2, w1)"
    and w2: "\<exists>w2. redeemer_step E0 ''t'' Presented w1 = (Found 8 2, w2) \<and>
      (\<exists>w3. redeemer_step E0 ''t'' (Found 8 2) w2 = (Redeemed (Ok 2), w3) \<and>
        (\<exists>w4. redeemer_step E0 ''t'' (Found 8 2) w3 = (Redeemed (Ok 2), w4)))"
    by (simp add: sessions_find_live_def sessions_revoke_stmt_def same_text_def token_eval)
  then obtain w2 w3 w4 where w: "redeemer_step E0 ''t'' Presented w1 = (Found 8 2, w2)"
    "redeemer_step E0 ''t'' (Found 8 2) w2 = (Redeemed (Ok 2), w3)"
    "redeemer_step E0 ''t'' (Found 8 2) w3 = (Redeemed (Ok 2), w4)" by blast
  have "?I ([Presented, Presented], token_world) ([Found 8 2, Presented], w1)"
    using own [of 0 "[Presented, Presented]" "redeemer_step E0 ''t''" token_world] w1 by simp
  moreover have "?I ([Found 8 2, Presented], w1) ([Found 8 2, Found 8 2], w2)"
    using own [of 1 "[Found 8 2, Presented]" "redeemer_step E0 ''t''" w1] w(1) by simp
  moreover have "?I ([Found 8 2, Found 8 2], w2) ([Redeemed (Ok 2), Found 8 2], w3)"
    using own [of 0 "[Found 8 2, Found 8 2]" "redeemer_step E0 ''t''" w2] w(2) by simp
  moreover have "?I ([Redeemed (Ok 2), Found 8 2], w3) ([Redeemed (Ok 2), Redeemed (Ok 2)], w4)"
    using own [of 1 "[Redeemed (Ok 2), Found 8 2]" "redeemer_step E0 ''t''" w3] w(3) by simp
  ultimately show ?thesis by (meson converse_rtranclp_into_rtranclp rtranclp.rtrancl_refl)
qed

section \<open>An answer submitted twice\<close>

text \<open>The two halves of \<open>submit_answer\<close>: the first reads the request and computes the next step,
  the second acts on it.\<close>

definition submit_read ::
    "env \<Rightarrow> uuid \<Rightarrow> User \<Rightarrow> string \<Rightarrow> json \<Rightarrow>
     (ApiError, WorkflowDefinition \<times> WorkflowInstance \<times> Answers \<times> string \<times> Outcome) act" where
  "submit_read E instance_id requester field_key v =
     bindM (map_err api_of_db (instances_get_by_id E instance_id)) (\<lambda>i.
     bindM (ok_or (ApiNotFound ''request not found'') i) (\<lambda>instance.
     if wi_requester_user_id instance \<noteq> u_id requester then fail Forbidden
     else if wi_status instance \<noteq> InProgress
     then fail (Conflict ''this request is not currently awaiting input'')
     else
       bindM (map_err api_of_db
                (definitions_get_by_id E (wi_workflow_definition_id instance))) (\<lambda>d.
       bindM (ok_or Internal d) (\<lambda>definition.
       let (result, answers) = engine_submit_answer (wd_graph definition)
             (wi_current_step_id instance) (answers_map (wi_answers_json instance)) field_key v
       in bindM (map_err api_of_engine (lift_sum result)) (\<lambda>(step_id, outcome).
          return (definition, instance, answers, step_id, outcome))))))"

definition submit_apply ::
    "env \<Rightarrow> Deps \<Rightarrow> WorkflowDefinition \<times> WorkflowInstance \<times> Answers \<times> string \<times> Outcome \<Rightarrow>
     User \<Rightarrow> (world, ApiError, WorkflowInstance) run" where
  "submit_apply E deps computed requester =
     (case computed of (definition, instance, answers, step_id, outcome) \<Rightarrow>
        apply_outcome E deps definition (wi_id instance) (u_id requester) answers step_id outcome)"

lemma submit_answer_halves:
  "submit_answer E deps i requester k v =
     then_run (submit_read E i requester k v) (\<lambda>computed. submit_apply E deps computed requester)"
  by (simp add: submit_answer_def submit_read_def submit_apply_def)

text \<open>Two submissions of the same answer (a double click) whose first halves both run before a
  second half saves the progress: both succeed and the target system gets two tickets for the
  one request. Nothing in the second half asks whether the request is still where it was.\<close>

lemma answer_dispatched_twice:
  "\<exists>x w1 w2 w3 w4 r r'.
     submit_read E1 5 sample_requester ''device'' (JString ''mouse'') asking_world = (Ok x, w1) \<and>
     submit_read E1 5 sample_requester ''device'' (JString ''mouse'') w1 = (Ok x, w2) \<and>
     submit_apply E1 sample_deps x sample_requester w2 = Some (Ok r, w3) \<and>
     submit_apply E1 sample_deps x sample_requester w3 = Some (Ok r', w4) \<and>
     map t_workflow_instance_id (db_tickets (w_db asking_world)) = [] \<and>
     map (\<lambda>t. (t_workflow_instance_id t, t_dispatch_status t)) (db_tickets (w_db w4)) = [(5, Sent), (5, Sent)]"
  by (simp add: submit_read_def sample_submit world_eval row_into_model_def)
    (simp add: submit_apply_def apply_outcome.simps finish_with_def resume_after_ticket_dispatch_def engine_eval
      dispatch_eval world_eval sample_model_def touched_def)

section \<open>Witness\<close>

text \<open>The approver and the poller both reach for the approval; the poller comes first.\<close>

theorem one_decider_takes_effect_witness:
  "\<exists>w'. (interleave E1 (decider_step E1 6))\<^sup>*\<^sup>* ([Asked 1 Approve None, Expiring], sample_world)
      ([Asked 1 Approve None, Expired_it], w') \<and> has_status 6 Expired (w_db w')"
proof -
  have "approvals_decide E1 6 Expired (Some expiry_comment) sample_world =
      (Ok True, snd (approvals_decide E1 6 Expired (Some expiry_comment) sample_world))"
    by (simp add: approvals_decide_def approvals_decide_stmt_def world_eval)
  then obtain w' where "decider_step E1 6 Expiring sample_world = (Expired_it, w')"
    by (cases "approvals_decide E1 6 Expired (Some expiry_comment) sample_world") simp
  then have run: "(interleave E1 (decider_step E1 6))\<^sup>*\<^sup>* ([Asked 1 Approve None, Expiring], sample_world)
      ([Asked 1 Approve None, Expired_it], w')"
    using own [of 1 "[Asked 1 Approve None, Expiring]" "decider_step E1 6" sample_world Expired_it w'] by auto
  have "db_wf E1 (w_db sample_world)" using sample_db_wf by (simp add: sample_world_def)
  from one_decider_takes_effect [OF this _ run] have "has_status 6 Expired (w_db w')" by auto
  then show ?thesis using run by blast
qed

end
