(* ===== verification/Poller.thy ===== *)
theory Poller
  imports Always_Answers
begin

text \<open>
  \<^verbatim>\<open>spawn_expiry_poller\<close> (\<^verbatim>\<open>src/crates/approvals/src/poller.rs\<close>): the task that polls for expired
  approvals at every tick. An error of a round is logged and the next tick tries again; a panic
  unwinds the task, which nobody restarts. The ticks are tokio's, so a run of the task is a
  number of rounds.

  Shown: a round that meets no database fault leaves no approval pending that had expired when it
  began; the task goes on for ever unless a round panics.
\<close>

fun poller_rounds ::
    "env \<Rightarrow> (PendingApproval \<Rightarrow> (world, DbError, unit) run) \<Rightarrow> nat \<Rightarrow> (world, DbError, unit) run" where
  "poller_rounds E handler 0 w = Some (Ok (), w)"
| "poller_rounds E handler (Suc ticks) w =
     (case poll_once E handler w of
        None \<Rightarrow> None
      | Some (Ok _, w') \<Rightarrow> poller_rounds E handler ticks w'
      | Some (Err _, w') \<Rightarrow> poller_rounds E handler ticks w'
      | Some (Panic, w') \<Rightarrow> Some (Panic, w'))"

section \<open>What a round decides\<close>

definition decided_in :: "db \<Rightarrow> PendingApproval \<Rightarrow> bool" where
  "decided_in d a \<longleftrightarrow> (\<exists>b \<in> set (db_approvals d). same_request a b \<and> pa_status b \<noteq> Pending)"

definition present_in :: "db \<Rightarrow> PendingApproval \<Rightarrow> bool" where
  "present_in d a \<longleftrightarrow> (\<exists>b \<in> set (db_approvals d). same_request a b)"

lemma same_request_trans: "same_request a b \<Longrightarrow> same_request b c \<Longrightarrow> same_request a c"
  by (simp add: same_request_def)

lemma decided_stays:
  assumes "(db_step E)\<^sup>*\<^sup>* d d'" "decided_in d a"
  shows "decided_in d' a"
  using assms
proof (induction rule: rtranclp_induct)
  case (step d1 d2)
  then obtain b where b: "b \<in> set (db_approvals d1)" "same_request a b" "pa_status b \<noteq> Pending"
    by (auto simp: decided_in_def)
  from approval_step [OF step.hyps(2) b(1)] show ?case
    unfolding decided_in_def using b(2,3) by blast
qed

lemma present_stays:
  assumes "(db_step E)\<^sup>*\<^sup>* d d'" "present_in d a"
  shows "present_in d' a"
  using assms
proof (induction rule: rtranclp_induct)
  case (step d1 d2)
  then obtain b where b: "b \<in> set (db_approvals d1)" "same_request a b" by (auto simp: present_in_def)
  from approval_step [OF step.hyps(2) b(1)] show ?case
    unfolding present_in_def using same_request_trans [OF b(2)] by blast
qed

lemma decide_decides:
  assumes "approvals_decide E (pa_id a) Expired c w = (Ok flipped, w')" "present_in (w_db w) a"
  shows "decided_in (w_db w') a"
proof -
  obtain b where b: "b \<in> set (db_approvals (w_db w))" "same_request a b"
    using assms(2) by (auto simp: present_in_def)
  then have i: "pa_id b = pa_id a" by (simp add: same_request_def)
  obtain now where w': "w_db w' = snd (approvals_decide_stmt (pa_id a) Expired c now (w_db w))"
    using sql_Ok_world [of E "approvals_decide_stmt (pa_id a) Expired c"] assms(1)
    unfolding approvals_decide_def by (force elim!: bindM_OkE)
  let ?P = "\<lambda>r. pa_id r = pa_id a \<and> pa_status r = Pending"
  let ?f = "\<lambda>r. r\<lparr>pa_status := Expired, pa_comment := c, pa_decided_at := Some now\<rparr>"
  have "(if ?P b then ?f b else b) \<in> set (db_approvals (w_db w'))"
    using update_rows_mem [OF b(1), of ?P ?f] by (simp add: w' approvals_decide_stmt_def Let_def)
  moreover have "same_request a (if ?P b then ?f b else b)" using b(2) by (simp add: same_request_def)
  moreover have "pa_status (if ?P b then ?f b else b) \<noteq> Pending" using i by simp
  ultimately show ?thesis unfolding decided_in_def by blast
qed

lemma decide_statements:
  "approvals_decide E i st c w = (r, w') \<Longrightarrow> (db_step E)\<^sup>*\<^sup>* (w_db w) (w_db w')"
  using keepsD' [OF via_statements.ops_keep(4), of E "w_db w" w E i st c r w'] by simp

lemma handle_statements:
  "handle_expired E deps a w = Some (r, w') \<Longrightarrow> (db_step E)\<^sup>*\<^sup>* (w_db w) (w_db w')"
  by (erule ends_inD [OF via_statements.handle_expired_keeps, rotated]) simp

lemma expire_all_decides:
  "expire_all E (handle_expired E deps) expired w = Some (Ok (), w') \<Longrightarrow>
   \<forall>a \<in> set expired. present_in (w_db w) a \<Longrightarrow>
   (db_step E)\<^sup>*\<^sup>* (w_db w) (w_db w') \<and> (\<forall>a \<in> set expired. decided_in (w_db w') a)"
proof (induction expired arbitrary: w)
  case (Cons x expired)
  obtain q w1 where q: "approvals_decide E (pa_id x) Expired (Some expiry_comment) w = (q, w1)" by fastforce
  obtain flipped where f: "q = Ok flipped"
    using Cons.prems(1) q by (cases q) (auto simp: then_run_def)
  have s1: "(db_step E)\<^sup>*\<^sup>* (w_db w) (w_db w1)" using q by (rule decide_statements)
  have "decided_in (w_db w1) x" using decide_decides [OF q [unfolded f]] Cons.prems(2) by simp
  moreover obtain w2 where s2: "(db_step E)\<^sup>*\<^sup>* (w_db w1) (w_db w2)"
    and rest: "expire_all E (handle_expired E deps) expired w2 = Some (Ok (), w')"
  proof (cases flipped)
    case True
    then obtain r w2 where h: "handle_expired E deps x w1 = Some (r, w2)"
      and rest: "expire_all E (handle_expired E deps) expired w2 = Some (Ok (), w')"
      using Cons.prems(1) q f by (auto simp: then_run_def split: option.splits prod.splits res.splits)
    show thesis using handle_statements [OF h] rest by (rule that)
  next
    case False
    then show thesis using Cons.prems(1) q f by (intro that [of w1]) (auto simp: then_run_def)
  qed
  moreover have s: "(db_step E)\<^sup>*\<^sup>* (w_db w) (w_db w2)" using s1 s2 by simp
  moreover have "\<forall>a \<in> set expired. present_in (w_db w2) a"
    using Cons.prems(2) present_stays [OF s] by simp
  ultimately show ?case
    using Cons.IH [OF rest] decided_stays by (auto intro: rtranclp_trans)
qed simp

lemma handle_expired_result: "handle_expired E deps a w = Some (r, w') \<Longrightarrow> r = Ok () \<or> r = Panic"
  by (auto simp: handle_expired_def split: option.splits prod.splits res.splits)

lemma expire_all_result:
  assumes "fault_free E"
  shows "expire_all E (handle_expired E deps) expired w = Some (r, w') \<Longrightarrow> r = Ok () \<or> r = Panic"
proof (induction expired arbitrary: w)
  case (Cons x expired)
  obtain n d where "approvals_decide_stmt (pa_id x) Expired (Some expiry_comment) (env_time E (w_io w)) (w_db w) = (Inr n, d)"
    by (simp add: approvals_decide_stmt_def Let_def)
  then have "approvals_decide E (pa_id x) Expired (Some expiry_comment) w = (Ok (n > 0), w\<lparr>w_io := Suc (w_io w), w_db := d\<rparr>)"
    by (simp add: approvals_decide_def sql_fault_free [OF assms] bindM_apply)
  then show ?case
    using Cons.prems Cons.IH
    by (auto simp: then_run_def dest: handle_expired_result split: if_splits option.splits prod.splits res.splits)
qed simp

section \<open>Nothing stays expired\<close>

text \<open>C34: nobody waits for an approval that has expired. On workflows without cycles a round of the
  poller ends, and when the database answers and the round does not panic, every approval that
  was pending past its deadline when the round began has been decided when it ends.\<close>

theorem round_decides_expired:
  assumes "fault_free E" "acyclic_definitions E (w_db w)"
  shows "\<exists>r w'. poll_once E (handle_expired E deps) w = Some (r, w') \<and>
    (r \<noteq> Panic \<longrightarrow> r = Ok () \<and>
      (\<forall>a \<in> set (db_approvals (w_db w)). \<forall>t. pa_status a = Pending \<and> pa_expires_at a = Some t \<and>
         t \<le> env_time E (w_io w) \<longrightarrow>
         (\<exists>b \<in> set (db_approvals (w_db w')). same_request a b \<and> pa_status b \<noteq> Pending)))"
proof -
  obtain r w' where run: "poll_once E (handle_expired E deps) w = Some (r, w')"
    using poll_once_returns [OF assms(2)] by fastforce
  let ?expired = "filter (\<lambda>r. pa_status r = Pending \<and>
    (case pa_expires_at r of None \<Rightarrow> False | Some t \<Rightarrow> t \<le> env_time E (w_io w))) (db_approvals (w_db w))"
  let ?w = "w\<lparr>w_io := Suc (w_io w)\<rparr>"
  have "approvals_list_expired E w = (Ok ?expired, ?w)"
    by (simp add: approvals_list_expired_def sql_fault_free [OF assms(1)] query_def)
  then have all: "expire_all E (handle_expired E deps) ?expired ?w = Some (r, w')"
    using run by (simp add: poll_once_def then_run_def)
  have "r = Ok () \<or> r = Panic" using expire_all_result [OF assms(1) all] .
  moreover have "\<forall>a \<in> set ?expired. present_in (w_db ?w) a" by (auto simp: present_in_def intro: same_request_refl)
  ultimately show ?thesis
    using run all expire_all_decides [of E deps ?expired ?w w'] by (fastforce simp: decided_in_def)
qed

text \<open>The task outlives errors: it stops early only by a round that panics or does not return.\<close>

lemma poller_rounds_stop:
  "poller_rounds E handler ticks w = Some (r, w') \<Longrightarrow> r = Ok () \<or> r = Panic"
  by (induction ticks arbitrary: w) (auto split: option.splits prod.splits res.splits)

section \<open>Witness\<close>

definition overdue_world :: world where
  "overdue_world = sample_world\<lparr>w_db := sample_db\<lparr>db_approvals := [sample_approval\<lparr>pa_expires_at := Some 0\<rparr>]\<rparr>\<rparr>"

lemma overdue_round:
  "\<exists>w'. poll_once E1 (handle_expired E1 sample_deps) overdue_world = Some (Ok (), w')"
  by (simp add: poll_once_def approvals_list_expired_def approvals_decide_def approvals_decide_stmt_def
      handle_expired_def resume_after_approval_def engine_resume_after_approval_def engine_eval Let_def
      apply_outcome.simps finish_with_def overdue_world_def world_eval row_into_model_def)

theorem round_decides_expired_witness:
  "\<exists>w'. poll_once E1 (handle_expired E1 sample_deps) overdue_world = Some (Ok (), w') \<and>
     (\<exists>b \<in> set (db_approvals (w_db w')). pa_id b = 6 \<and> pa_status b \<noteq> Pending)"
proof -
  obtain w' where run: "poll_once E1 (handle_expired E1 sample_deps) overdue_world = Some (Ok (), w')"
    using overdue_round by blast
  have "forward_only (g_steps sample_graph)" by (simp add: sample_graph_def)
  then have "acyclic_definitions E1 (w_db overdue_world)"
    using forward_only_acyclic sample_row_model
    by (auto simp: acyclic_definitions_def overdue_world_def sample_db_def sample_model_def)
  moreover have "sample_approval\<lparr>pa_expires_at := Some 0\<rparr> \<in> set (db_approvals (w_db overdue_world))"
    "pa_status (sample_approval\<lparr>pa_expires_at := Some 0\<rparr>) = Pending"
    "pa_expires_at (sample_approval\<lparr>pa_expires_at := Some 0\<rparr>) = Some 0"
    "pa_id (sample_approval\<lparr>pa_expires_at := Some 0\<rparr>) = 6" "0 \<le> env_time E1 (w_io overdue_world)"
    by (simp_all add: overdue_world_def sample_world_def sample_db_def sample_approval_def sample_env_def)
  ultimately show ?thesis
    using run round_decides_expired [OF sample_env_fault_free, of sample_graph sample_mapping overdue_world sample_deps]
    by (fastforce simp: same_request_def)
qed

end
