(* ===== verification/Spec2Isabelle.thy ===== *)
theory Spec2Isabelle
  imports System Startup Web_Admin Always_Answers Server Identity No_Panic Launch Routing Interleaving Poller
begin

text \<open>
  ServCat is a service catalog and request server written in Rust: administrators author
  workflows as step graphs, users request catalog items, the server asks the workflow's
  questions, waits for approvals, and dispatches a ticket to Jira, GLPI or a webhook. This
  development models the crates under \<^verbatim>\<open>src/crates\<close> as a shallow embedding and proves the
  properties below.

  \<^bold>\<open>How code becomes definitions.\<close> A struct is a \<open>record\<close> (fields carry a prefix for their
  type), an enum a \<open>datatype\<close>, an integer a \<open>word\<close> of its width, a string the list of its UTF-8
  bytes. An \<^verbatim>\<open>async fn\<close> returning \<^verbatim>\<open>Result<T, E>\<close> is a function from the world to an outcome
  (\<open>Ok\<close>, \<open>Err\<close>, \<open>Panic\<close>) and the next world; a function whose loop has no bound is a partial
  function into \<open>option\<close>, and \<open>None\<close> is a call that never returns. The world is the database
  (one list of rows per table), the files, the in-memory maps of the sign-in service, the
  messages sent and the counters of external calls and random draws. What is not code of the
  repository is in the record \<open>env\<close>: the clock, faults of the database (before or after a
  statement took effect), MySQL's collation, HTTP and SMTP peers, random sources, hashing,
  JSON web tokens, Tera, serde's encodings, time zones. Nothing is assumed of it, except where
  a theorem says so (\<open>fault_free\<close>, sources that do not repeat themselves, Argon2 accepting what
  it hashed); each such theorem comes with an instance in which the assumption holds, and says in its
  text what the assumption leaves out.

  \<^bold>\<open>Theories, in the order of the crates.\<close>
  \<^item> \<open>Prelude\<close>, \<open>Rust_Strings\<close>: results and effects, Hoare-style rules (\<open>keeps\<close>, \<open>hoare\<close>,
    \<open>ends_in\<close>), tables as lists, the string functions of the standard library.
  \<^item> \<open>Model\<close> (\<^verbatim>\<open>crates/model\<close>): the domain types; JSON values as \<^verbatim>\<open>serde_json\<close> keeps them; the
    contract of the \<^verbatim>\<open>sql_string_enum!\<close> macro as the locale \<open>sql_string_enum\<close>, interpreted for
    every enum.
  \<^item> \<open>Workflow_Engine\<close> (\<^verbatim>\<open>crates/workflow-engine\<close>): the pure engine. The reference semantics is
    the unbounded walk along branches (\<open>reaches\<close>); the bounded loop (256 automatic steps, the
    code's own bound) computes it exactly up to the bound, an engine takes the event it asked
    for and refuses every other, and its runs always rest at a step.
  \<^item> \<open>Database\<close>, \<open>Repositories\<close> (\<^verbatim>\<open>crates/db\<close>, \<^verbatim>\<open>src/migrations\<close>): statements as functions on the
    tables, operations as sequences of statements (\<open>db_step\<close> is the relation of all statements the
    server has). The keys and foreign keys are MySQL's to enforce, and the statements model that;
    they hold in every reachable database (\<open>schema_always_holds\<close>, a lemma the rest builds on). A decided approval stays decided, two deciders cannot both win, the audit log only grows.
    The locale of keyed tables is interpreted for instances, approvals, users and tickets.
  \<^item> \<open>Connectors\<close> (\<^verbatim>\<open>crates/connectors\<close>, \<^verbatim>\<open>connector_registry.rs\<close>): field mappings and the three
    connectors, one locale \<open>ticket_connector\<close> interpreted four times.
  \<^item> \<open>Approvals\<close> (\<^verbatim>\<open>crates/approvals\<close>): resolution, creation, decision, the mailer and its
    construction, notification, expiry; the locales \<open>approval_notifier\<close> and
    \<open>expired_approval_handler\<close> are its two traits.
  \<^item> \<open>Timezone\<close>, \<open>Api_Error\<close>, \<open>Config\<close>, \<open>Auth\<close>, \<open>Uploads\<close>, \<open>Sso\<close>, \<open>Api_Routes\<close> (\<^verbatim>\<open>crates/server\<close>): dates as
    shown, errors and their statuses, the configuration, credentials and tokens (locale \<open>single_use_token\<close>, twice
    interpreted), logos, sign-in through Entra ID (locale \<open>once_codes\<close>, twice interpreted), and
    every handler of the JSON API.
  \<^item> \<open>Orchestrator\<close>, \<open>System\<close>: the glue between engine and effects. Each handler refines the pure
    engine; over every sequence of the handlers (\<open>sys_step\<close>) a pending approval and its
    request point at each other (\<open>sys_inv\<close>), and a finished request never changes again. What a
    handler of a request writes is the locale \<open>request_writes\<close>.
  \<^item> \<open>Catalog_Seed\<close>, \<open>Startup\<close>: the starter catalog and what the server does before it listens.
  \<^item> \<open>Web_Session\<close>, \<open>Web_Pages\<close>, \<open>Web_Admin\<close> (\<^verbatim>\<open>crates/server/src/web\<close>): cookies and sessions, and
    every page handler; a completed password reset signs the user out; a page is the record its template is rendered from.
  \<^item> \<open>Always_Answers\<close>: the handlers return when no workflow has a cycle.
  \<^item> \<open>Footprints\<close>: what each kind of handler may write, as the locales \<open>session_writes\<close>,
    \<open>account_writes\<close> and \<open>admin_writes\<close>, interpreted for what the next theories need.
  \<^item> \<open>Http\<close>, \<open>Routing\<close> (\<^verbatim>\<open>routes/mod.rs\<close>, \<^verbatim>\<open>web/mod.rs\<close>, every \<^verbatim>\<open>routes()\<close>): the whole server as one
    function of a request (\<open>http_serve\<close>), and the tables of paths it hangs on; the two agree, and no
    path is ambiguous.
  \<^item> \<open>Server\<close>: every run of requests and poller rounds (\<open>server_step\<close>). A request that is not an
    administrator's leaves the administration alone, whatever tokens and forms are sent. That a
    request awaiting approval has a pending one is not an invariant (\<open>decision_strands_request\<close>).
  \<^item> \<open>Identity\<close>: whose request it is, stated without the extractors (\<open>identifies\<close>, \<open>renews\<close>, \<open>tokens_of\<close>).
    A protected request that nobody stands behind does nothing; a deactivated account gets in
    nowhere, by whatever way of signing in (\<open>signs_in\<close>).
  \<^item> \<open>No_Panic\<close>: the four additions to the clock at which a handler can unwind, and that nothing panics
    while these sums can be represented (\<open>calm\<close>, with one rule per combinator).
  \<^item> \<open>Launch\<close> (\<^verbatim>\<open>main.rs\<close>): the life of a deployment, restarts included (\<open>life_step\<close>), in which
    the invariants of System hold from the first start on, as long as no statement fails
    (\<open>interrupted_approval\<close> is what one lost statement leads to).
  \<^item> \<open>Interleaving\<close>: handlers that overtake each other between their statements. Of overlapping
    decisions one takes effect; a refresh token and an answer can be used twice.
  \<^item> \<open>Poller\<close> (\<^verbatim>\<open>poller.rs\<close>): the polling task, and what a round of it leaves decided.
  \<^item> This theory: every request is answered, and none by a panic.

  \<^bold>\<open>Bounds.\<close> No fuel is chosen by the development. The engine's bound is the code's; the two
  loops without a bound are partial functions, with a theorem when they return and a lemma that
  they do not on a cycle (\<open>ticket_cycle_redispatches\<close>, \<open>preview_never_ends\<close>). The polling task
  runs for ever; \<open>poller_rounds\<close> is a run of it up to any number of ticks.

  \<^bold>\<open>Concurrency.\<close> A handler is one step of \<open>sys_step\<close>, \<open>server_step\<close> and \<open>life_step\<close>: what is shown
  over these relations is shown for handlers that run one after the other. The invariants over
  \<open>db_step\<close> (schema, finality of decisions, the audit log, fixed identities) hold for every
  interleaving of statements. In Interleaving a handler is cut into the segments between its
  statements, for the three handlers whose correctness depends on it most; the cut of each is
  shown to be the handler when nothing overtakes it. The invariants of \<open>sys_step\<close> do not hold for
  every interleaving (\<open>answer_dispatched_twice\<close>).

  \<^bold>\<open>Not modelled.\<close> How axum finds the row of a path and decodes a request (a handler gets decoded
  values), limits on bodies, the timeout and trace layers, Askama's templates and the browser's
  assets, tracing, the SMTP and HTTP protocols, the connection pool and the SQL of the migrations,
  the interval timer of the poller, the listener and the shutdown signal: calls of third-party
  code without logic of their own. The seed file's content is data; the loader is verified for
  every list of items.
\<close>

section \<open>Every request is answered\<close>

text \<open>C11: every request is answered. When the steps of no stored workflow form a cycle, and the
  lifetimes of tokens and the deadlines of the stored approval steps can be added to the clock,
  every request gets a response: its handler returns, although two of the loops behind the
  handlers have no bound in the code, and it does not panic; whatever the answers, the faults
  of the database and the replies of the ticket systems and the mail server. Every round of the
  expiry poller ends without a panic too. Every workflow of the starter catalog is acyclic. (The
  server is the release build, in which the offset of a page of the audit log wraps around.)\<close>

theorem acyclic_workflows_always_answer:
  assumes "acyclic_definitions E (w_db w)" "lifetimes_fit E (st_state st)" "deadlines_fit E (w_db w)"
  shows "(\<exists>answer w'. http_serve E st req w = Some (answer, w') \<and> answer \<noteq> Aborted) \<and>
    (\<exists>r w'. poll_once E (handle_expired E deps) w = Some (r, w') \<and> r \<noteq> Panic) \<and>
    (\<forall>pattern questions. \<exists>graph. build_graph pattern questions = Some graph \<and> acyclic (step_edges graph))"
proof (intro conjI allI)
  show "\<exists>answer w'. http_serve E st req w = Some (answer, w') \<and> answer \<noteq> Aborted"
    using http_serve_returns [OF assms(1)] http_serve_calm [OF assms(2,3)] by fastforce
  show "\<exists>r w'. poll_once E (handle_expired E deps) w = Some (r, w') \<and> r \<noteq> Panic"
    using poll_once_returns [OF assms(1)] poll_once_calm [OF assms(3)] by fastforce
  fix pattern questions
  obtain s ss where "pattern_steps pattern questions = s # ss" "forward_only (s # ss)"
    using pattern_steps_forward [of pattern questions] by (cases "pattern_steps pattern questions") auto
  then show "\<exists>graph. build_graph pattern questions = Some graph \<and> acyclic (step_edges graph)"
    by (auto simp: build_graph_def intro!: forward_only_acyclic)
qed

theorem acyclic_workflows_always_answer_witness:
  "(\<exists>answer w'. http_serve E1 sample_site (MemberApi (Some ''2s'') (StartInstance 4)) sample_world =
      Some (answer, w') \<and> answer \<noteq> Aborted) \<and>
   (\<exists>r w'. poll_once E1 (handle_expired E1 sample_deps) sample_world = Some (r, w') \<and> r \<noteq> Panic)"
proof -
  have "forward_only (g_steps sample_graph)" by (simp add: sample_graph_def)
  then have "acyclic_definitions E1 (w_db sample_world)"
    using forward_only_acyclic sample_row_model
    by (auto simp: acyclic_definitions_def sample_world_def sample_db_def sample_model_def)
  moreover have "lifetimes_fit E1 (st_state sample_site)" by (simp add: lifetimes_fit_def sample_env_def)
  moreover have "deadline_fits E1 t" for t by (cases t) (simp_all add: sample_env_def)
  then have "deadlines_fit E1 (w_db sample_world)" by (simp add: deadlines_fit_def graph_fits_def)
  ultimately show ?thesis using acyclic_workflows_always_answer by blast
qed

end
